(* ===== verification/Prelude.thy ===== *)
theory Prelude
  imports Main "HOL-Library.Word"
begin

text \<open>
  The shared vocabulary of the development: machine words, byte buffers, the result type of
  fallible operations, the code outside the repository on which the sources rely, and the
  generic lemmas on slices and bytes that the component theories use.

  Rust's \<^verbatim>\<open>Result<T, Fail>\<close> together with a panic is the type \<open>'a res\<close>: \<open>Ok\<close> and \<open>Err\<close>
  are the two variants of the source, \<open>Panic\<close> stands for \<^verbatim>\<open>panic!\<close>, a failed \<^verbatim>\<open>assert!\<close>,
  \<^verbatim>\<open>unwrap\<close> or \<^verbatim>\<open>expect\<close>.  Integer arithmetic follows the release profile of
  \<^verbatim>\<open>Cargo.toml\<close> (\<^verbatim>\<open>overflow-checks = false\<close>, \<^verbatim>\<open>debug-assertions = false\<close>): operators wrap.
\<close>

unbundle bit_operations_syntax

named_theorems res_simps \<open>equations of the result type\<close>
named_theorems wire_simps \<open>reading back what was written into a buffer\<close>

type_synonym u8 = "8 word"
type_synonym u16 = "16 word"
type_synonym u32 = "32 word"
type_synonym bytes = "u8 list"
type_synonym ipv4_addr = u32
type_synonym mac_address = bytes

section \<open>Errors and results\<close>

text \<open>The \<^verbatim>\<open>libc\<close> error numbers the sources name, by name.\<close>

datatype errno =
    EBADMSG | ENOTSUP | EINVAL | EBUSY | EBADF | EEXIST | ENOTCONN | EADDRINUSE | ENOENT
  | EIO | ETIMEDOUT | ECONNREFUSED | EAGAIN | EINPROGRESS | EOPNOTSUPP | EDESTADDRREQ
  | EALREADY | EISCONN | EOTHER

datatype fail = Fail errno string

datatype 'a res = Ok 'a | Err fail | Panic string

fun res_bind :: "'a res \<Rightarrow> ('a \<Rightarrow> 'b res) \<Rightarrow> 'b res" where
  "res_bind (Ok x) f = f x"
| "res_bind (Err e) f = Err e"
| "res_bind (Panic s) f = Panic s"

definition is_panic :: "'a res \<Rightarrow> bool" where
  "is_panic r = (case r of Panic _ \<Rightarrow> True | _ \<Rightarrow> False)"

lemma is_panic_simps [simp]:
  "\<not> is_panic (Ok x)" "\<not> is_panic (Err e)" "is_panic (Panic s)"
  by (simp_all add: is_panic_def)

lemma is_panic_bind:
  "is_panic (res_bind r f) \<longleftrightarrow> is_panic r \<or> (\<exists>x. r = Ok x \<and> is_panic (f x))"
  by (cases r) auto

lemma res_bind_Ok_iff [res_simps]:
  "res_bind r f = Ok y \<longleftrightarrow> (\<exists>x. r = Ok x \<and> f x = Ok y)"
  by (cases r) auto

lemma res_bind_Err_iff [res_simps]:
  "res_bind r f = Err e \<longleftrightarrow> r = Err e \<or> (\<exists>x. r = Ok x \<and> f x = Err e)"
  by (cases r) auto

lemma res_bind_cong [fundef_cong]:
  "r = r' \<Longrightarrow> (\<And>x. r' = Ok x \<Longrightarrow> f x = g x) \<Longrightarrow> res_bind r f = res_bind r' g"
  by (cases r') auto

section \<open>Slices and in-place writes\<close>

text \<open>
  \<open>bslice i j xs\<close> is the Rust slice \<^verbatim>\<open>xs[i..j]\<close>, \<open>put i bs xs\<close> the buffer after
  \<^verbatim>\<open>xs[i..i + bs.len()].copy_from_slice(bs)\<close>.  Both are used only where the source has
  checked the bounds first.
\<close>

definition bslice :: "nat \<Rightarrow> nat \<Rightarrow> 'a list \<Rightarrow> 'a list" where
  "bslice i j xs = take (j - i) (drop i xs)"

definition put :: "nat \<Rightarrow> 'a list \<Rightarrow> 'a list \<Rightarrow> 'a list" where
  "put i bs xs = take i xs @ bs @ drop (i + length bs) xs"

lemma length_slice [simp]: "length (bslice i j xs) = min (j - i) (length xs - i)"
  by (simp add: bslice_def min.commute)

lemma length_put [simp]:
  "i + length bs \<le> length xs \<Longrightarrow> length (put i bs xs) = length xs"
  by (simp add: put_def)

lemma bslice_put_same [wire_simps]:
  "i \<le> length xs \<Longrightarrow> j = i + length bs \<Longrightarrow> bslice i j (put i bs xs) = bs"
  by (simp add: bslice_def put_def)

lemma bslice_put_before [wire_simps]:
  "j \<le> k \<Longrightarrow> k \<le> length xs \<Longrightarrow> bslice i j (put k bs xs) = bslice i j xs"
  by (cases "i \<le> j") (simp_all add: bslice_def put_def drop_take min_def)

lemma bslice_put_after [wire_simps]:
  assumes "k + length bs \<le> i" and "k + length bs \<le> length xs"
  shows "bslice i j (put k bs xs) = bslice i j xs"
proof -
  have "drop i (put k bs xs) = drop i xs"
    using assms by (simp add: put_def drop_append)
  then show ?thesis by (simp add: bslice_def)
qed

lemma nth_put_before [wire_simps]:
  "i < k \<Longrightarrow> k \<le> length xs \<Longrightarrow> put k bs xs ! i = xs ! i"
  by (simp add: put_def nth_append)

lemma nth_put_after [wire_simps]:
  "k + length bs \<le> i \<Longrightarrow> k + length bs \<le> length xs \<Longrightarrow> put k bs xs ! i = xs ! i"
  by (auto simp: put_def nth_append)

lemma nth_put_in [wire_simps]:
  "k \<le> i \<Longrightarrow> i < k + length bs \<Longrightarrow> k \<le> length xs \<Longrightarrow> put k bs xs ! i = bs ! (i - k)"
  by (auto simp: put_def nth_append)

lemma bslice_update_before [wire_simps]: "j \<le> k \<Longrightarrow> bslice i j (xs[k := b]) = bslice i j xs"
  by (cases "k < length xs"; cases "i \<le> j")
     (simp_all add: bslice_def take_drop take_update_cancel list_update_beyond)

lemma bslice_update_after [wire_simps]: "k < i \<Longrightarrow> bslice i j (xs[k := b]) = bslice i j xs"
  by (simp add: bslice_def drop_update_cancel)

lemma drop_put_beyond [wire_simps]:
  "k + length bs \<le> n \<Longrightarrow> k + length bs \<le> length xs \<Longrightarrow> drop n (put k bs xs) = drop n xs"
  by (simp add: put_def drop_append)

lemma bslice_append_left [wire_simps]: "j \<le> length xs \<Longrightarrow> bslice i j (xs @ ys) = bslice i j xs"
  by (simp add: bslice_def)

lemma bslice_all [wire_simps]: "j = length xs \<Longrightarrow> bslice 0 j xs = xs"
  by (simp add: bslice_def)

lemma bslice_eq_nths: "i + 2 \<le> length xs \<Longrightarrow> bslice i (i + 2) xs = [xs ! i, xs ! (i + 1)]"
  by (simp add: bslice_def list_eq_iff_nth_eq nth_Cons' less_Suc_eq numeral_2_eq_2)

lemma bslice_slice [wire_simps]:
  "a + j \<le> b \<Longrightarrow> bslice i j (bslice a b xs) = bslice (a + i) (a + j) xs"
  by (simp add: bslice_def min_def add.commute drop_take)

lemma put_Cons: "n < length acc \<Longrightarrow> put n (x # xs) acc = put (Suc n) xs (acc[n := x])"
  by (simp add: put_def take_Suc_conv_app_nth)

lemma take_Suc_update: "k < length xs \<Longrightarrow> take (Suc k) (xs[k := v]) = take k xs @ [v]"
  by (simp add: take_Suc_conv_app_nth)

lemma bslice_take: "j \<le> n \<Longrightarrow> bslice i j (take n xs) = bslice i j xs"
  by (simp add: bslice_def drop_take min_def)

lemma put_Nil [simp]: "put n [] acc = acc" by (simp add: put_def)

lemma put_put_drop:
  assumes "p + length bs \<le> length buf"
  shows "put p (put 0 bs (drop p buf)) buf = put p bs buf"
  using assms by (simp add: put_def ac_simps)

lemma put_append:
  "p + length (xs @ ys) \<le> length buf \<Longrightarrow> put (p + length xs) ys (put p xs buf) = put p (xs @ ys) buf"
  by (simp add: put_def ac_simps)

section \<open>Writing a part of a buffer\<close>

text \<open>
  \<^verbatim>\<open>f(&mut buf[i..j])\<close>: the callee overwrites the slice; slicing past the end panics.
\<close>

definition on_slice :: "nat \<Rightarrow> nat \<Rightarrow> ('a list \<Rightarrow> 'a list res) \<Rightarrow> 'a list \<Rightarrow> 'a list res" where
  "on_slice i j f buf =
     (if length buf < j then Panic ''range end index out of range''
      else res_bind (f (bslice i j buf)) (\<lambda>s. Ok (put i s buf)))"

text \<open>Three consecutive writes that fill the buffer.\<close>

lemma on_slice_fill:
  assumes "length buf = a + b" "f (bslice 0 a buf) = Ok x" "length x = a"
    and "g (bslice a (a + b) buf) = Ok y" "length y = b"
  shows "res_bind (on_slice 0 a f buf) (on_slice a (a + b) g) = Ok (x @ y)"
  using assms by (simp add: on_slice_def put_def bslice_def)

lemma on_slice_fill3:
  assumes "length buf = a + b + c" "f (bslice 0 a buf) = Ok x" "length x = a"
    and "g (bslice a (a + b) buf) = Ok y" "length y = b"
    and "h (bslice (a + b) (a + b + c) buf) = Ok z" "length z = c"
  shows "res_bind (on_slice 0 a f buf) (\<lambda>s. res_bind (on_slice a (a + b) g s)
           (on_slice (a + b) (a + b + c) h)) = Ok (x @ y @ z)"
  using assms by (simp add: on_slice_def put_def bslice_def add.commute [of b a])

section \<open>Bits of small words\<close>

lemma bit_above_bound: "unat w < 2 ^ n \<Longrightarrow> n \<le> m \<Longrightarrow> \<not> bit (w :: 'a::len word) m"
proof -
  assume "unat w < 2 ^ n" "n \<le> m"
  then have "unat w < 2 ^ m" by (meson less_le_trans one_le_numeral power_increasing)
  then have "\<not> bit (unat w) m" by (simp add: bit_iff_odd)
  then show ?thesis by (auto simp: bit_unsigned_iff dest: bit_imp_le_length)
qed

lemma and_one_bit: "(w AND push_bit n 1 = 0) \<longleftrightarrow> \<not> bit (w :: 'a::len word) n"
  by (metis and_exp_eq_0_iff_not_bit push_bit_of_1)

end
