(* ===== verification/Extern.thy ===== *)
theory Extern
  imports Prelude
begin

text \<open>
  The code outside the repository that the packet code calls, as one record of functions that
  the definitions take as an argument: the big-endian readers and writers of the crate
  \<^verbatim>\<open>byteorder\<close>, and of the crate \<^verbatim>\<open>runtime\<close> the two resizing operations of \<^verbatim>\<open>Buffer\<close>, the
  broadcast address of \<^verbatim>\<open>MacAddress\<close> and the \<^verbatim>\<open>Fail\<close> into which \<^verbatim>\<open>?\<close> turns the
  \<^verbatim>\<open>io::Error\<close> of a read past the end of a cursor.  What is documented of that code is stated
  as the assumptions of the locales \<open>byteorder\<close> and \<open>buffer_ops\<close>; a theorem that needs
  it has the hypothesis \<open>extern E\<close>.  Nothing is assumed about resizing a buffer by more than
  its length.

  The theory also holds the interface that every header of the stack offers
  (\<open>wire_codec\<close>): serialising a header into a buffer of its size and parsing the result
  followed by the payload gives the header and the payload back.
\<close>

record ext =
  read_u16 :: "bytes \<Rightarrow> u16"
  read_u32 :: "bytes \<Rightarrow> u32"
  write_u16 :: "u16 \<Rightarrow> bytes"
  write_u32 :: "u32 \<Rightarrow> bytes"
  buf_adjust :: "bytes \<Rightarrow> nat \<Rightarrow> bytes"
  buf_trim :: "bytes \<Rightarrow> nat \<Rightarrow> bytes"
  mac_broadcast :: mac_address
  io_eof :: fail

text \<open>What \<^verbatim>\<open>NetworkRuntime\<close> says about the host.\<close>

record rt_addrs =
  rt_local_link_addr :: mac_address
  rt_local_ipv4_addr :: ipv4_addr

text \<open>\<^verbatim>\<open>to_be_bytes\<close> and \<^verbatim>\<open>from_be_bytes\<close> of the standard library.\<close>

definition to_be_bytes16 :: "u16 \<Rightarrow> bytes" where
  "to_be_bytes16 w = [ucast (drop_bit 8 w), ucast w]"

definition to_be_bytes32 :: "u32 \<Rightarrow> bytes" where
  "to_be_bytes32 w = [ucast (drop_bit 24 w), ucast (drop_bit 16 w), ucast (drop_bit 8 w), ucast w]"

definition from_be_bytes16 :: "u8 \<Rightarrow> u8 \<Rightarrow> u16" where
  "from_be_bytes16 a b = push_bit 8 (ucast a) OR ucast b"

definition from_be_bytes32 :: "u8 \<Rightarrow> u8 \<Rightarrow> u8 \<Rightarrow> u8 \<Rightarrow> u32" where
  "from_be_bytes32 a b c d =
     push_bit 24 (ucast a) OR push_bit 16 (ucast b) OR push_bit 8 (ucast c) OR ucast d"

text \<open>\<^verbatim>\<open>Ipv4Addr::octets\<close>.\<close>

definition ipv4_octets :: "ipv4_addr \<Rightarrow> bytes" where
  "ipv4_octets a = to_be_bytes32 a"

lemma length_be_bytes [simp]:
  "length (to_be_bytes16 w) = 2" "length (to_be_bytes32 v) = 4" "length (ipv4_octets v) = 4"
  by (simp_all add: to_be_bytes16_def to_be_bytes32_def ipv4_octets_def)

lemma from_to_be_bytes16: "from_be_bytes16 (ucast (drop_bit 8 w)) (ucast w) = w"
proof (rule bit_word_eqI)
  fix n assume "n < LENGTH(16)"
  then show "bit (from_be_bytes16 (ucast (drop_bit 8 w)) (ucast w)) n = bit w n"
    by (cases "n < 8") (auto simp: from_be_bytes16_def bit_simps)
qed

lemma from_to_be_bytes32:
  "from_be_bytes32 (ucast (drop_bit 24 w)) (ucast (drop_bit 16 w)) (ucast (drop_bit 8 w)) (ucast w) = w"
proof (rule bit_word_eqI)
  fix n assume n: "n < LENGTH(32)"
  consider "n < 8" | "8 \<le> n" "n < 16" | "16 \<le> n" "n < 24" | "24 \<le> n" by linarith
  then show "bit (from_be_bytes32 (ucast (drop_bit 24 w)) (ucast (drop_bit 16 w))
      (ucast (drop_bit 8 w)) (ucast w)) n = bit w n"
    using n by cases (auto simp: from_be_bytes32_def bit_simps)
qed

lemma to_from_be_bytes16:
  "to_be_bytes16 (from_be_bytes16 a b) = [a, b]"
proof -
  have "ucast (drop_bit 8 (from_be_bytes16 a b)) = a"
    by (rule bit_word_eqI) (auto simp: from_be_bytes16_def bit_simps dest: bit_imp_le_length)
  moreover have "ucast (from_be_bytes16 a b) = b"
    by (rule bit_word_eqI) (auto simp: from_be_bytes16_def bit_simps)
  ultimately show ?thesis by (simp add: to_be_bytes16_def)
qed

section \<open>What is documented of the external code\<close>

locale byteorder =
  fixes E :: ext
  assumes read_u16_be: "read_u16 E [a, b] = from_be_bytes16 a b"
    and read_u32_be: "read_u32 E [a, b, c, d] = from_be_bytes32 a b c d"
    and write_u16_be: "write_u16 E v = to_be_bytes16 v"
    and write_u32_be: "write_u32 E w = to_be_bytes32 w"
begin

lemma read_write_u16 [simp]: "read_u16 E (write_u16 E v) = v"
  by (simp add: write_u16_be to_be_bytes16_def read_u16_be from_to_be_bytes16)

lemma read_write_u32 [simp]: "read_u32 E (write_u32 E w) = w"
  by (simp add: write_u32_be to_be_bytes32_def read_u32_be from_to_be_bytes32)

lemma read_octets [simp]: "read_u32 E (ipv4_octets a) = a"
  by (simp add: ipv4_octets_def to_be_bytes32_def read_u32_be from_to_be_bytes32)

lemma read_be_bytes16 [simp]: "read_u16 E (to_be_bytes16 v) = v"
  by (simp add: to_be_bytes16_def read_u16_be from_to_be_bytes16)

lemma length_write [simp]: "length (write_u16 E v) = 2" "length (write_u32 E w) = 4"
  by (simp_all add: write_u16_be write_u32_be)

end

locale buffer_ops =
  fixes E :: ext
  assumes adjust_drop: "n \<le> length b \<Longrightarrow> buf_adjust E b n = drop n b"
    and trim_take: "n \<le> length b \<Longrightarrow> buf_trim E b n = take (length b - n) b"
begin

lemma length_adjust [simp]: "n \<le> length b \<Longrightarrow> length (buf_adjust E b n) = length b - n"
  by (simp add: adjust_drop)

lemma length_trim [simp]: "n \<le> length b \<Longrightarrow> length (buf_trim E b n) = length b - n"
  by (simp add: trim_take)

end

locale extern = byteorder + buffer_ops +
  assumes mac_broadcast_len: "length (mac_broadcast E) = 6"

text \<open>
  The documented behaviour as executable functions; it meets the assumptions, and witnesses
  evaluate on it.
\<close>

definition documented_ext :: ext where
  "documented_ext = \<lparr>
     read_u16 = (\<lambda>bs. from_be_bytes16 (bs ! 0) (bs ! 1)),
     read_u32 = (\<lambda>bs. from_be_bytes32 (bs ! 0) (bs ! 1) (bs ! 2) (bs ! 3)),
     write_u16 = to_be_bytes16,
     write_u32 = to_be_bytes32,
     buf_adjust = (\<lambda>b n. drop n b),
     buf_trim = (\<lambda>b n. take (length b - n) b),
     mac_broadcast = replicate 6 255,
     io_eof = Fail EOTHER ''unexpected end of file''\<rparr>"

interpretation docs: extern documented_ext
  by unfold_locales (simp_all add: documented_ext_def numeral_2_eq_2 numeral_3_eq_3)

lemma extern_documented: "extern documented_ext"
  by (rule docs.extern_axioms)

section \<open>The interface of a header\<close>

locale wire_codec =
  fixes hdr_size :: "'h \<Rightarrow> nat"
    and ser :: "'h \<Rightarrow> bytes \<Rightarrow> bytes \<Rightarrow> bytes res"
    and par :: "bytes \<Rightarrow> ('h \<times> bytes) res"
    and wf :: "'h \<Rightarrow> bytes \<Rightarrow> bool"
    and norm :: "'h \<Rightarrow> bytes \<Rightarrow> 'h"
  assumes codec: "wf h p \<Longrightarrow> length b = hdr_size h \<Longrightarrow>
      \<exists>bs. ser h p b = Ok bs \<and> length bs = hdr_size h \<and> par (bs @ p) = Ok (norm h p, p)"
begin

lemma ser_total: "wf h p \<Longrightarrow> length b = hdr_size h \<Longrightarrow> \<exists>bs. ser h p b = Ok bs"
  using codec by blast

lemma par_ser:
  "wf h p \<Longrightarrow> length b = hdr_size h \<Longrightarrow> ser h p b = Ok bs \<Longrightarrow> par (bs @ p) = Ok (norm h p, p)"
  using codec [of h p b] by auto

lemma ser_length:
  "wf h p \<Longrightarrow> length b = hdr_size h \<Longrightarrow> ser h p b = Ok bs \<Longrightarrow> length bs = hdr_size h"
  using codec [of h p b] by auto

text \<open>Two frames with the same bytes carry the same header and the same payload.\<close>

lemma frame_injective:
  assumes "wf h p" "length b = hdr_size h" "ser h p b = Ok bs"
    and "wf h' p'" "length b' = hdr_size h'" "ser h' p' b' = Ok bs'"
    and "bs @ p = bs' @ p'"
  shows "norm h p = norm h' p' \<and> p = p'"
  using par_ser [OF assms(1-3)] par_ser [OF assms(4-6)] unfolding assms(7) by auto

end

text \<open>
  A packet nests one header in the payload of another.  The outer parser hands the inner one
  exactly the bytes the inner serialiser wrote, so the nested headers come back too.
\<close>

locale wire_stack =
  outer: wire_codec hdr_size ser par wf norm +
  inner: wire_codec hdr_size' ser' par' wf' norm'
  for hdr_size :: "'h \<Rightarrow> nat" and ser par wf norm
    and hdr_size' :: "'g \<Rightarrow> nat" and ser' par' wf' norm'
begin

lemma nested:
  assumes "wf' g p" "length b' = hdr_size' g" "ser' g p b' = Ok bs'"
    and "wf h (bs' @ p)" "length b = hdr_size h" "ser h (bs' @ p) b = Ok bs"
  shows "res_bind (par (bs @ bs' @ p)) (\<lambda>(x, q). res_bind (par' q) (\<lambda>(y, r). Ok (x, y, r)))
       = Ok (norm h (bs' @ p), norm' g p, p)"
  using outer.par_ser [OF assms(4-6)] inner.par_ser [OF assms(1-3)] by simp

end

end
