(* ===== verification/Ethernet2.thy ===== *)
theory Ethernet2
  imports Extern
begin

text \<open>
  \<^verbatim>\<open>src/src/protocols/ethernet2/\<close>: the Ethernet II header, its EtherType, parsing and
  serialisation.  \<^verbatim>\<open>MacAddress\<close> (crate \<^verbatim>\<open>runtime\<close>) is the list of its six octets.
\<close>

datatype ether_type2 = Arp | Ipv4 | Ipv6

fun ether_type2_code :: "ether_type2 \<Rightarrow> u16" where
  "ether_type2_code Arp = 0x806"
| "ether_type2_code Ipv4 = 0x800"
| "ether_type2_code Ipv6 = 0x86dd"

definition ether_type2_try_from :: "u16 \<Rightarrow> ether_type2 res" where
  "ether_type2_try_from n =
     (if n = 0x806 then Ok Arp
      else if n = 0x800 then Ok Ipv4
      else if n = 0x86dd then Ok Ipv6
      else Err (Fail ENOTSUP ''unsupported ETHERTYPE''))"

definition ETHERNET2_HEADER_SIZE :: nat where
  "ETHERNET2_HEADER_SIZE = 14"

record ethernet2_header =
  eth_dst_addr :: mac_address
  eth_src_addr :: mac_address
  eth_ether_type :: ether_type2

definition ethernet2_new :: "mac_address \<Rightarrow> mac_address \<Rightarrow> ether_type2 \<Rightarrow> ethernet2_header" where
  "ethernet2_new dst src t = \<lparr>eth_dst_addr = dst, eth_src_addr = src, eth_ether_type = t\<rparr>"

definition ethernet2_compute_size :: "ethernet2_header \<Rightarrow> nat" where
  "ethernet2_compute_size h = ETHERNET2_HEADER_SIZE"

definition ethernet2_parse :: "ext \<Rightarrow> bytes \<Rightarrow> (ethernet2_header \<times> bytes) res" where
  "ethernet2_parse E buf =
     (if length buf < ETHERNET2_HEADER_SIZE then Err (Fail EBADMSG ''frame too small'')
      else
        let hdr_buf = bslice 0 ETHERNET2_HEADER_SIZE buf;
            dst_addr = bslice 0 6 hdr_buf;
            src_addr = bslice 6 12 hdr_buf
        in res_bind (ether_type2_try_from (read_u16 E (bslice 12 14 hdr_buf))) (\<lambda>ether_type.
             Ok (\<lparr>eth_dst_addr = dst_addr, eth_src_addr = src_addr, eth_ether_type = ether_type\<rparr>,
                 buf_adjust E buf ETHERNET2_HEADER_SIZE)))"

definition ethernet2_serialize :: "ext \<Rightarrow> ethernet2_header \<Rightarrow> bytes \<Rightarrow> bytes res" where
  "ethernet2_serialize E h buf =
     (if length buf \<noteq> ETHERNET2_HEADER_SIZE then Panic ''called `Result::unwrap()`''
      else
        let buf = put 0 (eth_dst_addr h) buf;
            buf = put 6 (eth_src_addr h) buf;
            buf = put 12 (write_u16 E (ether_type2_code (eth_ether_type h))) buf
        in Ok buf)"

section \<open>Properties\<close>

definition eth_wf :: "ethernet2_header \<Rightarrow> bool" where
  "eth_wf h \<longleftrightarrow> length (eth_dst_addr h) = 6 \<and> length (eth_src_addr h) = 6"

lemma try_from_code [simp]: "ether_type2_try_from (ether_type2_code t) = Ok t"
  by (cases t) (simp_all add: ether_type2_try_from_def)

lemma try_from_Ok: "ether_type2_try_from n = Ok t \<Longrightarrow> ether_type2_code t = n"
  by (auto simp: ether_type2_try_from_def split: if_splits)

lemma try_from_no_panic [simp]: "\<not> is_panic (ether_type2_try_from n)"
  by (simp add: ether_type2_try_from_def)

lemma ethernet2_parse_no_panic: "\<not> is_panic (ethernet2_parse E buf)"
  by (simp add: ethernet2_parse_def is_panic_bind Let_def)

context extern
begin

lemma ethernet2_serialize_bytes:
  assumes "eth_wf h" "length b = 14"
  shows "ethernet2_serialize E h b
       = Ok (eth_dst_addr h @ eth_src_addr h @ write_u16 E (ether_type2_code (eth_ether_type h)))"
  using assms by (simp add: ethernet2_serialize_def ETHERNET2_HEADER_SIZE_def eth_wf_def put_def)

lemma ethernet2_codec:
  assumes "eth_wf h" "length b = 14"
  shows "\<exists>bs. ethernet2_serialize E h b = Ok bs \<and> length bs = 14 \<and>
              ethernet2_parse E (bs @ p) = Ok (h, p)"
  using assms
  by (simp add: ethernet2_serialize_bytes ethernet2_parse_def ETHERNET2_HEADER_SIZE_def
      Let_def bslice_def eth_wf_def adjust_drop)

end

sublocale extern \<subseteq> eth: wire_codec
  "\<lambda>_. 14" "\<lambda>h p b. ethernet2_serialize E h b" "ethernet2_parse E" "\<lambda>h p. eth_wf h" "\<lambda>h p. h"
  by unfold_locales (rule ethernet2_codec)

end
