(* ===== verification/Arp_Packet.thy ===== *)
theory Arp_Packet
  imports Ethernet2
begin

text \<open>
  \<^verbatim>\<open>src/src/protocols/arp/packet/\<close>: the ARP protocol data unit for Ethernet and IPv4, and the
  message that carries it.
\<close>

datatype arp_operation = Request | Reply

fun arp_operation_code :: "arp_operation \<Rightarrow> u16" where
  "arp_operation_code Request = 1"
| "arp_operation_code Reply = 2"

text \<open>The derived \<^verbatim>\<open>FromPrimitive::from_u16\<close>.\<close>

definition arp_operation_from_u16 :: "u16 \<Rightarrow> arp_operation option" where
  "arp_operation_from_u16 n = (if n = 1 then Some Request else if n = 2 then Some Reply else None)"

definition ARP_MESSAGE_SIZE :: nat where
  "ARP_MESSAGE_SIZE = 28"

record arp_header =
  arp_operation :: arp_operation
  arp_sender_hardware_addr :: mac_address
  arp_sender_protocol_addr :: ipv4_addr
  arp_target_hardware_addr :: mac_address
  arp_target_protocol_addr :: ipv4_addr

definition arp_header_new ::
    "arp_operation \<Rightarrow> mac_address \<Rightarrow> ipv4_addr \<Rightarrow> mac_address \<Rightarrow> ipv4_addr \<Rightarrow> arp_header" where
  "arp_header_new oper local_link local_ip remote_link remote_ip = \<lparr>
     arp_operation = oper, arp_sender_hardware_addr = local_link,
     arp_sender_protocol_addr = local_ip, arp_target_hardware_addr = remote_link,
     arp_target_protocol_addr = remote_ip\<rparr>"

definition arp_parse :: "ext \<Rightarrow> bytes \<Rightarrow> arp_header res" where
  "arp_parse E buf =
     (if length buf < ARP_MESSAGE_SIZE then Err (Fail EBADMSG ''ARP message too short'')
      else
      let buf = bslice 0 ARP_MESSAGE_SIZE buf
      in if read_u16 E (bslice 0 2 buf) \<noteq> 1 then Err (Fail ENOTSUP ''unsupported HTYPE'')
      else if read_u16 E (bslice 2 4 buf) \<noteq> 0x800 then Err (Fail ENOTSUP ''unsupported PTYPE'')
      else if buf ! 4 \<noteq> 6 then Err (Fail ENOTSUP ''unsupported HLEN'')
      else if buf ! 5 \<noteq> 4 then Err (Fail ENOTSUP ''unsupported PLEN'')
      else (case arp_operation_from_u16 (read_u16 E (bslice 6 8 buf)) of
              None \<Rightarrow> Err (Fail ENOTSUP ''unsupported OPER'')
            | Some oper \<Rightarrow>
                Ok \<lparr>arp_operation = oper,
                    arp_sender_hardware_addr = bslice 8 14 buf,
                    arp_sender_protocol_addr = read_u32 E (bslice 14 18 buf),
                    arp_target_hardware_addr = bslice 18 24 buf,
                    arp_target_protocol_addr = read_u32 E (bslice 24 28 buf)\<rparr>))"

definition arp_serialize :: "ext \<Rightarrow> arp_header \<Rightarrow> bytes \<Rightarrow> bytes res" where
  "arp_serialize E h buf =
     (if length buf < ARP_MESSAGE_SIZE then Panic ''range end index out of range''
      else
        let buf = put 0 (write_u16 E 1) buf;
            buf = put 2 (write_u16 E 0x800) buf;
            buf = buf[4 := 6];
            buf = buf[5 := 4];
            buf = put 6 (write_u16 E (arp_operation_code (arp_operation h))) buf;
            buf = put 8 (arp_sender_hardware_addr h) buf;
            buf = put 14 (ipv4_octets (arp_sender_protocol_addr h)) buf;
            buf = put 18 (arp_target_hardware_addr h) buf;
            buf = put 24 (ipv4_octets (arp_target_protocol_addr h)) buf
        in Ok buf)"

record arp_message =
  am_ethernet2_hdr :: ethernet2_header
  am_header :: arp_header

definition arp_message_header_size :: "arp_message \<Rightarrow> nat" where
  "arp_message_header_size m = ethernet2_compute_size (am_ethernet2_hdr m) + ARP_MESSAGE_SIZE"

definition arp_message_write_header :: "ext \<Rightarrow> arp_message \<Rightarrow> bytes \<Rightarrow> bytes res" where
  "arp_message_write_header E m buf =
     (let eth_hdr_size = ethernet2_compute_size (am_ethernet2_hdr m);
          arp_pdu_size = ARP_MESSAGE_SIZE
      in res_bind (on_slice 0 eth_hdr_size (ethernet2_serialize E (am_ethernet2_hdr m)) buf)
           (on_slice eth_hdr_size (eth_hdr_size + arp_pdu_size) (arp_serialize E (am_header m))))"

section \<open>Properties\<close>

definition arp_wf :: "arp_header \<Rightarrow> bool" where
  "arp_wf h \<longleftrightarrow> length (arp_sender_hardware_addr h) = 6 \<and> length (arp_target_hardware_addr h) = 6"

lemma arp_operation_from_code [simp]:
  "arp_operation_from_u16 (arp_operation_code oper) = Some oper"
  by (cases oper) (simp_all add: arp_operation_from_u16_def)

lemma arp_parse_no_panic: "\<not> is_panic (arp_parse E buf)"
  by (simp add: arp_parse_def Let_def split: option.split)

text \<open>A message that is accepted has six-octet hardware addresses.\<close>

lemma arp_parse_wf: "arp_parse E buf = Ok h \<Longrightarrow> arp_wf h"
  by (auto simp: arp_parse_def arp_wf_def Let_def ARP_MESSAGE_SIZE_def
      split: if_splits option.splits)

context extern
begin

lemma arp_codec:
  assumes "arp_wf h" "length b = 28"
  shows "\<exists>bs. arp_serialize E h b = Ok bs \<and> length bs = 28 \<and> arp_parse E (bs @ p) = Ok h"
proof -
  obtain bs where bs: "arp_serialize E h b = Ok bs"
    using assms by (simp add: arp_serialize_def ARP_MESSAGE_SIZE_def Let_def)
  then have len: "length bs = 28"
    using assms by (auto simp: arp_serialize_def ARP_MESSAGE_SIZE_def arp_wf_def Let_def)
  then have "bslice 0 28 (bs @ p) = bs" by (simp add: bslice_def)
  moreover have "read_u16 E (bslice 0 2 bs) = 1" "read_u16 E (bslice 2 4 bs) = 0x800"
      "bs ! 4 = 6" "bs ! 5 = 4"
      "read_u16 E (bslice 6 8 bs) = arp_operation_code (arp_operation h)"
      "bslice 8 14 bs = arp_sender_hardware_addr h"
      "read_u32 E (bslice 14 18 bs) = arp_sender_protocol_addr h"
      "bslice 18 24 bs = arp_target_hardware_addr h"
      "read_u32 E (bslice 24 28 bs) = arp_target_protocol_addr h"
    using bs assms
    by (auto simp: arp_serialize_def ARP_MESSAGE_SIZE_def arp_wf_def Let_def wire_simps)
  ultimately show ?thesis
    using bs len by (simp add: arp_parse_def ARP_MESSAGE_SIZE_def Let_def)
qed

end

text \<open>
  A PDU has no payload; as a codec it hands the bytes that follow it on, which is how the
  Ethernet frame that contains it may be padded.
\<close>

definition arp_view :: "ext \<Rightarrow> bytes \<Rightarrow> (arp_header \<times> bytes) res" where
  "arp_view E buf = res_bind (arp_parse E buf) (\<lambda>h. Ok (h, drop ARP_MESSAGE_SIZE buf))"

sublocale extern \<subseteq> arp: wire_codec
  "\<lambda>_. 28" "\<lambda>h p b. arp_serialize E h b" "arp_view E" "\<lambda>h p. arp_wf h" "\<lambda>h p. h"
proof
  fix h :: arp_header and p b :: bytes
  assume "arp_wf h" "length b = 28"
  from arp_codec [OF this, of p]
  show "\<exists>bs. arp_serialize E h b = Ok bs \<and> length bs = 28 \<and> arp_view E (bs @ p) = Ok (h, p)"
    by (auto simp: arp_view_def ARP_MESSAGE_SIZE_def)
qed

sublocale extern \<subseteq> arp_frame: wire_stack
  "\<lambda>_. 14" "\<lambda>h p b. ethernet2_serialize E h b" "ethernet2_parse E" "\<lambda>h p. eth_wf h" "\<lambda>h p. h"
  "\<lambda>_. 28" "\<lambda>h p b. arp_serialize E h b" "arp_view E" "\<lambda>h p. arp_wf h" "\<lambda>h p. h"
  by unfold_locales

end
