(* ===== verification/Checksum.thy ===== *)
theory Checksum
  imports Extern
begin

text \<open>
  The Internet checksum as the sources compute it.  \<^verbatim>\<open>Ipv4Header::compute_checksum\<close>,
  \<^verbatim>\<open>tcp_checksum\<close>, \<^verbatim>\<open>UdpHeader::checksum\<close>, \<^verbatim>\<open>Icmpv4Header::checksum\<close> and
  \<^verbatim>\<open>Icmpv4Peer::make_id\<close> all add 16-bit words into a \<^verbatim>\<open>u32\<close> that starts at \<^verbatim>\<open>0xffff\<close>,
  reduce it by repeated subtraction, and complement.  The loops they share are here, with the
  reference they implement: one's complement addition with end-around carry (RFC 1071).
\<close>

text \<open>\<^verbatim>\<open>while state > 0xFFFF { state -= 0xFFFF; }\<close>\<close>

function fold_sum :: "u32 \<Rightarrow> u32" where
  "fold_sum state = (if state > 0xFFFF then fold_sum (state - 0xFFFF) else state)"
  by pat_completeness auto
termination
  by (relation "measure unat") (auto simp: unat_sub word_less_nat_alt word_le_nat_alt)

declare fold_sum.simps [simp del]

text \<open>\<^verbatim>\<open>!state as u16\<close>\<close>

definition finish_sum :: "u32 \<Rightarrow> u16" where
  "finish_sum state = ucast (NOT (fold_sum state))"

text \<open>The loop over \<^verbatim>\<open>chunks_exact(2)\<close>, and the padded last byte.\<close>

fun sum_chunks :: "ext \<Rightarrow> u32 \<Rightarrow> bytes \<Rightarrow> u32" where
  "sum_chunks E state (a # b # bs) = sum_chunks E (state + ucast (read_u16 E [a, b])) bs"
| "sum_chunks E state [b] = state + ucast (read_u16 E [b, 0])"
| "sum_chunks E state [] = state"

section \<open>What the loop computes\<close>

lemma unat_fold_sum: "0 < unat s \<Longrightarrow> unat (fold_sum s) = (unat s - 1) mod 65535 + 1"
proof (induction s rule: fold_sum.induct)
  case (1 s)
  show ?case
  proof (cases "s > 0xFFFF")
    case True
    then have big: "65535 < unat s" by (simp add: word_less_nat_alt)
    then have "unat (s - 0xFFFF) = unat s - 65535"
      by (simp add: unat_sub word_le_nat_alt)
    with "1.IH" [OF True] big
    have "unat (fold_sum (s - 0xFFFF)) = (unat s - 65535 - 1) mod 65535 + 1" by simp
    also have "(unat s - 65535 - 1) mod 65535 = (unat s - 1) mod 65535"
      using big by (simp add: le_mod_geq)
    finally show ?thesis using True by (simp add: fold_sum.simps [of s])
  next
    case False
    then have "unat s \<le> 65535" by (simp add: word_le_nat_alt not_less)
    with "1.prems" False show ?thesis by (simp add: fold_sum.simps [of s])
  qed
qed

lemma fold_sum_range: "0 < unat s \<Longrightarrow> 1 \<le> unat (fold_sum s) \<and> unat (fold_sum s) \<le> 65535"
  by (simp add: unat_fold_sum Suc_leI)

lemma unat_finish_sum:
  assumes "0 < unat s"
  shows "unat (finish_sum s) = 65534 - (unat s - 1) mod 65535"
proof -
  have le: "unat (fold_sum s) \<le> 65535" using fold_sum_range [OF assms] by simp
  have "NOT (fold_sum s) = - 1 - fold_sum s" by (simp add: not_eq_complement)
  then have "unat (NOT (fold_sum s)) = 4294967295 - unat (fold_sum s)"
    by (simp add: unat_sub unsigned_minus_1_eq_mask mask_eq_exp_minus_1)
  then have "unat (finish_sum s) = (4294967295 - unat (fold_sum s)) mod 65536"
    by (simp add: finish_sum_def unsigned_ucast_eq take_bit_eq_mod)
  also have "4294967295 - unat (fold_sum s) = (65535 - unat (fold_sum s)) + 65535 * 65536"
    using le by simp
  also have "\<dots> mod 65536 = 65535 - unat (fold_sum s)"
    by (simp only: mod_mult_self1) simp
  finally show ?thesis using unat_fold_sum [OF assms] by simp
qed

text \<open>The complement never is \<^verbatim>\<open>0xffff\<close>: the running sum starts above zero and stays there.\<close>

lemma finish_sum_not_ffff: "0 < unat s \<Longrightarrow> finish_sum s \<noteq> 0xFFFF"
  using unat_finish_sum [of s] by (auto simp: word_unat_eq_iff)

section \<open>The reference: one's complement addition\<close>

definition ones_add :: "nat \<Rightarrow> nat \<Rightarrow> nat" where
  "ones_add a b = (if a + b > 65535 then a + b - 65535 else a + b)"

definition rfc1071 :: "nat list \<Rightarrow> nat" where
  "rfc1071 ws = 65535 - foldl ones_add 0 ws"

definition sum_words :: "u16 list \<Rightarrow> nat" where
  "sum_words ws = sum_list (map unat ws)"

definition words_fit :: "u16 list \<Rightarrow> bool" where
  "words_fit ws \<longleftrightarrow> 65535 + sum_words ws < 2 ^ 32"

lemma unat_u16_le: "unat (w :: u16) \<le> 65535"
proof -
  have "unat w < 2 ^ LENGTH(16)" by (rule unsigned_less)
  then show ?thesis by simp
qed

lemma words_fit_length: "length ws \<le> 65535 \<Longrightarrow> words_fit ws"
proof -
  assume len: "length ws \<le> 65535"
  have "sum_words ws \<le> length ws * 65535"
    unfolding sum_words_def
  proof (induction ws)
    case (Cons w ws)
    with unat_u16_le [of w] show ?case by simp
  qed simp
  also have "\<dots> \<le> 65535 * 65535" using len by (intro mult_le_mono1)
  finally show ?thesis by (simp add: words_fit_def)
qed

lemma foldl_ones_add:
  assumes "1 \<le> s" "s \<le> 65535"
  shows "foldl ones_add s (map unat (ws :: u16 list)) = (s + sum_words ws - 1) mod 65535 + 1"
  using assms
proof (induction ws arbitrary: s)
  case Nil
  then show ?case by (simp add: sum_words_def)
next
  case (Cons w ws)
  let ?t = "ones_add s (unat w)"
  have t: "1 \<le> ?t" "?t \<le> 65535"
    using Cons.prems unat_u16_le [of w] by (auto simp: ones_add_def)
  have "(?t + sum_words ws - 1) mod 65535 = (s + unat w + sum_words ws - 1) mod 65535"
    using Cons.prems by (auto simp: ones_add_def le_mod_geq)
  with Cons.IH [OF t] show ?case by (simp add: sum_words_def add.assoc)
qed

lemma foldl_ones_add_zero:
  "foldl ones_add 0 (map unat (ws :: u16 list))
   = (if sum_words ws = 0 then 0 else (sum_words ws - 1) mod 65535 + 1)"
proof (induction ws)
  case Nil
  then show ?case by (simp add: sum_words_def)
next
  case (Cons w ws)
  show ?case
  proof (cases "unat w = 0")
    case True
    with Cons show ?thesis by (simp add: ones_add_def sum_words_def)
  next
    case False
    moreover have "ones_add 0 (unat w) = unat w"
      using unat_u16_le [of w] by (simp add: ones_add_def)
    ultimately show ?thesis
      using foldl_ones_add [of "unat w" ws] unat_u16_le [of w] by (simp add: sum_words_def)
  qed
qed

lemma sum_words_u32:
  "words_fit ws \<Longrightarrow> unat (0xFFFF + sum_list (map ucast ws) :: u32) = 65535 + sum_words ws"
proof -
  have eq: "(0xFFFF + sum_list (map ucast ws) :: u32) = of_nat (65535 + sum_words ws)"
    by (induction ws) (simp_all add: sum_words_def ac_simps)
  assume "words_fit ws"
  then show ?thesis unfolding eq words_fit_def
    by (simp add: unat_of_nat take_bit_nat_eq_self del: of_nat_add)
qed

text \<open>
  The reference and the loop agree except on a message of zeros, where the loop yields the other
  representation of zero because it starts from \<^verbatim>\<open>0xffff\<close>.
\<close>

lemma finish_sum_rfc1071:
  assumes "words_fit ws"
  shows "unat (finish_sum (0xFFFF + sum_list (map ucast ws)))
       = (if sum_words ws = 0 then 0 else rfc1071 (map unat ws))"
proof -
  have "unat (finish_sum (0xFFFF + sum_list (map ucast ws)))
      = 65534 - (65535 + sum_words ws - 1) mod 65535"
    using unat_finish_sum sum_words_u32 [OF assms] by simp
  then show ?thesis
    by (auto simp: rfc1071_def foldl_ones_add_zero le_mod_geq)
qed

section \<open>The words of a buffer\<close>

fun words16 :: "ext \<Rightarrow> bytes \<Rightarrow> u16 list" where
  "words16 E (a # b # bs) = read_u16 E [a, b] # words16 E bs"
| "words16 E [b] = [read_u16 E [b, 0]]"
| "words16 E [] = []"

lemma sum_chunks_words: "sum_chunks E s bs = s + sum_list (map ucast (words16 E bs))"
  by (induction E s bs rule: sum_chunks.induct) (simp_all add: ac_simps)

lemma length_words16: "length (words16 E bs) = (length bs + 1) div 2"
  by (induction E bs rule: words16.induct) simp_all

lemma same_residue_le:
  fixes a v w :: nat
  assumes "(a + v) mod 65535 = (a + w) mod 65535" "v < w" "w \<le> 65535"
  shows "v = 0 \<and> w = 65535"
proof -
  have "65535 dvd (a + w) - (a + v)"
    using assms(1,2) mod_eq_dvd_iff_nat [of "a + v" "a + w" 65535] by simp
  then have "65535 dvd w - v" by simp
  then have "65535 \<le> w - v" using assms(2) by (intro dvd_imp_le) simp_all
  with assms(2,3) show ?thesis by linarith
qed

lemma same_residue:
  fixes a v w :: nat
  assumes "(a + v) mod 65535 = (a + w) mod 65535" "v \<noteq> w" "v \<le> 65535" "w \<le> 65535"
  shows "(v = 0 \<and> w = 65535) \<or> (v = 65535 \<and> w = 0)"
  using assms same_residue_le [of a v w] same_residue_le [of a w v] by (cases "v < w") auto

text \<open>
  Replacing one word of a message changes the checksum, unless it swaps the two representations
  of zero.
\<close>

lemma finish_sum_detects:
  assumes "words_fit (xs @ v # ys)" "words_fit (xs @ w # ys)"
    and "v \<noteq> w" and "{v, w} \<noteq> {0, 0xFFFF}"
  shows "finish_sum (0xFFFF + sum_list (map ucast (xs @ v # ys)))
       \<noteq> finish_sum (0xFFFF + sum_list (map ucast (xs @ w # ys)))"
proof
  let ?c = "sum_words (xs @ ys)"
  have s: "sum_words (xs @ v # ys) = ?c + unat v" "sum_words (xs @ w # ys) = ?c + unat w"
    by (simp_all add: sum_words_def)
  assume "finish_sum (0xFFFF + sum_list (map ucast (xs @ v # ys)))
        = finish_sum (0xFFFF + sum_list (map ucast (xs @ w # ys)))"
  then have "65534 - (65535 + (?c + unat v) - 1) mod 65535
           = 65534 - (65535 + (?c + unat w) - 1) mod 65535"
    using unat_finish_sum [of "0xFFFF + sum_list (map ucast (xs @ v # ys))"]
      unat_finish_sum [of "0xFFFF + sum_list (map ucast (xs @ w # ys))"]
      sum_words_u32 [OF assms(1)] sum_words_u32 [OF assms(2)] s by (simp del: map_append)
  then have m: "(65534 + (?c + unat v)) mod 65535 = (65534 + (?c + unat w)) mod 65535"
    using mod_less_divisor [of 65535 "65534 + (?c + unat v)"]
      mod_less_divisor [of 65535 "65534 + (?c + unat w)"] by simp
  have "unat v \<noteq> unat w" using assms(3) by (simp add: word_unat_eq_iff)
  with same_residue [OF m [folded add.assoc]] unat_u16_le [of v] unat_u16_le [of w]
  have "(unat v = 0 \<and> unat w = 65535) \<or> (unat v = 65535 \<and> unat w = 0)" by blast
  then have "(v = 0 \<and> w = 0xFFFF) \<or> (v = 0xFFFF \<and> w = 0)"
    by (auto simp: word_unat_eq_iff)
  with assms(4) show False by auto
qed

end
