(* ===== verification/Ipv4_Header.thy ===== *)
theory Ipv4_Header
  imports Checksum
begin

text \<open>
  \<^verbatim>\<open>src/src/protocols/ip/protocol.rs\<close> and \<^verbatim>\<open>src/src/protocols/ipv4/datagram.rs\<close>: the
  IPv4 header, its validation on receipt, its serialisation and its checksum.
\<close>

datatype ip_protocol = ICMPv4 | TCP | UDP

fun ip_protocol_code :: "ip_protocol \<Rightarrow> u8" where
  "ip_protocol_code ICMPv4 = 0x01"
| "ip_protocol_code TCP = 0x06"
| "ip_protocol_code UDP = 0x11"

definition ip_protocol_try_from :: "u8 \<Rightarrow> ip_protocol res" where
  "ip_protocol_try_from n =
     (if n = 0x01 then Ok ICMPv4
      else if n = 0x06 then Ok TCP
      else if n = 0x11 then Ok UDP
      else Err (Fail ENOTSUP ''unsupported IPv4 protocol''))"

definition IPV4_HEADER_MIN_SIZE :: nat where
  "IPV4_HEADER_MIN_SIZE = 20"

record ipv4_header =
  ip_version :: u8
  ip_ihl :: u8
  ip_dscp :: u8
  ip_ecn :: u8
  ip_total_length :: u16
  ip_identification :: u16
  ip_flags :: u8
  ip_fragment_offset :: u16
  ip_ttl :: u8
  ip_proto :: ip_protocol
  ip_header_checksum :: u16
  ip_src_addr :: ipv4_addr
  ip_dst_addr :: ipv4_addr

definition ipv4_new :: "ipv4_addr \<Rightarrow> ipv4_addr \<Rightarrow> ip_protocol \<Rightarrow> ipv4_header" where
  "ipv4_new src_addr dst_addr proto = \<lparr>
     ip_version = 4, ip_ihl = 5, ip_dscp = 0, ip_ecn = 0, ip_total_length = 20,
     ip_identification = 0, ip_flags = 0x2, ip_fragment_offset = 0, ip_ttl = 255,
     ip_proto = proto, ip_header_checksum = 0, ip_src_addr = src_addr, ip_dst_addr = dst_addr\<rparr>"

definition ipv4_compute_size :: "ipv4_header \<Rightarrow> nat" where
  "ipv4_compute_size h = IPV4_HEADER_MIN_SIZE"

text \<open>The loop adds the \<open>i\<close>-th 16-bit word for every \<open>i\<close> of the list.\<close>

fun add_words :: "ext \<Rightarrow> bytes \<Rightarrow> u32 \<Rightarrow> nat list \<Rightarrow> u32" where
  "add_words E buf state [] = state"
| "add_words E buf state (i # is) =
     add_words E buf (state + ucast (read_u16 E (bslice (2 * i) (2 * i + 2) buf))) is"

definition ipv4_compute_checksum :: "ext \<Rightarrow> bytes \<Rightarrow> u16 res" where
  "ipv4_compute_checksum E buf =
     (if length buf \<noteq> IPV4_HEADER_MIN_SIZE then Panic ''Invalid header size''
      else
        let state = 0xFFFF;
            state = add_words E buf state [0..<5];
            state = add_words E buf state [6..<10]
        in Ok (finish_sum state))"

text \<open>
  The pseudo header that \<^verbatim>\<open>tcp_checksum\<close> and \<^verbatim>\<open>UdpHeader::checksum\<close> both fold in first: the two
  addresses and the protocol number.
\<close>

definition add_pseudo_header :: "ext \<Rightarrow> ipv4_header \<Rightarrow> ip_protocol \<Rightarrow> u32 \<Rightarrow> u32" where
  "add_pseudo_header E ip proto state =
     (let src_octets = ipv4_octets (ip_src_addr ip);
          state = state + ucast (read_u16 E (bslice 0 2 src_octets));
          state = state + ucast (read_u16 E (bslice 2 4 src_octets));
          dst_octets = ipv4_octets (ip_dst_addr ip);
          state = state + ucast (read_u16 E (bslice 0 2 dst_octets));
          state = state + ucast (read_u16 E (bslice 2 4 dst_octets))
      in state + ucast (read_u16 E [0, ip_protocol_code proto]))"

definition ipv4_parse :: "ext \<Rightarrow> bytes \<Rightarrow> (ipv4_header \<times> bytes) res" where
  "ipv4_parse E buf =
     (if length buf < IPV4_HEADER_MIN_SIZE then Err (Fail EBADMSG ''ipv4 datagram too small'')
      else
      let hdr_buf = bslice 0 IPV4_HEADER_MIN_SIZE buf;
          version = drop_bit 4 (hdr_buf ! 0)
      in if version \<noteq> 4 then Err (Fail ENOTSUP ''unsupported IP version'')
      else
      let ihl = hdr_buf ! 0 AND 0xF
      in if ihl < 5 then Err (Fail EBADMSG ''IPv4 IHL is too small'')
      else if ihl > 5 then Err (Fail ENOTSUP ''ipv4 options are not supported'')
      else
      let dscp = drop_bit 2 (hdr_buf ! 1);
          ecn = hdr_buf ! 1 AND 3;
          total_length = read_u16 E (bslice 2 4 hdr_buf)
      in if total_length < 20 then Err (Fail EBADMSG ''ipv4 datagram too small'')
      else if unat total_length > length buf
           then Err (Fail EBADMSG ''ipv4 datagram size mismatch'')
      else
      let identification = read_u16 E (bslice 4 6 hdr_buf);
          flags = drop_bit 5 (hdr_buf ! 6)
      in if flags AND 0x4 \<noteq> 0 then Err (Fail EBADMSG ''ipv4 datagram is marked as evil'')
      else if flags AND 0x1 \<noteq> 0 then Err (Fail ENOTSUP ''ipv4 fragmentation is not supported'')
      else
      let fragment_offset = read_u16 E (bslice 6 8 hdr_buf) AND 0x1fff
      in if fragment_offset \<noteq> 0 then Err (Fail ENOTSUP ''ipv4 fragmentation is not supported'')
      else
      let time_to_live = hdr_buf ! 8
      in if time_to_live = 0 then Err (Fail EBADMSG ''ipv4 datagram too old'')
      else
      res_bind (ip_protocol_try_from (hdr_buf ! 9)) (\<lambda>proto.
      let header_checksum = read_u16 E (bslice 10 12 hdr_buf)
      in if header_checksum = 0xffff then Err (Fail EBADMSG ''ipv4 checksum invalid'')
      else
      res_bind (ipv4_compute_checksum E hdr_buf) (\<lambda>sum.
      if header_checksum \<noteq> sum then Err (Fail EBADMSG ''ipv4 checksum mismatch'')
      else
      let src_addr = read_u32 E (bslice 12 16 hdr_buf);
          dst_addr = read_u32 E (bslice 16 20 hdr_buf);
          padding_bytes = length buf - unat total_length;
          buf = buf_adjust E buf IPV4_HEADER_MIN_SIZE;
          buf = buf_trim E buf padding_bytes
      in Ok (\<lparr>ip_version = version, ip_ihl = ihl, ip_dscp = dscp, ip_ecn = ecn,
              ip_total_length = total_length, ip_identification = identification,
              ip_flags = flags, ip_fragment_offset = fragment_offset, ip_ttl = time_to_live,
              ip_proto = proto, ip_header_checksum = header_checksum,
              ip_src_addr = src_addr, ip_dst_addr = dst_addr\<rparr>, buf))))"

definition ipv4_serialize :: "ext \<Rightarrow> ipv4_header \<Rightarrow> bytes \<Rightarrow> nat \<Rightarrow> bytes res" where
  "ipv4_serialize E h buf payload_len =
     (if length buf \<noteq> IPV4_HEADER_MIN_SIZE then Panic ''buffer to small''
      else
        let buf = buf[0 := push_bit 4 (ip_version h) OR ip_ihl h];
            buf = buf[1 := push_bit 2 (ip_dscp h) OR (ip_ecn h AND 3)];
            buf = put 2 (write_u16 E (20 + of_nat payload_len)) buf;
            buf = put 4 (write_u16 E (ip_identification h)) buf;
            buf = put 6 (write_u16 E
                    (push_bit 13 (ucast (ip_flags h)) OR (ip_fragment_offset h AND 0x1fff))) buf;
            buf = buf[8 := ip_ttl h];
            buf = buf[9 := ip_protocol_code (ip_proto h)];
            buf = put 12 (ipv4_octets (ip_src_addr h)) buf;
            buf = put 16 (ipv4_octets (ip_dst_addr h)) buf
        in res_bind (ipv4_compute_checksum E buf) (\<lambda>checksum.
             Ok (put 10 (write_u16 E checksum) buf)))"

section \<open>The header checksum\<close>

text \<open>The nine words the checksum covers: all of the header but the checksum itself.\<close>

definition ipv4_words :: "ext \<Rightarrow> bytes \<Rightarrow> u16 list" where
  "ipv4_words E buf = map (\<lambda>i. read_u16 E (bslice (2 * i) (2 * i + 2) buf)) ([0..<5] @ [6..<10])"

lemma add_words_sum:
  "add_words E buf s is = s + sum_list (map ucast (map (\<lambda>i. read_u16 E (bslice (2 * i) (2 * i + 2) buf)) is))"
  by (induction "is" arbitrary: s) (simp_all add: ac_simps)

lemma ipv4_compute_checksum_words:
  "length buf = 20 \<Longrightarrow> ipv4_compute_checksum E buf
     = Ok (finish_sum (0xFFFF + sum_list (map ucast (ipv4_words E buf))))"
  by (simp add: ipv4_compute_checksum_def IPV4_HEADER_MIN_SIZE_def add_words_sum ipv4_words_def
      ac_simps del: upt.simps upt_rec_numeral)

lemma ipv4_words_fit: "words_fit (ipv4_words E buf)"
  by (rule words_fit_length) (simp add: ipv4_words_def)

lemma ipv4_words_put_sum:
  assumes "length bs = 2" "length buf = 20"
  shows "ipv4_words E (put 10 bs buf) = ipv4_words E buf"
  using assms unfolding ipv4_words_def by (auto simp: bslice_put_before bslice_put_after simp del: upt_rec_numeral)

lemma compute_checksum_put_sum:
  assumes "length bs = 2" "length buf = 20"
  shows "ipv4_compute_checksum E (put 10 bs buf) = ipv4_compute_checksum E buf"
  using assms by (simp add: ipv4_compute_checksum_words ipv4_words_put_sum)

definition ipv4_wf :: "ipv4_header \<Rightarrow> bytes \<Rightarrow> bool" where
  "ipv4_wf h p \<longleftrightarrow> ip_version h = 4 \<and> ip_ihl h = 5 \<and> ip_dscp h < 64 \<and> ip_ecn h < 4 \<and>
     (ip_flags h = 0 \<or> ip_flags h = 2) \<and> ip_fragment_offset h = 0 \<and> ip_ttl h \<noteq> 0 \<and>
     length p < 2 ^ 16 - 20"

lemma dscp_ecn: 
  assumes "d < 64" "e < (4 :: u8)"
  shows "drop_bit 2 (push_bit 2 d OR (e AND 3)) = d" "(push_bit 2 d OR (e AND 3)) AND 3 = e"
proof -
  have m: "(3::u8) = mask 2" by (simp add: mask_eq_exp_minus_1)
  have "\<not> bit d n" if "6 \<le> n" for n
    using assms(1) that by (intro bit_above_bound [of d 6]) (simp_all add: word_less_nat_alt)
  then show "drop_bit 2 (push_bit 2 d OR (e AND 3)) = d"
    unfolding m by (intro bit_word_eqI) (auto simp: bit_simps not_le [symmetric])
  have "\<not> bit e n" if "2 \<le> n" for n
    using assms(2) that by (intro bit_above_bound [of e 2]) (simp_all add: word_less_nat_alt)
  then show "(push_bit 2 d OR (e AND 3)) AND 3 = e"
    unfolding m by (intro bit_word_eqI) (auto simp: bit_simps not_le [symmetric])
qed

lemma ip_try_from_code [simp]: "ip_protocol_try_from (ip_protocol_code t) = Ok t"
  by (cases t) (simp_all add: ip_protocol_try_from_def)

context extern
begin

lemma ipv4_codec:
  assumes wf: "ipv4_wf h p" and len: "length b = 20"
  shows "\<exists>bs c. ipv4_serialize E h b (length p) = Ok bs \<and> length bs = 20 \<and>
     ipv4_parse E (bs @ p) = Ok (h\<lparr>ip_total_length := 20 + of_nat (length p), ip_header_checksum := c\<rparr>, p)"
proof -
  let ?B = "put 16 (ipv4_octets (ip_dst_addr h)) (put 12 (ipv4_octets (ip_src_addr h))
     ((put 6 (write_u16 E (push_bit 13 (ucast (ip_flags h)) OR (ip_fragment_offset h AND 0x1fff)))
       (put 4 (write_u16 E (ip_identification h)) (put 2 (write_u16 E (20 + of_nat (length p)))
        (b[0 := push_bit 4 (ip_version h) OR ip_ihl h, 1 := push_bit 2 (ip_dscp h) OR (ip_ecn h AND 3)]))))
      [8 := ip_ttl h, 9 := ip_protocol_code (ip_proto h)]))"
  have l: "length ?B = 20" using len by simp
  obtain c where c: "ipv4_compute_checksum E ?B = Ok c" "c \<noteq> 0xFFFF"
    using l by (simp add: ipv4_compute_checksum_words finish_sum_not_ffff sum_words_u32 ipv4_words_fit del: length_put)
  let ?bs = "put 10 (write_u16 E c) ?B"
  have s: "ipv4_serialize E h b (length p) = Ok ?bs"
    using c len by (simp add: ipv4_serialize_def IPV4_HEADER_MIN_SIZE_def Let_def)
  have lb: "length ?bs = 20" using l by simp
  have hdr: "bslice 0 20 (?bs @ p) = ?bs" using lb by (simp add: bslice_def del: length_put)
  have sum: "ipv4_compute_checksum E ?bs = Ok c"
    using c(1) l by (simp add: compute_checksum_put_sum del: length_put)
  have b0: "?bs ! 0 = push_bit 4 4 OR 5"
    using len wf by (simp add: wire_simps ipv4_wf_def)
  have b1: "?bs ! 1 = push_bit 2 (ip_dscp h) OR (ip_ecn h AND 3)"
    using len by (simp add: wire_simps )
  note b1' = b1 dscp_ecn [of "ip_dscp h" "ip_ecn h"]
  have b6: "?bs ! 6 = push_bit 5 (ip_flags h)"
    using len wf by (auto simp: wire_simps ipv4_wf_def write_u16_be to_be_bytes16_def)
  have w6: "read_u16 E (bslice 6 8 ?bs) AND 0x1fff = 0"
    using len wf by (auto simp: wire_simps ipv4_wf_def)
  have b8: "?bs ! 8 = ip_ttl h" using len by (simp add: wire_simps)
  have b9: "?bs ! 9 = ip_protocol_code (ip_proto h)" using len by (simp add: wire_simps)
  have w10: "read_u16 E (bslice 10 12 ?bs) = c" using len by (simp add: wire_simps)
  have w12: "read_u32 E (bslice 12 16 ?bs) = ip_src_addr h" using len by (simp add: wire_simps)
  have w16: "read_u32 E (bslice 16 20 ?bs) = ip_dst_addr h" using len by (simp add: wire_simps)
  have w2: "read_u16 E (bslice 2 4 ?bs) = 20 + of_nat (length p)"
    using len by (simp add: wire_simps)
  have w4: "read_u16 E (bslice 4 6 ?bs) = ip_identification h"
    using len by (simp add: wire_simps)
  have tl: "unat (20 + of_nat (length p) :: u16) = 20 + length p"
    using wf by (simp add: unat_word_ariths unat_of_nat take_bit_nat_eq_self ipv4_wf_def)
  have adj: "buf_adjust E (?bs @ p) 20 = p" using lb by (simp add: adjust_drop del: length_put)
  have "ipv4_parse E (?bs @ p)
      = Ok (h\<lparr>ip_total_length := 20 + of_nat (length p), ip_header_checksum := c\<rparr>, p)"
    using wf  dscp_ecn [of "ip_dscp h" "ip_ecn h"] unfolding ipv4_parse_def IPV4_HEADER_MIN_SIZE_def Let_def hdr sum b0 b1 b6 b8 b9 w2 w4 w6 w10 w12 w16 length_append lb adj
    by (auto simp add: tl ipv4_wf_def adjust_drop trim_take lb c(2) word_less_nat_alt intro!: ipv4_header.equality simp del: length_put) 
  then show ?thesis using s lb by blast
qed
end

text \<open>The checksum is computed by the serialiser, so the header that comes back is the one that
  went in up to that field and the length; \<open>ipv4_view\<close> clears the former.\<close>

definition ipv4_view :: "(ipv4_header \<times> bytes) res \<Rightarrow> (ipv4_header \<times> bytes) res" where
  "ipv4_view r = res_bind r (\<lambda>(h, p). Ok (h\<lparr>ip_header_checksum := 0\<rparr>, p))"

definition ipv4_norm :: "ipv4_header \<Rightarrow> bytes \<Rightarrow> ipv4_header" where
  "ipv4_norm h p = h\<lparr>ip_total_length := 20 + of_nat (length p), ip_header_checksum := 0\<rparr>"

sublocale extern \<subseteq> ipv4: wire_codec
  "\<lambda>_. 20" "\<lambda>h p b. ipv4_serialize E h b (length p)" "\<lambda>b. ipv4_view (ipv4_parse E b)"
  ipv4_wf ipv4_norm
proof
  fix h p and b :: bytes
  assume "ipv4_wf h p" "length b = 20"
  from ipv4_codec [OF this] show "\<exists>bs. ipv4_serialize E h b (length p) = Ok bs \<and> length bs = 20 \<and>
      ipv4_view (ipv4_parse E (bs @ p)) = Ok (ipv4_norm h p, p)"
    by (auto simp: ipv4_view_def ipv4_norm_def)
qed

section \<open>What the parser accepts\<close>

lemma ip_try_from_no_panic [simp]: "\<not> is_panic (ip_protocol_try_from n)"
  by (simp add: ip_protocol_try_from_def)

lemma ipv4_parse_no_panic: "\<not> is_panic (ipv4_parse E buf)"
  by (auto simp: ipv4_parse_def is_panic_bind Let_def ipv4_compute_checksum_def
      IPV4_HEADER_MIN_SIZE_def)

lemma ip_try_from_Ok: "ip_protocol_try_from n = Ok t \<Longrightarrow> ip_protocol_code t = n"
  by (auto simp: ip_protocol_try_from_def split: if_splits)

text \<open>A datagram that is accepted carries the checksum of its own header.\<close>

lemma ipv4_parse_checksum:
  assumes "ipv4_parse E buf = Ok (h, p)"
  shows "20 \<le> length buf"
    and "read_u16 E (bslice 10 12 buf)
       = finish_sum (0xFFFF + sum_list (map ucast (ipv4_words E (bslice 0 20 buf))))"
proof -
  show len: "20 \<le> length buf"
    using assms by (auto simp: ipv4_parse_def IPV4_HEADER_MIN_SIZE_def split: if_splits)
  then have "length (bslice 0 20 buf) = 20" by simp
  note sum = ipv4_compute_checksum_words [OF this]
  show "read_u16 E (bslice 10 12 buf)
      = finish_sum (0xFFFF + sum_list (map ucast (ipv4_words E (bslice 0 20 buf))))"
    using assms
    by (auto simp: ipv4_parse_def IPV4_HEADER_MIN_SIZE_def Let_def sum res_bind_Ok_iff bslice_slice
        split: if_splits)
qed

end
