(* ===== verification/Udp_Header.thy ===== *)
theory Udp_Header
  imports Ipv4_Header Ethernet2
begin

text \<open>
  \<^verbatim>\<open>src/src/protocols/udp/datagram/\<close>: the UDP header with its checksum over the pseudo header,
  and the datagram that the stack transmits.
\<close>

definition UDP_HEADER_SIZE :: nat where
  "UDP_HEADER_SIZE = 8"

record udp_header =
  udp_src_port :: u16
  udp_dest_port :: u16

definition udp_header_new :: "u16 \<Rightarrow> u16 \<Rightarrow> udp_header" where
  "udp_header_new src dst = \<lparr>udp_src_port = src, udp_dest_port = dst\<rparr>"

definition udp_checksum :: "ext \<Rightarrow> ipv4_header \<Rightarrow> bytes \<Rightarrow> bytes \<Rightarrow> u16 res" where
  "udp_checksum E ip udp_hdr data =
     (let state = add_pseudo_header E ip UDP 0xFFFF;
          state = state + of_nat (length udp_hdr + length data)
      in if length udp_hdr \<noteq> UDP_HEADER_SIZE then Panic ''called `Result::unwrap()`''
      else
      let state = state + ucast (read_u16 E (bslice 0 2 udp_hdr));
          state = state + ucast (read_u16 E (bslice 2 4 udp_hdr));
          state = state + ucast (read_u16 E (bslice 4 6 udp_hdr));
          state = sum_chunks E state data
      in Ok (finish_sum state))"

definition udp_parse_from_slice ::
    "ext \<Rightarrow> ipv4_header \<Rightarrow> bytes \<Rightarrow> bool \<Rightarrow> (udp_header \<times> bytes) res" where
  "udp_parse_from_slice E ip buf checksum_offload =
     (if length buf < UDP_HEADER_SIZE then Err (Fail EBADMSG ''UDP segment too small'')
      else
      let hdr_buf = bslice 0 UDP_HEADER_SIZE buf;
          src_port = read_u16 E (bslice 0 2 hdr_buf);
          dest_port = read_u16 E (bslice 2 4 hdr_buf);
          len = unat (read_u16 E (bslice 4 6 hdr_buf))
      in if len \<noteq> length buf then Err (Fail EBADMSG ''UDP length mismatch'')
      else
      let result = Ok (udp_header_new src_port dest_port, drop UDP_HEADER_SIZE buf)
      in if \<not> checksum_offload then
           (let payload_buf = drop UDP_HEADER_SIZE buf;
                checksum = read_u16 E (bslice 6 8 hdr_buf)
            in res_bind (udp_checksum E ip hdr_buf payload_buf) (\<lambda>c.
                 if checksum \<noteq> c then Err (Fail EBADMSG ''UDP checksum mismatch'') else result))
         else result)"

definition udp_parse :: "ext \<Rightarrow> ipv4_header \<Rightarrow> bytes \<Rightarrow> bool \<Rightarrow> (udp_header \<times> bytes) res" where
  "udp_parse E ip buf checksum_offload =
     (case udp_parse_from_slice E ip buf checksum_offload of
        Ok (udp_hdr, bytes) \<Rightarrow> Ok (udp_hdr, bytes)
      | Err e \<Rightarrow> Err e
      | Panic s \<Rightarrow> Panic s)"

definition udp_serialize ::
    "ext \<Rightarrow> udp_header \<Rightarrow> bytes \<Rightarrow> ipv4_header \<Rightarrow> bytes \<Rightarrow> bool \<Rightarrow> bytes res" where
  "udp_serialize E h buf ip data checksum_offload =
     (if length buf < UDP_HEADER_SIZE then Panic ''range end index out of range''
      else
      let buf = put 0 (write_u16 E (udp_src_port h)) buf;
          buf = put 2 (write_u16 E (udp_dest_port h)) buf;
          buf = put 4 (write_u16 E (of_nat (UDP_HEADER_SIZE + length data))) buf
      in res_bind (if checksum_offload then Ok 0
                   else udp_checksum E ip (bslice 0 UDP_HEADER_SIZE buf) data) (\<lambda>checksum.
           Ok (put 6 (write_u16 E checksum) buf)))"

record udp_datagram =
  ud_ethernet2_hdr :: ethernet2_header
  ud_ipv4_hdr :: ipv4_header
  ud_udp_hdr :: udp_header
  ud_data :: bytes
  ud_checksum_offload :: bool

definition udp_datagram_header_size :: "udp_datagram \<Rightarrow> nat" where
  "udp_datagram_header_size d =
     ethernet2_compute_size (ud_ethernet2_hdr d) + ipv4_compute_size (ud_ipv4_hdr d) + UDP_HEADER_SIZE"

definition udp_datagram_write_header :: "ext \<Rightarrow> udp_datagram \<Rightarrow> bytes \<Rightarrow> bytes res" where
  "udp_datagram_write_header E d buf =
     (let eth_hdr_size = ethernet2_compute_size (ud_ethernet2_hdr d);
          udp_hdr_size = UDP_HEADER_SIZE;
          ipv4_payload_len = udp_hdr_size + length (ud_data d);
          ipv4_hdr_size = ipv4_compute_size (ud_ipv4_hdr d)
      in res_bind (on_slice 0 eth_hdr_size (ethernet2_serialize E (ud_ethernet2_hdr d)) buf) (\<lambda>buf.
         res_bind (on_slice eth_hdr_size (eth_hdr_size + ipv4_hdr_size)
                    (\<lambda>b. ipv4_serialize E (ud_ipv4_hdr d) b ipv4_payload_len) buf)
           (on_slice (eth_hdr_size + ipv4_hdr_size) (eth_hdr_size + ipv4_hdr_size + udp_hdr_size)
              (\<lambda>b. udp_serialize E (ud_udp_hdr d) b (ud_ipv4_hdr d) (ud_data d)
                     (ud_checksum_offload d)))))"

section \<open>Properties\<close>

lemma udp_parse_no_panic: "\<not> is_panic (udp_parse E ip buf off)"
proof -
  have "\<not> is_panic (udp_parse_from_slice E ip buf off)"
    by (auto simp: udp_parse_from_slice_def is_panic_bind Let_def udp_checksum_def UDP_HEADER_SIZE_def)
  then show ?thesis by (auto simp: udp_parse_def split: res.split)
qed

lemma udp_parse_eq: "udp_parse E ip buf off = udp_parse_from_slice E ip buf off"
  by (auto simp: udp_parse_def split: res.split)

text \<open>The checksum does not look at its own field.\<close>

lemma udp_checksum_put:
  assumes "length bs = 2" "length hdr = 8"
  shows "udp_checksum E ip (put 6 bs hdr) data = udp_checksum E ip hdr data"
  using assms by (simp add: udp_checksum_def wire_simps)

lemma udp_checksum_total: "length hdr = 8 \<Longrightarrow> \<exists>c. udp_checksum E ip hdr data = Ok c"
  by (simp add: udp_checksum_def UDP_HEADER_SIZE_def Let_def)

context extern
begin

text \<open>
  What the receiver does depends on \<^verbatim>\<open>rx\<close>, what the sender writes on \<^verbatim>\<open>tx\<close>: only the pair of a
  sender that offloads and a receiver that does not is lost.
\<close>

lemma udp_codec:
  assumes p: "length p < 2 ^ 16 - 8" and off: "tx \<longrightarrow> rx" and b: "length b = 8"
  shows "\<exists>bs. udp_serialize E h b ip p tx = Ok bs \<and> length bs = 8 \<and>
              udp_parse E ip (bs @ p) rx = Ok (h, p)"
proof -
  let ?B = "put 4 (write_u16 E (of_nat (8 + length p))) (put 2 (write_u16 E (udp_dest_port h))
              (put 0 (write_u16 E (udp_src_port h)) b))"
  have l: "length ?B = 8" using b by simp
  obtain s where s: "udp_checksum E ip ?B p = Ok s" using udp_checksum_total [OF l] by blast
  define c where "c = (if tx then 0 else s)"
  let ?bs = "put 6 (write_u16 E c) ?B"
  have ser: "udp_serialize E h b ip p tx = Ok ?bs"
    using b s l by (simp add: udp_serialize_def UDP_HEADER_SIZE_def Let_def c_def wire_simps del: of_nat_add length_put)
  have lb: "length ?bs = 8" using b by simp
  then have hdr: "bslice 0 8 (?bs @ p) = ?bs" "drop 8 (?bs @ p) = p" by (simp_all add: bslice_def del: length_put)
  have sum: "udp_checksum E ip ?bs p = Ok s" using s l by (simp add: udp_checksum_put del: length_put)
  have len: "unat (of_nat (8 + length p) :: u16) = 8 + length p"
    using p by (simp add: unat_of_nat take_bit_nat_eq_self del: of_nat_add)
  have w: "read_u16 E (bslice 0 2 ?bs) = udp_src_port h" "read_u16 E (bslice 2 4 ?bs) = udp_dest_port h"
      "unat (read_u16 E (bslice 4 6 ?bs)) = 8 + length p" "read_u16 E (bslice 6 8 ?bs) = c"
    using b len by (simp_all add: wire_simps del: of_nat_add)
  have "udp_parse E ip (?bs @ p) rx = Ok (h, p)"
    unfolding udp_parse_eq udp_parse_from_slice_def UDP_HEADER_SIZE_def Let_def hdr w sum length_append lb
    using off by (simp add: c_def udp_header_new_def)
  with ser lb show ?thesis by blast
qed

end

sublocale extern \<subseteq> udp: wire_codec
  "\<lambda>_. 8" "\<lambda>h p b. udp_serialize E h b ip p tx" "\<lambda>b. udp_parse E ip b (tx \<or> rx)"
  "\<lambda>h p. length p < 2 ^ 16 - 8" "\<lambda>h p. h" for ip tx rx
  by unfold_locales (rule udp_codec, auto)

text \<open>The datagram inside its IPv4 packet and Ethernet frame.\<close>

lemma udp_parse_addrs:
  assumes "ip_src_addr ip = ip_src_addr ip'" "ip_dst_addr ip = ip_dst_addr ip'"
  shows "udp_parse E ip buf off = udp_parse E ip' buf off"
proof -
  have "udp_checksum E ip = udp_checksum E ip'"
    using assms by (intro HOL.ext) (simp add: udp_checksum_def add_pseudo_header_def)
  then show ?thesis unfolding udp_parse_def udp_parse_from_slice_def by (simp only:)
qed

definition udp_datagram_wf :: "udp_datagram \<Rightarrow> bool" where
  "udp_datagram_wf d \<longleftrightarrow> eth_wf (ud_ethernet2_hdr d) \<and> ipv4_wf (ud_ipv4_hdr d) [] \<and>
     length (ud_data d) < 2 ^ 16 - 28"

context extern
begin

lemma udp_datagram_roundtrip:
  assumes wf: "udp_datagram_wf d" and b: "length b = udp_datagram_header_size d"
    and off: "ud_checksum_offload d \<longrightarrow> rx"
  shows "\<exists>bs q ip' t. udp_datagram_write_header E d b = Ok bs \<and>
     ethernet2_parse E (bs @ ud_data d) = Ok (ud_ethernet2_hdr d, q) \<and>
     ipv4_parse E q = Ok (ip', t) \<and>
     ip_src_addr ip' = ip_src_addr (ud_ipv4_hdr d) \<and> ip_dst_addr ip' = ip_dst_addr (ud_ipv4_hdr d) \<and>
     ip_proto ip' = ip_proto (ud_ipv4_hdr d) \<and>
     udp_parse E ip' t rx = Ok (ud_udp_hdr d, ud_data d)"
proof -
  have len: "length b = 14 + 20 + 8"
    using b by (simp add: udp_datagram_header_size_def ethernet2_compute_size_def ipv4_compute_size_def
        ETHERNET2_HEADER_SIZE_def IPV4_HEADER_MIN_SIZE_def UDP_HEADER_SIZE_def)
  have small: "length (ud_data d) < 2 ^ 16 - 8" using wf by (simp add: udp_datagram_wf_def)
  obtain x where x: "udp_serialize E (ud_udp_hdr d) (bslice (14 + 20) (14 + 20 + 8) b) (ud_ipv4_hdr d)
      (ud_data d) (ud_checksum_offload d) = Ok x" "length x = 8"
    "udp_parse E (ud_ipv4_hdr d) (x @ ud_data d) rx = Ok (ud_udp_hdr d, ud_data d)"
    using udp_codec [OF small off, of "bslice (14 + 20) (14 + 20 + 8) b" "ud_udp_hdr d" "ud_ipv4_hdr d"] len by auto
  have "ipv4_wf (ud_ipv4_hdr d) (x @ ud_data d)"
    using wf x(2) by (simp add: udp_datagram_wf_def ipv4_wf_def)
  from ipv4_codec [OF this, of "bslice 14 (14 + 20) b"] len x(2) obtain y c where
    y: "ipv4_serialize E (ud_ipv4_hdr d) (bslice 14 (14 + 20) b) (8 + length (ud_data d)) = Ok y" "length y = 20"
    "ipv4_parse E (y @ x @ ud_data d) = Ok ((ud_ipv4_hdr d)\<lparr>ip_total_length := 20 + of_nat (length (x @ ud_data d)),
       ip_header_checksum := c\<rparr>, x @ ud_data d)"
    by auto
  obtain z where z: "ethernet2_serialize E (ud_ethernet2_hdr d) (bslice 0 14 b) = Ok z" "length z = 14"
    "ethernet2_parse E (z @ y @ x @ ud_data d) = Ok (ud_ethernet2_hdr d, y @ x @ ud_data d)"
    using ethernet2_codec [of "ud_ethernet2_hdr d" "bslice 0 14 b" "y @ x @ ud_data d"] wf len
    by (auto simp: udp_datagram_wf_def)
  have "udp_datagram_write_header E d b = Ok (z @ y @ x)"
    unfolding udp_datagram_write_header_def ethernet2_compute_size_def ipv4_compute_size_def
      ETHERNET2_HEADER_SIZE_def IPV4_HEADER_MIN_SIZE_def UDP_HEADER_SIZE_def Let_def
    by (rule on_slice_fill3) (use len x y z in simp_all)
  then show ?thesis
    using z(3) y(3) x(3) by (fastforce intro: udp_parse_addrs [THEN trans])
qed

end

end
