(* ===== verification/Icmpv4_Header.thy ===== *)
theory Icmpv4_Header
  imports Ipv4_Header Ethernet2
begin

text \<open>
  \<^verbatim>\<open>src/src/protocols/icmpv4/datagram/\<close>: the ICMPv4 message types, the header with its
  checksum, and the message that the stack transmits.
\<close>

datatype icmpv4_type2 =
    EchoReply u16 u16
  | DestinationUnreachable
  | SourceQuench
  | RedirectMessage
  | EchoRequest u16 u16
  | RouterAdvertisement
  | RouterSolicitation
  | TimeExceeded
  | BadIpHeader
  | IcmpTimestamp
  | TimestampReply

definition icmpv4_type_parse :: "ext \<Rightarrow> u8 \<Rightarrow> bytes \<Rightarrow> icmpv4_type2 res" where
  "icmpv4_type_parse E type_byte rest_of_header =
     (if type_byte = 0 then
        Ok (EchoReply (read_u16 E (bslice 0 2 rest_of_header)) (read_u16 E (bslice 2 4 rest_of_header)))
      else if type_byte = 3 then Ok DestinationUnreachable
      else if type_byte = 4 then Ok SourceQuench
      else if type_byte = 5 then Ok RedirectMessage
      else if type_byte = 8 then
        Ok (EchoRequest (read_u16 E (bslice 0 2 rest_of_header)) (read_u16 E (bslice 2 4 rest_of_header)))
      else if type_byte = 9 then Ok RouterAdvertisement
      else if type_byte = 10 then Ok RouterSolicitation
      else if type_byte = 11 then Ok TimeExceeded
      else if type_byte = 12 then Ok BadIpHeader
      else if type_byte = 13 then Ok IcmpTimestamp
      else if type_byte = 14 then Ok TimestampReply
      else Err (Fail EBADMSG ''invalid type byte''))"

fun icmpv4_type_serialize :: "icmpv4_type2 \<Rightarrow> u8 \<times> bytes" where
  "icmpv4_type_serialize (EchoReply ident seq_num) = (0, to_be_bytes16 ident @ to_be_bytes16 seq_num)"
| "icmpv4_type_serialize DestinationUnreachable = (3, replicate 4 0)"
| "icmpv4_type_serialize SourceQuench = (4, replicate 4 0)"
| "icmpv4_type_serialize RedirectMessage = (5, replicate 4 0)"
| "icmpv4_type_serialize (EchoRequest ident seq_num) = (8, to_be_bytes16 ident @ to_be_bytes16 seq_num)"
| "icmpv4_type_serialize RouterAdvertisement = (9, replicate 4 0)"
| "icmpv4_type_serialize RouterSolicitation = (10, replicate 4 0)"
| "icmpv4_type_serialize TimeExceeded = (11, replicate 4 0)"
| "icmpv4_type_serialize BadIpHeader = (12, replicate 4 0)"
| "icmpv4_type_serialize IcmpTimestamp = (13, replicate 4 0)"
| "icmpv4_type_serialize TimestampReply = (14, replicate 4 0)"

definition ICMPV4_HEADER_SIZE :: nat where
  "ICMPV4_HEADER_SIZE = 8"

record icmpv4_header =
  icmp_protocol :: icmpv4_type2
  icmp_code :: u8

definition icmpv4_header_new :: "icmpv4_type2 \<Rightarrow> u8 \<Rightarrow> icmpv4_header" where
  "icmpv4_header_new t c = \<lparr>icmp_protocol = t, icmp_code = c\<rparr>"

definition icmpv4_checksum :: "ext \<Rightarrow> bytes \<Rightarrow> bytes \<Rightarrow> u16" where
  "icmpv4_checksum E buf body =
     (let state = 0xFFFF;
          state = state + ucast (read_u16 E (bslice 0 2 buf));
          state = state + ucast (read_u16 E (bslice 4 6 buf));
          state = state + ucast (read_u16 E (bslice 6 8 buf));
          state = sum_chunks E state body
      in finish_sum state)"

definition icmpv4_parse :: "ext \<Rightarrow> bytes \<Rightarrow> (icmpv4_header \<times> bytes) res" where
  "icmpv4_parse E buf =
     (if length buf < ICMPV4_HEADER_SIZE
      then Err (Fail EBADMSG ''ICMPv4 datagram too small for header'')
      else
      let hdr_buf = bslice 0 ICMPV4_HEADER_SIZE buf;
          type_byte = hdr_buf ! 0;
          code = hdr_buf ! 1;
          checksum = read_u16 E (bslice 2 4 hdr_buf)
      in if checksum \<noteq> icmpv4_checksum E hdr_buf (drop ICMPV4_HEADER_SIZE buf)
         then Err (Fail EBADMSG ''ICMPv4 checksum mismatch'')
      else
      res_bind (icmpv4_type_parse E type_byte (bslice 4 8 hdr_buf)) (\<lambda>icmpv4_type.
        Ok (\<lparr>icmp_protocol = icmpv4_type, icmp_code = code\<rparr>, buf_adjust E buf ICMPV4_HEADER_SIZE)))"

definition icmpv4_serialize :: "ext \<Rightarrow> icmpv4_header \<Rightarrow> bytes \<Rightarrow> bytes res" where
  "icmpv4_serialize E h buf =
     (if length buf < ICMPV4_HEADER_SIZE then Panic ''range end index out of range''
      else
      let (type_byte, rest_of_header) = icmpv4_type_serialize (icmp_protocol h);
          buf = buf[0 := type_byte];
          buf = buf[1 := icmp_code h];
          buf = put 4 rest_of_header buf;
          checksum = icmpv4_checksum E (bslice 0 ICMPV4_HEADER_SIZE buf) []
      in Ok (put 2 (write_u16 E checksum) buf))"

record icmpv4_message =
  im_ethernet2_hdr :: ethernet2_header
  im_ipv4_hdr :: ipv4_header
  im_icmpv4_hdr :: icmpv4_header

definition icmpv4_message_header_size :: "icmpv4_message \<Rightarrow> nat" where
  "icmpv4_message_header_size m =
     ethernet2_compute_size (im_ethernet2_hdr m) + ipv4_compute_size (im_ipv4_hdr m) + ICMPV4_HEADER_SIZE"

definition icmpv4_message_write_header :: "ext \<Rightarrow> icmpv4_message \<Rightarrow> bytes \<Rightarrow> bytes res" where
  "icmpv4_message_write_header E m buf =
     (let eth_hdr_size = ethernet2_compute_size (im_ethernet2_hdr m);
          ipv4_hdr_size = ipv4_compute_size (im_ipv4_hdr m);
          icmpv4_hdr_size = ICMPV4_HEADER_SIZE;
          ipv4_payload_len = icmpv4_hdr_size
      in res_bind (on_slice 0 eth_hdr_size (ethernet2_serialize E (im_ethernet2_hdr m)) buf) (\<lambda>buf.
         res_bind (on_slice eth_hdr_size (eth_hdr_size + ipv4_hdr_size)
                    (\<lambda>b. ipv4_serialize E (im_ipv4_hdr m) b ipv4_payload_len) buf)
           (on_slice (eth_hdr_size + ipv4_hdr_size) (eth_hdr_size + ipv4_hdr_size + icmpv4_hdr_size)
              (icmpv4_serialize E (im_icmpv4_hdr m)))))"

section \<open>Properties\<close>

lemma icmpv4_parse_no_panic: "\<not> is_panic (icmpv4_parse E buf)"
  by (auto simp: icmpv4_parse_def icmpv4_type_parse_def is_panic_bind Let_def)

lemma icmpv4_checksum_put:
  "length bs = 2 \<Longrightarrow> length hdr = 8 \<Longrightarrow>
   icmpv4_checksum E (put 2 bs hdr) body = icmpv4_checksum E hdr body"
  by (simp add: icmpv4_checksum_def wire_simps)

lemma length_type_serialize [simp]: "length (snd (icmpv4_type_serialize t)) = 4"
  by (cases t) simp_all

context extern
begin

lemma icmpv4_type_roundtrip:
  "icmpv4_type_parse E (fst (icmpv4_type_serialize t)) (snd (icmpv4_type_serialize t)) = Ok t"
  by (cases t) (simp_all add: icmpv4_type_parse_def bslice_def)

lemma icmpv4_codec:
  assumes "length b = 8"
  shows "\<exists>bs. icmpv4_serialize E h b = Ok bs \<and> length bs = 8 \<and> icmpv4_parse E bs = Ok (h, [])"
proof -
  obtain t rest where ts: "icmpv4_type_serialize (icmp_protocol h) = (t, rest)" by fastforce
  with length_type_serialize [of "icmp_protocol h"] have rest: "length rest = 4" by simp
  from ts icmpv4_type_roundtrip [of "icmp_protocol h"]
  have rt: "icmpv4_type_parse E t rest = Ok (icmp_protocol h)" by simp
  let ?B = "put 4 rest (b[0 := t, 1 := icmp_code h])"
  have l: "length ?B = 8" using assms rest by simp
  define c where "c = icmpv4_checksum E ?B []"
  let ?bs = "put 2 (write_u16 E c) ?B"
  have ser: "icmpv4_serialize E h b = Ok ?bs"
    using assms l by (simp add: icmpv4_serialize_def ICMPV4_HEADER_SIZE_def ts Let_def c_def
        wire_simps rest del: length_put)
  have lb: "length ?bs = 8" using l by simp
  have hdr: "bslice 0 8 ?bs = ?bs" "drop 8 ?bs = []" using lb by (simp_all add: bslice_def del: length_put)
  have w: "?bs ! 0 = t" "?bs ! 1 = icmp_code h" "read_u16 E (bslice 2 4 ?bs) = c"
      "bslice 4 8 ?bs = rest"
    using assms rest by (simp_all add: wire_simps)
  have sum: "icmpv4_checksum E ?bs [] = c"
    using l by (simp add: icmpv4_checksum_put c_def del: length_put)
  have adj: "buf_adjust E ?bs 8 = []" using lb by (simp add: adjust_drop del: length_put)
  have "icmpv4_parse E ?bs = Ok (h, [])"
    unfolding icmpv4_parse_def ICMPV4_HEADER_SIZE_def Let_def hdr w sum adj lb by (simp add: rt)
  with ser lb show ?thesis by blast
qed

end

text \<open>The checksum that is written covers no body, so the codec carries none.\<close>

sublocale extern \<subseteq> icmp: wire_codec
  "\<lambda>_. 8" "\<lambda>h p b. icmpv4_serialize E h b" "icmpv4_parse E" "\<lambda>h p. p = []" "\<lambda>h p. h"
  by unfold_locales (use icmpv4_codec in auto)

end
