(* ===== verification/Seq_Number.thy ===== *)
theory Seq_Number
  imports Prelude
begin

text \<open>
  \<^verbatim>\<open>src/src/protocols/tcp/sequence_number.rs\<close>: TCP sequence numbers.  A \<^verbatim>\<open>SeqNumber\<close> is its
  32-bit value; addition and subtraction wrap, and the four comparisons look at the sign of the
  wrapped difference.  The lemmas say when these comparisons form an order: inside every window
  of \<open>2 ^ 31\<close> consecutive numbers, wherever it starts.
\<close>

type_synonym seq_number = u32

definition seq_add :: "seq_number \<Rightarrow> seq_number \<Rightarrow> seq_number" where
  "seq_add a b = a + b"

definition seq_sub :: "seq_number \<Rightarrow> seq_number \<Rightarrow> seq_number" where
  "seq_sub a b = a - b"

definition seq_lt :: "seq_number \<Rightarrow> seq_number \<Rightarrow> bool" where
  "seq_lt a b \<longleftrightarrow> sint (a - b) < 0"

definition seq_le :: "seq_number \<Rightarrow> seq_number \<Rightarrow> bool" where
  "seq_le a b \<longleftrightarrow> sint (a - b) \<le> 0"

definition seq_gt :: "seq_number \<Rightarrow> seq_number \<Rightarrow> bool" where
  "seq_gt a b \<longleftrightarrow> sint (a - b) > 0"

definition seq_ge :: "seq_number \<Rightarrow> seq_number \<Rightarrow> bool" where
  "seq_ge a b \<longleftrightarrow> sint (a - b) \<ge> 0"

text \<open>\<^verbatim>\<open>partial_cmp\<close> panics.\<close>

definition seq_partial_cmp :: "seq_number \<Rightarrow> seq_number \<Rightarrow> int option res" where
  "seq_partial_cmp a b = Panic ''Somebody called partial_cmp on a sequence number!  Don't do that!''"

section \<open>The comparisons as distances\<close>

lemma unat_u32_less: "unat (w :: u32) < 2 ^ 32"
proof -
  have "unat w < 2 ^ LENGTH(32)" by (rule unsigned_less)
  then show ?thesis by simp
qed

lemma sint_neg_iff: "sint (w :: u32) < 0 \<longleftrightarrow> 2 ^ 31 \<le> unat w"
proof -
  have "sint w < 0 \<longleftrightarrow> odd (uint w div 2 ^ 31)"
    by (simp add: sint_uint bit_iff_odd)
  also have "\<dots> \<longleftrightarrow> odd (unat w div 2 ^ 31)"
  proof -
    have "uint w div 2 ^ 31 = int (unat w div 2 ^ 31)" by (simp add: of_nat_div)
    then show ?thesis by (simp only: even_of_nat)
  qed
  also have "\<dots> \<longleftrightarrow> 2 ^ 31 \<le> unat w"
  proof (cases "unat w < 2 ^ 31")
    case False
    moreover have "unat w < 2 * 2 ^ 31" using unat_u32_less [of w] by simp
    ultimately have "unat w div 2 ^ 31 = 1" by (intro div_nat_eqI) simp_all
    with False show ?thesis by simp
  qed simp
  finally show ?thesis .
qed

lemma sint_zero_iff: "sint (w :: u32) = 0 \<longleftrightarrow> w = 0"
  by (simp add: signed_eq_0_iff)

lemma seq_lt_dist: "seq_lt a b \<longleftrightarrow> 2 ^ 31 \<le> unat (a - b)"
  by (simp add: seq_lt_def sint_neg_iff)

lemma seq_ge_dist: "seq_ge a b \<longleftrightarrow> unat (a - b) < 2 ^ 31"
  using sint_neg_iff [of "a - b"] by (auto simp: seq_ge_def)

lemma seq_le_dist: "seq_le a b \<longleftrightarrow> a = b \<or> 2 ^ 31 \<le> unat (a - b)"
  using sint_neg_iff [of "a - b"] sint_zero_iff [of "a - b"] by (auto simp: seq_le_def)

lemma seq_gt_dist: "seq_gt a b \<longleftrightarrow> a \<noteq> b \<and> unat (a - b) < 2 ^ 31"
  using sint_neg_iff [of "a - b"] sint_zero_iff [of "a - b"] by (auto simp: seq_gt_def)

lemmas seq_dist = seq_lt_dist seq_le_dist seq_gt_dist seq_ge_dist

text \<open>The distance from the other side.\<close>

lemma unat_minus_swap: "a \<noteq> b \<Longrightarrow> unat (a - b) = 2 ^ 32 - unat (b - a)" for a b :: u32
proof -
  assume "a \<noteq> b"
  then have "unat a \<noteq> unat b" by (simp add: word_unat_eq_iff)
  then show ?thesis
    using unat_u32_less [of a] unat_u32_less [of b] by (auto simp: unat_sub_if_size word_size)
qed

text \<open>Two offsets into the same window.\<close>

lemma unat_window_diff:
  assumes "j \<le> i" "i < 2 ^ 32"
  shows "unat ((s + of_nat i) - (s + of_nat j) :: u32) = i - j"
proof -
  have "(s + of_nat i) - (s + of_nat j) = (of_nat (i - j) :: u32)"
    using assms by simp
  then show ?thesis using assms
    by (simp add: unat_of_nat take_bit_nat_eq_self del: of_nat_diff)
qed

lemma seq_lt_offsets:
  assumes "i < 2 ^ 31" "j < 2 ^ 31"
  shows "seq_lt (s + of_nat i) (s + of_nat j) \<longleftrightarrow> i < j"
proof (cases "i < j")
  case True
  have "unat ((s + of_nat j) - (s + of_nat i) :: u32) = j - i"
    using unat_window_diff [of i j s] True assms by simp
  moreover have "s + of_nat i \<noteq> (s + of_nat j :: u32)"
    using calculation True by auto
  ultimately have "unat ((s + of_nat i) - (s + of_nat j) :: u32) = 2 ^ 32 - (j - i)"
    using unat_minus_swap by metis
  with True assms show ?thesis by (simp add: seq_lt_dist)
next
  case False
  then show ?thesis
    using unat_window_diff [of j i s] assms by (simp add: seq_lt_dist)
qed

lemma offsets_eq_iff:
  assumes "i < 2 ^ 32" "j < 2 ^ 32"
  shows "s + of_nat i = (s + of_nat j :: u32) \<longleftrightarrow> i = j"
  using assms by (auto simp: word_of_nat_eq_iff take_bit_nat_eq_self)

section \<open>Numbers at an offset\<close>

text \<open>
  \<open>seq_at s i\<close> is the number at offset \<open>i\<close> of a stream that starts at \<open>s\<close>.  The comparisons of
  two such numbers are those of the offsets as long as the offsets are close.
\<close>

definition seq_at :: "seq_number \<Rightarrow> nat \<Rightarrow> seq_number" where
  "seq_at s i = s + of_nat i"

lemma seq_at_diff: "j \<le> i \<Longrightarrow> seq_at s i - seq_at s j = of_nat (i - j)"
  by (simp add: seq_at_def)

lemma unat_seq_at_diff: "j \<le> i \<Longrightarrow> i < j + 2 ^ 32 \<Longrightarrow> unat (seq_at s i - seq_at s j) = i - j"
  by (simp add: seq_at_diff unat_of_nat take_bit_nat_eq_self del: of_nat_diff)

lemma seq_at_inj: "j \<le> i \<Longrightarrow> i < j + 2 ^ 32 \<Longrightarrow> seq_at s i = seq_at s j \<longleftrightarrow> i = j"
  using unat_seq_at_diff [of j i s] by (cases "i = j") auto

lemma seq_at_eq_iff: "i < j + 2 ^ 32 \<Longrightarrow> j < i + 2 ^ 32 \<Longrightarrow> seq_at s i = seq_at s j \<longleftrightarrow> i = j"
  using seq_at_inj [of j i s] seq_at_inj [of i j s] by (cases "j \<le> i") auto

lemma seq_at_lt: "i < j + 2 ^ 31 \<Longrightarrow> j \<le> i + 2 ^ 31 \<Longrightarrow> seq_lt (seq_at s i) (seq_at s j) \<longleftrightarrow> i < j"
proof (cases "i < j")
  case True
  assume "i < j + 2 ^ 31" "j \<le> i + 2 ^ 31"
  with True unat_seq_at_diff [of i j s] seq_at_inj [of i j s]
    unat_minus_swap [of "seq_at s i" "seq_at s j"] show ?thesis by (simp add: seq_lt_dist)
next
  case False
  assume "i < j + 2 ^ 31" "j \<le> i + 2 ^ 31"
  with False unat_seq_at_diff [of j i s] show ?thesis by (simp add: seq_lt_dist)
qed

lemma seq_at_ge: "i < j + 2 ^ 31 \<Longrightarrow> j \<le> i + 2 ^ 31 \<Longrightarrow> seq_ge (seq_at s i) (seq_at s j) \<longleftrightarrow> j \<le> i"
  using seq_at_lt [of i j s] by (simp add: seq_lt_dist seq_ge_dist not_le [symmetric])

lemma seq_at_le: "i < j + 2 ^ 31 \<Longrightarrow> j \<le> i + 2 ^ 31 \<Longrightarrow> seq_le (seq_at s i) (seq_at s j) \<longleftrightarrow> i \<le> j"
  using seq_at_lt [of i j s] seq_at_eq_iff [of i j s] by (auto simp: seq_lt_dist seq_le_dist)

lemma seq_at_add [simp]: "seq_add (seq_at s i) (of_nat n) = seq_at s (i + n)"
  by (simp add: seq_add_def seq_at_def)

lemma seq_at_sub: "n \<le> i \<Longrightarrow> seq_sub (seq_at s i) (of_nat n) = seq_at s (i - n)"
  by (simp add: seq_sub_def seq_at_def)

lemma seq_at_dist: "j \<le> i \<Longrightarrow> seq_sub (seq_at s i) (seq_at s j) = of_nat (i - j)"
  by (simp add: seq_sub_def seq_at_diff)

lemma seq_at_last: "0 < n \<Longrightarrow> seq_add (seq_at s i) (of_nat n - 1) = seq_at s (i + n - 1)"
  by (cases n) (simp_all add: seq_add_def seq_at_def)

lemma unat_of_nat_u32: "n < 2 ^ 32 \<Longrightarrow> unat (of_nat n :: u32) = n"
  by (simp add: unat_of_nat take_bit_nat_eq_self)

end
