(* ===== verification/Tcp_Segment.thy ===== *)
theory Tcp_Segment
  imports Ipv4_Header Ethernet2 Seq_Number
begin

text \<open>
  \<^verbatim>\<open>src/src/protocols/tcp/segment.rs\<close>: the TCP header, its options, its checksum and the
  segment that the stack transmits.  The fixed array of options is a list of length
  \<^verbatim>\<open>MAX_TCP_OPTIONS\<close>; an index outside an array panics, as in the source.
\<close>

definition MIN_TCP_HEADER_SIZE :: nat where "MIN_TCP_HEADER_SIZE = 20"
definition MAX_TCP_HEADER_SIZE :: nat where "MAX_TCP_HEADER_SIZE = 60"
definition MAX_TCP_OPTIONS :: nat where "MAX_TCP_OPTIONS = 5"

type_synonym sack = "seq_number \<times> seq_number"

datatype tcp_options2 =
    NoOperation
  | MaximumSegmentSize u16
  | WindowScale u8
  | SelectiveAcknowlegementPermitted
  | SelectiveAcknowlegement nat "sack list"
  | Timestamp u32 u32

fun tcp_option_compute_size :: "tcp_options2 \<Rightarrow> nat" where
  "tcp_option_compute_size NoOperation = 1"
| "tcp_option_compute_size (MaximumSegmentSize _) = 4"
| "tcp_option_compute_size (WindowScale _) = 3"
| "tcp_option_compute_size SelectiveAcknowlegementPermitted = 2"
| "tcp_option_compute_size (SelectiveAcknowlegement num_sacks _) = 2 + 8 * num_sacks"
| "tcp_option_compute_size (Timestamp _ _) = 10"

fun write_sacks :: "ext \<Rightarrow> nat \<Rightarrow> nat \<Rightarrow> sack list \<Rightarrow> bytes res" where
  "write_sacks E i 0 sacks = Ok []"
| "write_sacks E i (Suc n) sacks =
     (if length sacks \<le> i then Panic ''index out of bounds''
      else res_bind (write_sacks E (Suc i) n sacks) (\<lambda>bs.
             Ok (write_u32 E (fst (sacks ! i)) @ write_u32 E (snd (sacks ! i)) @ bs)))"

fun tcp_option_bytes :: "ext \<Rightarrow> tcp_options2 \<Rightarrow> bytes res" where
  "tcp_option_bytes E NoOperation = Ok [1]"
| "tcp_option_bytes E (MaximumSegmentSize mss) = Ok (2 # 4 # write_u16 E mss)"
| "tcp_option_bytes E (WindowScale scale) = Ok [3, 3, scale]"
| "tcp_option_bytes E SelectiveAcknowlegementPermitted = Ok [4, 2]"
| "tcp_option_bytes E (SelectiveAcknowlegement num_sacks sacks) =
     res_bind (write_sacks E 0 num_sacks sacks) (\<lambda>bs. Ok (5 # (2 + 8 * of_nat num_sacks) # bs))"
| "tcp_option_bytes E (Timestamp sender_timestamp echo_timestamp) =
     Ok (8 # 10 # write_u32 E sender_timestamp @ write_u32 E echo_timestamp)"

text \<open>
  \<^verbatim>\<open>TcpOptions2::serialize\<close> writes at the front of the slice and returns the number of bytes;
  a slice that is too short panics.
\<close>

definition tcp_option_serialize :: "ext \<Rightarrow> tcp_options2 \<Rightarrow> bytes \<Rightarrow> (bytes \<times> nat) res" where
  "tcp_option_serialize E opt buf =
     res_bind (tcp_option_bytes E opt) (\<lambda>bs.
       if length buf < length bs then Panic ''index out of bounds''
       else Ok (put 0 bs buf, tcp_option_compute_size opt))"

record tcp_header =
  tcp_src_port :: u16
  tcp_dst_port :: u16
  tcp_seq_num :: seq_number
  tcp_ack_num :: seq_number
  tcp_ns :: bool
  tcp_cwr :: bool
  tcp_ece :: bool
  tcp_urg :: bool
  tcp_ack :: bool
  tcp_psh :: bool
  tcp_rst :: bool
  tcp_syn :: bool
  tcp_fin :: bool
  tcp_window_size :: u16
  tcp_urgent_pointer :: u16
  tcp_num_options :: nat
  tcp_option_list :: "tcp_options2 list"

definition tcp_header_new :: "u16 \<Rightarrow> u16 \<Rightarrow> tcp_header" where
  "tcp_header_new src_port dst_port = \<lparr>
     tcp_src_port = src_port, tcp_dst_port = dst_port, tcp_seq_num = 0, tcp_ack_num = 0,
     tcp_ns = False, tcp_cwr = False, tcp_ece = False, tcp_urg = False, tcp_ack = False,
     tcp_psh = False, tcp_rst = False, tcp_syn = False, tcp_fin = False,
     tcp_window_size = 0, tcp_urgent_pointer = 0, tcp_num_options = 0,
     tcp_option_list = replicate MAX_TCP_OPTIONS NoOperation\<rparr>"

definition tcp_push_option :: "tcp_options2 \<Rightarrow> tcp_header \<Rightarrow> tcp_header res" where
  "tcp_push_option opt h =
     (if length (tcp_option_list h) \<le> tcp_num_options h then Panic ''index out of bounds''
      else Ok (h\<lparr>tcp_option_list := (tcp_option_list h)[tcp_num_options h := opt],
                 tcp_num_options := tcp_num_options h + 1\<rparr>))"

definition tcp_iter_options :: "tcp_header \<Rightarrow> tcp_options2 list" where
  "tcp_iter_options h = map (\<lambda>i. tcp_option_list h ! i) [0..<tcp_num_options h]"

definition tcp_compute_size :: "tcp_header \<Rightarrow> nat" where
  "tcp_compute_size h =
     (let size = MIN_TCP_HEADER_SIZE;
          size = size + sum_list (map tcp_option_compute_size (tcp_iter_options h));
          size = (if tcp_num_options h > 0 then size + 1 else size)
      in (size + 3) div 4 * 4)"

section \<open>Checksum\<close>

definition tcp_checksum :: "ext \<Rightarrow> ipv4_header \<Rightarrow> bytes \<Rightarrow> bytes \<Rightarrow> u16 res" where
  "tcp_checksum E ip header data =
     (let state = add_pseudo_header E ip TCP 0xFFFF;
          state = state + of_nat (length header + length data)
      in if length header < MIN_TCP_HEADER_SIZE then Panic ''range end index out of range''
      else
      let fixed_header = bslice 0 MIN_TCP_HEADER_SIZE header;
          state = add_words E fixed_header state [0..<8];
          state = state + ucast (read_u16 E (bslice 18 20 fixed_header))
      in if length header > MIN_TCP_HEADER_SIZE \<and> length header mod 2 \<noteq> 0
         then Panic ''assertion failed''
      else
      let state = sum_chunks E state (drop MIN_TCP_HEADER_SIZE header);
          state = sum_chunks E state data
      in Ok (finish_sum state))"

section \<open>Parsing\<close>

text \<open>The cursor over the option bytes: its unread part.\<close>

fun rdr_u8 :: "ext \<Rightarrow> bytes \<Rightarrow> (u8 \<times> bytes) res" where
  "rdr_u8 E (b # bs) = Ok (b, bs)"
| "rdr_u8 E [] = Err (io_eof E)"

definition rdr_u16 :: "ext \<Rightarrow> bytes \<Rightarrow> (u16 \<times> bytes) res" where
  "rdr_u16 E bs = (if length bs < 2 then Err (io_eof E) else Ok (read_u16 E (take 2 bs), drop 2 bs))"

definition rdr_u32 :: "ext \<Rightarrow> bytes \<Rightarrow> (u32 \<times> bytes) res" where
  "rdr_u32 E bs = (if length bs < 4 then Err (io_eof E) else Ok (read_u32 E (take 4 bs), drop 4 bs))"

fun read_sacks :: "ext \<Rightarrow> nat \<Rightarrow> bytes \<Rightarrow> (sack list \<times> bytes) res" where
  "read_sacks E 0 bs = Ok ([], bs)"
| "read_sacks E (Suc n) bs =
     res_bind (rdr_u32 E bs) (\<lambda>(x, bs).
     res_bind (rdr_u32 E bs) (\<lambda>(y, bs).
     res_bind (read_sacks E n bs) (\<lambda>(ss, bs). Ok ((x, y) # ss, bs))))"

definition tcp_read_option :: "ext \<Rightarrow> u8 \<Rightarrow> bytes \<Rightarrow> (tcp_options2 \<times> bytes) res" where
  "tcp_read_option E option_kind rdr =
     (if option_kind = 2 then
        res_bind (rdr_u8 E rdr) (\<lambda>(option_length, rdr).
        if option_length \<noteq> 4 then Err (Fail EBADMSG ''MSS size was not 4'')
        else res_bind (rdr_u16 E rdr) (\<lambda>(mss, rdr). Ok (MaximumSegmentSize mss, rdr)))
      else if option_kind = 3 then
        res_bind (rdr_u8 E rdr) (\<lambda>(option_length, rdr).
        if option_length \<noteq> 3 then Err (Fail EBADMSG ''window scale size was not 3'')
        else res_bind (rdr_u8 E rdr) (\<lambda>(window_scale, rdr). Ok (WindowScale window_scale, rdr)))
      else if option_kind = 4 then
        res_bind (rdr_u8 E rdr) (\<lambda>(option_length, rdr).
        if option_length \<noteq> 2 then Err (Fail EBADMSG ''SACK permitted size was not 2'')
        else Ok (SelectiveAcknowlegementPermitted, rdr))
      else if option_kind = 5 then
        res_bind (rdr_u8 E rdr) (\<lambda>(option_length, rdr).
        if option_length \<notin> {10, 18, 26, 34} then Err (Fail EBADMSG ''invalid SACK size'')
        else let num_sacks = (unat option_length - 2) div 8
             in res_bind (read_sacks E num_sacks rdr) (\<lambda>(ss, rdr).
                Ok (SelectiveAcknowlegement num_sacks (put 0 ss (replicate 4 (0, 0))), rdr)))
      else if option_kind = 8 then
        res_bind (rdr_u8 E rdr) (\<lambda>(option_length, rdr).
        if option_length \<noteq> 10 then Err (Fail EBADMSG ''TCP timestamp size was not 10'')
        else res_bind (rdr_u32 E rdr) (\<lambda>(sender_timestamp, rdr).
             res_bind (rdr_u32 E rdr) (\<lambda>(echo_timestamp, rdr).
             Ok (Timestamp sender_timestamp echo_timestamp, rdr))))
      else Err (Fail EBADMSG ''invalid TCP option''))"

lemma rdr_shorter:
  "rdr_u8 E bs = Ok (v, rest) \<Longrightarrow> length rest < length bs"
  "rdr_u16 E bs = Ok (w, rest) \<Longrightarrow> length rest < length bs"
  "rdr_u32 E bs = Ok (x, rest) \<Longrightarrow> length rest < length bs"
  by (cases bs; auto simp: rdr_u16_def rdr_u32_def split: if_splits)+

lemma read_sacks_shorter: "read_sacks E n bs = Ok (ss, rest) \<Longrightarrow> length rest \<le> length bs"
proof (induction n arbitrary: bs ss)
  case (Suc n)
  then show ?case by (fastforce simp: res_bind_Ok_iff dest: rdr_shorter)
qed simp

lemma tcp_read_option_shorter:
  "tcp_read_option E k bs = Ok (opt, rest) \<Longrightarrow> length rest < length bs"
  by (fastforce simp: tcp_read_option_def res_bind_Ok_iff Let_def
      dest: rdr_shorter read_sacks_shorter split: if_splits)

function tcp_read_options ::
    "ext \<Rightarrow> bytes \<Rightarrow> nat \<Rightarrow> tcp_options2 list \<Rightarrow> (nat \<times> tcp_options2 list) res" where
  "tcp_read_options E [] num_options option_list = Ok (num_options, option_list)"
| "tcp_read_options E (option_kind # rdr) num_options option_list =
     (if option_kind = 0 then Ok (num_options, option_list)
      else if option_kind = 1 then tcp_read_options E rdr num_options option_list
      else res_bind (tcp_read_option E option_kind rdr) (\<lambda>r.
        if num_options \<ge> length option_list then Err (Fail EBADMSG ''too many TCP options provided'')
        else tcp_read_options E (snd r) (num_options + 1) (option_list[num_options := fst r])))"
  by pat_completeness auto
termination
  by (relation "measure (\<lambda>(_, bs, _). length bs)")
     (auto dest!: tcp_read_option_shorter)

definition tcp_parse :: "ext \<Rightarrow> ipv4_header \<Rightarrow> bytes \<Rightarrow> bool \<Rightarrow> (tcp_header \<times> bytes) res" where
  "tcp_parse E ip buf rx_checksum_offload =
     (if length buf < MIN_TCP_HEADER_SIZE then Err (Fail EBADMSG ''TCP segment too small'')
      else
      let data_offset = unat (drop_bit 4 (buf ! 12)) * 4
      in if length buf < data_offset
         then Err (Fail EBADMSG ''TCP segment smaller than data offset'')
      else if data_offset < MIN_TCP_HEADER_SIZE then Err (Fail EBADMSG ''TCP data offset too small'')
      else if data_offset > MAX_TCP_HEADER_SIZE then Err (Fail EBADMSG ''TCP data offset too large'')
      else
      let hdr_buf = take data_offset buf;
          data_buf = drop data_offset buf
      in res_bind (if \<not> rx_checksum_offload
                   then res_bind (tcp_checksum E ip hdr_buf data_buf) (\<lambda>c.
                          if read_u16 E (bslice 16 18 hdr_buf) \<noteq> c
                          then Err (Fail EBADMSG ''TCP checksum mismatch'') else Ok ())
                   else Ok ()) (\<lambda>_.
         res_bind (if data_offset > MIN_TCP_HEADER_SIZE
                   then tcp_read_options E (bslice MIN_TCP_HEADER_SIZE data_offset hdr_buf) 0
                          (replicate MAX_TCP_OPTIONS NoOperation)
                   else Ok (0, replicate MAX_TCP_OPTIONS NoOperation)) (\<lambda>(num_options, option_list).
         Ok (\<lparr>tcp_src_port = read_u16 E (bslice 0 2 hdr_buf),
              tcp_dst_port = read_u16 E (bslice 2 4 hdr_buf),
              tcp_seq_num = read_u32 E (bslice 4 8 hdr_buf),
              tcp_ack_num = read_u32 E (bslice 8 12 hdr_buf),
              tcp_ns = (hdr_buf ! 12 AND 1 \<noteq> 0),
              tcp_cwr = (hdr_buf ! 13 AND push_bit 7 1 \<noteq> 0),
              tcp_ece = (hdr_buf ! 13 AND push_bit 6 1 \<noteq> 0),
              tcp_urg = (hdr_buf ! 13 AND push_bit 5 1 \<noteq> 0),
              tcp_ack = (hdr_buf ! 13 AND push_bit 4 1 \<noteq> 0),
              tcp_psh = (hdr_buf ! 13 AND push_bit 3 1 \<noteq> 0),
              tcp_rst = (hdr_buf ! 13 AND push_bit 2 1 \<noteq> 0),
              tcp_syn = (hdr_buf ! 13 AND push_bit 1 1 \<noteq> 0),
              tcp_fin = (hdr_buf ! 13 AND push_bit 0 1 \<noteq> 0),
              tcp_window_size = read_u16 E (bslice 14 16 hdr_buf),
              tcp_urgent_pointer = read_u16 E (bslice 18 20 hdr_buf),
              tcp_num_options = num_options,
              tcp_option_list = option_list\<rparr>, buf_adjust E buf data_offset))))"

section \<open>Serialisation\<close>

definition or_flag :: "bool \<Rightarrow> u8 \<Rightarrow> u8 \<Rightarrow> u8" where
  "or_flag flag m b = (if flag then b OR m else b)"

definition tcp_offset_byte :: "tcp_header \<Rightarrow> u8" where
  "tcp_offset_byte h = or_flag (tcp_ns h) 1 (push_bit 4 (of_nat (tcp_compute_size h div 4)))"

definition tcp_flag_byte :: "tcp_header \<Rightarrow> u8" where
  "tcp_flag_byte h =
     (let b = 0;
          b = or_flag (tcp_cwr h) (push_bit 7 1) b;
          b = or_flag (tcp_ece h) (push_bit 6 1) b;
          b = or_flag (tcp_urg h) (push_bit 5 1) b;
          b = or_flag (tcp_ack h) (push_bit 4 1) b;
          b = or_flag (tcp_psh h) (push_bit 3 1) b;
          b = or_flag (tcp_rst h) (push_bit 2 1) b;
          b = or_flag (tcp_syn h) (push_bit 1 1) b
      in or_flag (tcp_fin h) (push_bit 0 1) b)"

fun tcp_write_options :: "ext \<Rightarrow> nat \<Rightarrow> tcp_options2 list \<Rightarrow> bytes \<Rightarrow> (bytes \<times> nat) res" where
  "tcp_write_options E cur_pos [] buf = Ok (buf, cur_pos)"
| "tcp_write_options E cur_pos (opt # opts) buf =
     (if length buf < cur_pos then Panic ''range start index out of range''
      else res_bind (tcp_option_serialize E opt (drop cur_pos buf)) (\<lambda>(s, bytes_written).
             tcp_write_options E (cur_pos + bytes_written) opts (put cur_pos s buf)))"

definition tcp_serialize ::
    "ext \<Rightarrow> tcp_header \<Rightarrow> bytes \<Rightarrow> ipv4_header \<Rightarrow> bytes \<Rightarrow> bool \<Rightarrow> bytes res" where
  "tcp_serialize E h buf ip data tx_checksum_offload =
     (if length buf < MIN_TCP_HEADER_SIZE then Panic ''range end index out of range''
      else if length (tcp_option_list h) < tcp_num_options h then Panic ''index out of bounds''
      else
      let buf = put 0 (write_u16 E (tcp_src_port h)) buf;
          buf = put 2 (write_u16 E (tcp_dst_port h)) buf;
          buf = put 4 (write_u32 E (tcp_seq_num h)) buf;
          buf = put 8 (write_u32 E (tcp_ack_num h)) buf;
          buf = buf[12 := tcp_offset_byte h];
          buf = buf[13 := tcp_flag_byte h];
          buf = put 14 (write_u16 E (tcp_window_size h)) buf;
          buf = put 18 (write_u16 E (tcp_urgent_pointer h)) buf
      in res_bind (tcp_write_options E MIN_TCP_HEADER_SIZE (tcp_iter_options h) buf) (\<lambda>(buf, cur_pos).
         res_bind (if tcp_num_options h > 0
                   then (if length buf \<le> cur_pos then Panic ''index out of bounds''
                         else Ok (buf[cur_pos := 0], cur_pos + 1))
                   else Ok (buf, cur_pos)) (\<lambda>(buf, cur_pos).
         if length buf < cur_pos then Panic ''range start index out of range''
         else
         let buf = take cur_pos buf @ replicate (length buf - cur_pos) 0
         in res_bind (if \<not> tx_checksum_offload then tcp_checksum E ip buf data else Ok 0) (\<lambda>checksum.
              Ok (put 16 (write_u16 E checksum) buf)))))"

record tcp_segment =
  ts_ethernet2_hdr :: ethernet2_header
  ts_ipv4_hdr :: ipv4_header
  ts_tcp_hdr :: tcp_header
  ts_data :: bytes
  ts_tx_checksum_offload :: bool

definition tcp_segment_header_size :: "tcp_segment \<Rightarrow> nat" where
  "tcp_segment_header_size s =
     ethernet2_compute_size (ts_ethernet2_hdr s) + ipv4_compute_size (ts_ipv4_hdr s)
       + tcp_compute_size (ts_tcp_hdr s)"

definition tcp_segment_write_header :: "ext \<Rightarrow> tcp_segment \<Rightarrow> bytes \<Rightarrow> bytes res" where
  "tcp_segment_write_header E s buf =
     (let eth_hdr_size = ethernet2_compute_size (ts_ethernet2_hdr s);
          ipv4_hdr_size = ipv4_compute_size (ts_ipv4_hdr s);
          tcp_hdr_size = tcp_compute_size (ts_tcp_hdr s);
          ipv4_payload_len = tcp_hdr_size + length (ts_data s)
      in res_bind (on_slice 0 eth_hdr_size (ethernet2_serialize E (ts_ethernet2_hdr s)) buf) (\<lambda>buf.
         res_bind (on_slice eth_hdr_size (eth_hdr_size + ipv4_hdr_size)
                    (\<lambda>b. ipv4_serialize E (ts_ipv4_hdr s) b ipv4_payload_len) buf)
           (on_slice (eth_hdr_size + ipv4_hdr_size) (eth_hdr_size + ipv4_hdr_size + tcp_hdr_size)
              (\<lambda>b. tcp_serialize E (ts_tcp_hdr s) b (ts_ipv4_hdr s) (ts_data s)
                     (ts_tx_checksum_offload s)))))"

section \<open>Round trip\<close>

definition tcp_option_wf :: "tcp_options2 \<Rightarrow> bool" where
  "tcp_option_wf opt = (case opt of
     SelectiveAcknowlegement n ss \<Rightarrow>
       1 \<le> n \<and> n \<le> 4 \<and> length ss = 4 \<and> drop n ss = replicate (4 - n) (0, 0)
   | _ \<Rightarrow> True)"

definition option_octets :: "ext \<Rightarrow> tcp_options2 \<Rightarrow> bytes" where
  "option_octets E opt = (case tcp_option_bytes E opt of Ok bs \<Rightarrow> bs | _ \<Rightarrow> [])"

context byteorder
begin

lemma write_sacks_total:
  "i + n \<le> length ss \<Longrightarrow> \<exists>bs. write_sacks E i n ss = Ok bs \<and> length bs = 8 * n"
proof (induction n arbitrary: i)
  case (Suc n)
  from Suc.IH [of "Suc i"] Suc.prems show ?case by auto
qed simp

lemma option_bytes_total:
  assumes "tcp_option_wf opt"
  shows "tcp_option_bytes E opt = Ok (option_octets E opt)"
    and "length (option_octets E opt) = tcp_option_compute_size opt"
proof -
  have "\<exists>bs. tcp_option_bytes E opt = Ok bs \<and> length bs = tcp_option_compute_size opt"
  proof (cases opt)
    case (SelectiveAcknowlegement n ss)
    then show ?thesis using assms write_sacks_total [of 0 n ss] by (auto simp: tcp_option_wf_def)
  qed simp_all
  then show "tcp_option_bytes E opt = Ok (option_octets E opt)"
    "length (option_octets E opt) = tcp_option_compute_size opt"
    by (auto simp: option_octets_def)
qed

lemma length_octets_list:
  "list_all tcp_option_wf opts \<Longrightarrow>
   length (concat (map (option_octets E) opts)) = sum_list (map tcp_option_compute_size opts)"
  by (induction opts) (simp_all add: option_bytes_total)

lemma tcp_write_options_octets:
  "list_all tcp_option_wf opts \<Longrightarrow> pos + sum_list (map tcp_option_compute_size opts) \<le> length buf \<Longrightarrow>
   tcp_write_options E pos opts buf
     = Ok (put pos (concat (map (option_octets E) opts)) buf,
           pos + sum_list (map tcp_option_compute_size opts))"
proof (induction opts arbitrary: pos buf)
  case (Cons opt opts)
  note o = option_bytes_total [of opt]
  let ?b = "put pos (option_octets E opt) buf"
  have "tcp_write_options E (pos + tcp_option_compute_size opt) opts ?b
      = Ok (put (pos + tcp_option_compute_size opt) (concat (map (option_octets E) opts)) ?b,
           pos + tcp_option_compute_size opt + sum_list (map tcp_option_compute_size opts))"
    using Cons.prems o by (intro Cons.IH) simp_all
  moreover have "put (pos + tcp_option_compute_size opt) (concat (map (option_octets E) opts)) ?b
      = put pos (option_octets E opt @ concat (map (option_octets E) opts)) buf"
    using put_append [of pos "option_octets E opt" "concat (map (option_octets E) opts)" buf]
      Cons.prems o length_octets_list [of opts] by simp
  ultimately show ?case
    using Cons.prems o by (simp add: tcp_option_serialize_def put_put_drop add.assoc)
qed simp

lemma rdr_write [simp]:
  "rdr_u16 E (write_u16 E v @ bs) = Ok (v, bs)" "rdr_u32 E (write_u32 E w @ bs) = Ok (w, bs)"
  by (simp_all add: rdr_u16_def rdr_u32_def)

lemma read_write_sacks:
  "write_sacks E i n ss = Ok bs \<Longrightarrow> read_sacks E n (bs @ rest) = Ok (bslice i (i + n) ss, rest)"
proof (induction n arbitrary: i bs)
  case 0
  then show ?case by (simp add: bslice_def)
next
  case (Suc n)
  then obtain bs' where "i < length ss" "write_sacks E (Suc i) n ss = Ok bs'"
    "bs = write_u32 E (fst (ss ! i)) @ write_u32 E (snd (ss ! i)) @ bs'"
    by (auto simp: res_bind_Ok_iff split: if_splits)
  with Suc.IH [of "Suc i" bs'] show ?case
    by (simp add: bslice_def Cons_nth_drop_Suc [symmetric])
qed

lemma read_octets_option:
  assumes "tcp_option_wf opt" "opt \<noteq> NoOperation"
  shows "\<exists>k bs. option_octets E opt = k # bs \<and> k \<noteq> 0 \<and> k \<noteq> 1 \<and>
           tcp_read_option E k (bs @ rest) = Ok (opt, rest)"
proof (cases opt)
  case (SelectiveAcknowlegement n ss)
  with assms obtain bs where bs: "write_sacks E 0 n ss = Ok bs"
    using write_sacks_total [of 0 n ss] by (auto simp: tcp_option_wf_def)
  have n: "n = 1 \<or> n = 2 \<or> n = 3 \<or> n = 4" and ss: "length ss = 4" "drop n ss = replicate (4 - n) (0, 0)"
    using assms SelectiveAcknowlegement by (auto simp: tcp_option_wf_def)
  from ss have "put 0 (take n ss) (replicate 4 (0, 0)) = ss"
    using n append_take_drop_id [of n ss] by (auto simp: put_def)
  moreover have "(unat (2 + 8 * of_nat n :: u8) - 2) div 8 = n"
    and "2 + 8 * of_nat n \<in> {10, 18, 26, 34 :: u8}"
    using n by auto
  moreover have "bslice 0 (0 + n) ss = take n ss" by (simp add: bslice_def)
  ultimately show ?thesis
    using SelectiveAcknowlegement bs read_write_sacks [OF bs, of rest]
    by (simp add: option_octets_def tcp_read_option_def Let_def del: insert_iff)
qed (use assms in \<open>simp_all add: option_octets_def tcp_read_option_def\<close>)

lemma tcp_read_options_octets:
  assumes "list_all tcp_option_wf opts"
    and "n + length (filter (\<lambda>x. x \<noteq> NoOperation) opts) \<le> length acc"
  shows "tcp_read_options E (concat (map (option_octets E) opts) @ 0 # z) n acc
     = Ok (n + length (filter (\<lambda>x. x \<noteq> NoOperation) opts), put n (filter (\<lambda>x. x \<noteq> NoOperation) opts) acc)"
  using assms
proof (induction opts arbitrary: n acc)
  case (Cons opt opts)
  show ?case
  proof (cases "opt = NoOperation")
    case True
    with Cons show ?thesis by (simp add: option_octets_def)
  next
    case False
    let ?rest = "concat (map (option_octets E) opts) @ 0 # z"
    obtain k bs where k: "option_octets E opt = k # bs" "k \<noteq> 0" "k \<noteq> 1"
      "tcp_read_option E k (bs @ ?rest) = Ok (opt, ?rest)"
      using read_octets_option [of opt ?rest] Cons.prems False by auto
    with Cons.IH [of "Suc n" "acc[n := opt]"] Cons.prems False show ?thesis
      by (simp add: put_Cons)
  qed
qed simp

end

lemma or_flag_bit: "bit (or_flag c (push_bit k 1) b) n \<longleftrightarrow> (c \<and> n = k \<and> k < 8) \<or> bit b n"
  by (auto simp: or_flag_def bit_simps)

lemma tcp_flag_byte_bits:
  fixes h :: tcp_header
  shows "tcp_flag_byte h AND push_bit 7 1 \<noteq> 0 \<longleftrightarrow> tcp_cwr h"
   "tcp_flag_byte h AND push_bit 6 1 \<noteq> 0 \<longleftrightarrow> tcp_ece h"
   "tcp_flag_byte h AND push_bit 5 1 \<noteq> 0 \<longleftrightarrow> tcp_urg h"
   "tcp_flag_byte h AND push_bit 4 1 \<noteq> 0 \<longleftrightarrow> tcp_ack h"
   "tcp_flag_byte h AND push_bit 3 1 \<noteq> 0 \<longleftrightarrow> tcp_psh h"
   "tcp_flag_byte h AND push_bit 2 1 \<noteq> 0 \<longleftrightarrow> tcp_rst h"
   "tcp_flag_byte h AND push_bit 1 1 \<noteq> 0 \<longleftrightarrow> tcp_syn h"
   "tcp_flag_byte h AND push_bit 0 1 \<noteq> 0 \<longleftrightarrow> tcp_fin h"
  unfolding and_one_bit not_not tcp_flag_byte_def Let_def or_flag_bit by simp_all

lemma tcp_offset_byte_fields:
  assumes "tcp_compute_size h \<le> 60"
  shows "unat (drop_bit 4 (tcp_offset_byte h)) * 4 = tcp_compute_size h"
    and "tcp_offset_byte h AND 1 \<noteq> 0 \<longleftrightarrow> tcp_ns h"
proof -
  define d where "d = tcp_compute_size h div 4"
  have d: "d < 2 ^ 4" "d * 4 = tcp_compute_size h"
    using assms by (simp_all add: d_def tcp_compute_size_def Let_def)
  have hi: "\<not> bit (of_nat d :: u8) n" if "4 \<le> n" for n
    using d that by (intro bit_above_bound [of _ 4]) (simp_all add: unat_of_nat take_bit_nat_eq_self)
  have "drop_bit 4 (tcp_offset_byte h) = (of_nat d :: u8)"
    by (rule bit_word_eqI) (use hi in \<open>auto simp: tcp_offset_byte_def or_flag_def d_def [symmetric] bit_simps not_le [symmetric]\<close>)
  then show "unat (drop_bit 4 (tcp_offset_byte h)) * 4 = tcp_compute_size h"
    using d by (simp add: unat_of_nat take_bit_nat_eq_self)
  show "tcp_offset_byte h AND 1 \<noteq> 0 \<longleftrightarrow> tcp_ns h"
    using and_one_bit [of "tcp_offset_byte h" 0]
    by (simp add: tcp_offset_byte_def or_flag_def bit_simps)
qed

definition tcp_wf :: "tcp_header \<Rightarrow> bool" where
  "tcp_wf h \<longleftrightarrow> length (tcp_option_list h) = 5 \<and> tcp_num_options h \<le> 5 \<and>
     list_all tcp_option_wf (tcp_iter_options h) \<and> tcp_compute_size h \<le> 60"

text \<open>The receiver skips \<^verbatim>\<open>NoOperation\<close>; the rest of its array is unset.\<close>

definition tcp_norm :: "tcp_header \<Rightarrow> tcp_header" where
  "tcp_norm h = (let opts = filter (\<lambda>x. x \<noteq> NoOperation) (tcp_iter_options h)
     in h\<lparr>tcp_num_options := length opts, tcp_option_list := put 0 opts (replicate 5 NoOperation)\<rparr>)"

lemma tcp_compute_size_bounds:
  "20 \<le> tcp_compute_size h" "tcp_compute_size h mod 4 = 0"
  "tcp_num_options h = 0 \<Longrightarrow> tcp_compute_size h = 20"
  "0 < tcp_num_options h \<Longrightarrow>
     21 + sum_list (map tcp_option_compute_size (tcp_iter_options h)) \<le> tcp_compute_size h"
  by (auto simp: tcp_compute_size_def MIN_TCP_HEADER_SIZE_def tcp_iter_options_def Let_def)

lemma tcp_checksum_total:
  "20 \<le> length hdr \<Longrightarrow> length hdr mod 4 = 0 \<Longrightarrow> \<exists>c. tcp_checksum E ip hdr data = Ok c"
  by (auto simp: tcp_checksum_def MIN_TCP_HEADER_SIZE_def Let_def)

lemma add_words_cong:
  "(\<And>i. i \<in> set is \<Longrightarrow> bslice (2 * i) (2 * i + 2) buf = bslice (2 * i) (2 * i + 2) buf') \<Longrightarrow>
   add_words E buf s is = add_words E buf' s is"
  by (induction "is" arbitrary: s) simp_all

lemma tcp_checksum_put:
  assumes "length bs = 2" "20 \<le> length hdr"
  shows "tcp_checksum E ip (put 16 bs hdr) data = tcp_checksum E ip hdr data"
proof -
  have "add_words E (bslice 0 20 (put 16 bs hdr)) s [0..<8] = add_words E (bslice 0 20 hdr) s [0..<8]" for s
    using assms by (intro add_words_cong) (simp add: wire_simps)
  with assms show ?thesis
    by (simp add: tcp_checksum_def MIN_TCP_HEADER_SIZE_def Let_def bslice_slice
        bslice_put_after drop_put_beyond del: upt_rec_numeral)
qed

text \<open>The octets after the fixed header: the options, their end marker and the padding.\<close>

definition option_area :: "ext \<Rightarrow> tcp_header \<Rightarrow> bytes" where
  "option_area E h = (let n = sum_list (map tcp_option_compute_size (tcp_iter_options h))
     in concat (map (option_octets E) (tcp_iter_options h)) @ replicate (tcp_compute_size h - 20 - n) 0)"

text \<open>The fixed header as the serialiser leaves it before it adds the checksum.\<close>

definition fixed_header_of :: "ext \<Rightarrow> tcp_header \<Rightarrow> bytes \<Rightarrow> bytes" where
  "fixed_header_of E h b = put 18 (write_u16 E (tcp_urgent_pointer h))
     (put 14 (write_u16 E (tcp_window_size h))
       ((put 8 (write_u32 E (tcp_ack_num h)) (put 4 (write_u32 E (tcp_seq_num h))
          (put 2 (write_u16 E (tcp_dst_port h)) (put 0 (write_u16 E (tcp_src_port h)) b))))
        [12 := tcp_offset_byte h, 13 := tcp_flag_byte h]))"

context extern
begin

lemma length_fixed [simp]: "20 \<le> length b \<Longrightarrow> length (fixed_header_of E h b) = length b"
  by (simp add: fixed_header_of_def)

lemma fixed_header_fields:
  assumes "20 \<le> length b"
  shows "read_u16 E (bslice 0 2 (fixed_header_of E h b)) = tcp_src_port h"
    "read_u16 E (bslice 2 4 (fixed_header_of E h b)) = tcp_dst_port h"
    "read_u32 E (bslice 4 8 (fixed_header_of E h b)) = tcp_seq_num h"
    "read_u32 E (bslice 8 12 (fixed_header_of E h b)) = tcp_ack_num h"
    "fixed_header_of E h b ! 12 = tcp_offset_byte h"
    "fixed_header_of E h b ! 13 = tcp_flag_byte h"
    "read_u16 E (bslice 14 16 (fixed_header_of E h b)) = tcp_window_size h"
    "read_u16 E (bslice 18 20 (fixed_header_of E h b)) = tcp_urgent_pointer h"
  using assms by (simp_all add: fixed_header_of_def wire_simps)

lemma length_option_area:
  assumes "tcp_wf h"
  shows "length (option_area E h) = tcp_compute_size h - 20"
proof -
  have "sum_list (map tcp_option_compute_size (tcp_iter_options h)) \<le> tcp_compute_size h - 20"
    using tcp_compute_size_bounds [of h] by (cases "tcp_num_options h") (auto simp: tcp_iter_options_def)
  with assms show ?thesis by (simp add: option_area_def Let_def length_octets_list tcp_wf_def)
qed

lemma tcp_serialize_layout:
  assumes wf: "tcp_wf h" and len: "length b = tcp_compute_size h"
    and sum: "(if tx then Ok 0 else tcp_checksum E ip (take 20 (fixed_header_of E h b) @ option_area E h) data) = Ok c"
  shows "tcp_serialize E h b ip data tx
       = Ok (put 16 (write_u16 E c) (take 20 (fixed_header_of E h b) @ option_area E h))"
proof -
  let ?F = "fixed_header_of E h b"
  let ?os = "tcp_iter_options h"
  let ?n = "sum_list (map tcp_option_compute_size ?os)"
  let ?O = "concat (map (option_octets E) ?os)"
  note bnd = tcp_compute_size_bounds [of h]
  have F: "length ?F = tcp_compute_size h" using len bnd by simp
  have O: "length ?O = ?n" using wf by (intro length_octets_list) (simp add: tcp_wf_def)
  have n: "20 + ?n \<le> tcp_compute_size h"
    using bnd by (cases "tcp_num_options h") (auto simp: tcp_iter_options_def)
  have w: "tcp_write_options E 20 ?os ?F = Ok (put 20 ?O ?F, 20 + ?n)"
    using wf n F by (intro tcp_write_options_octets) (simp_all add: tcp_wf_def)
  have p: "put 20 ?O ?F = take 20 ?F @ ?O @ drop (20 + ?n) ?F" using O by (simp add: put_def)
  show ?thesis
  proof (cases "tcp_num_options h")
    case 0
    then have "?os = []" by (simp add: tcp_iter_options_def)
    with 0 bnd F w len sum show ?thesis
      by (simp add: tcp_serialize_def MIN_TCP_HEADER_SIZE_def Let_def
          fixed_header_of_def [symmetric] option_area_def split: if_splits)
  next
    case (Suc m)
    with bnd have n1: "21 + ?n \<le> tcp_compute_size h" by simp
    let ?B = "(put 20 ?O ?F)[20 + ?n := 0]"
    have "take (Suc (20 + ?n)) ?B = take (20 + ?n) (put 20 ?O ?F) @ [0]"
      using n1 F O by (intro take_Suc_update) simp
    also have "take (20 + ?n) (put 20 ?O ?F) = take 20 ?F @ ?O"
      using F n O by (simp add: p)
    finally have t: "take (Suc (20 + ?n)) ?B = take 20 ?F @ ?O @ [0]" by simp
    have z: "0 # replicate (tcp_compute_size h - Suc (20 + ?n)) 0 = replicate (tcp_compute_size h - 20 - ?n) (0 :: u8)"
      using n1 by (simp add: Suc_diff_Suc flip: replicate_Suc)
    have a: "take (Suc (20 + ?n)) ?B @ replicate (tcp_compute_size h - Suc (20 + ?n)) 0
        = take 20 ?F @ option_area E h"
      unfolding t option_area_def Let_def by (simp only: append_assoc append.simps z)
    have lB: "length ?B = tcp_compute_size h" using F n O by simp
    show ?thesis
      using wf Suc bnd w n1 sum len a lB
      by (simp add: tcp_serialize_def MIN_TCP_HEADER_SIZE_def Let_def tcp_wf_def
          fixed_header_of_def [symmetric] split: if_splits del: length_put)
  qed
qed


lemma tcp_read_option_area:
  assumes wf: "tcp_wf h"
  shows "(if 20 < tcp_compute_size h then tcp_read_options E (option_area E h) 0 (replicate 5 NoOperation)
          else Ok (0, replicate 5 NoOperation))
       = Ok (tcp_num_options (tcp_norm h), tcp_option_list (tcp_norm h))"
proof (cases "tcp_num_options h")
  case 0
  then have "tcp_iter_options h = []" by (simp add: tcp_iter_options_def)
  with 0 show ?thesis using tcp_compute_size_bounds(3) [of h] by (simp add: tcp_norm_def)
next
  case (Suc m)
  let ?n = "sum_list (map tcp_option_compute_size (tcp_iter_options h))"
  from Suc have n: "21 + ?n \<le> tcp_compute_size h" using tcp_compute_size_bounds(4) [of h] by simp
  then obtain k where k: "tcp_compute_size h - 20 - ?n = Suc k"
    by (metis Suc_diff_Suc diff_diff_left eval_nat_numeral(3) less_eq_Suc_le plus_1_eq_Suc semiring_norm(28) add_Suc)
  have "length (filter (\<lambda>x. x \<noteq> NoOperation) (tcp_iter_options h)) \<le> 5"
    using wf by (intro order_trans [OF length_filter_le]) (simp add: tcp_iter_options_def tcp_wf_def)
  then show ?thesis
    using tcp_read_options_octets [of "tcp_iter_options h" 0 "replicate 5 NoOperation" "replicate k 0"]
      wf n k by (simp add: option_area_def tcp_norm_def tcp_wf_def Let_def)
qed

lemma tcp_codec:
  assumes wf: "tcp_wf h" and off: "tx \<longrightarrow> rx" and b: "length b = tcp_compute_size h"
  shows "\<exists>bs. tcp_serialize E h b ip p tx = Ok bs \<and> length bs = tcp_compute_size h \<and>
              tcp_parse E ip (bs @ p) rx = Ok (tcp_norm h, p)"
proof -
  let ?L = "tcp_compute_size h"
  let ?F = "take 20 (fixed_header_of E h b)"
  let ?A = "option_area E h"
  note bnd = tcp_compute_size_bounds [of h]
  have L60: "?L \<le> 60" using wf by (simp add: tcp_wf_def)
  have F: "length ?F = 20" using b bnd by simp
  have l: "length (?F @ ?A) = ?L" using F bnd by (simp add: length_option_area [OF wf])
  obtain s where s: "tcp_checksum E ip (?F @ ?A) p = Ok s"
    using tcp_checksum_total [of "?F @ ?A"] l bnd by metis
  define c where "c = (if tx then 0 else s)"
  let ?bs = "put 16 (write_u16 E c) (?F @ ?A)"
  have ser: "tcp_serialize E h b ip p tx = Ok ?bs"
    by (rule tcp_serialize_layout [OF wf b]) (simp add: s c_def)
  have lb: "length ?bs = ?L" using l bnd by (simp del: length_append)
  have hdr: "take ?L (?bs @ p) = ?bs" "drop ?L (?bs @ p) = p" "buf_adjust E (?bs @ p) ?L = p"
    using lb by (simp_all add: adjust_drop del: length_put)
  have sum: "tcp_checksum E ip ?bs p = Ok s"
    using s l bnd by (simp add: tcp_checksum_put del: length_append)
  have slice: "bslice i j ?bs = bslice i j (fixed_header_of E h b)" if "j \<le> 16 \<or> 18 \<le> i \<and> j \<le> 20" for i j
    using that F l bnd b by (auto simp: wire_simps simp del: length_append intro!: bslice_take)
  have opts: "bslice 20 ?L ?bs = ?A"
    using F l by (simp add: bslice_put_after) (simp add: bslice_def length_option_area [OF wf])
  have nth: "?bs ! 12 = tcp_offset_byte h" "?bs ! 13 = tcp_flag_byte h" "(?bs @ p) ! 12 = tcp_offset_byte h"
    using F b bnd l lb fixed_header_fields(5,6) [of b h] by (simp_all add: nth_put_before nth_append)
  have w16: "read_u16 E (bslice 16 18 ?bs) = c" using F by (simp add: wire_simps)
  have chk: "\<not> rx \<Longrightarrow> c = s" using off by (simp add: c_def)
  note fields = fixed_header_fields [of b h, unfolded b, OF bnd(1)]
  have "tcp_parse E ip (?bs @ p) rx = Ok (tcp_norm h, p)"
    unfolding tcp_parse_def MIN_TCP_HEADER_SIZE_def MAX_TCP_HEADER_SIZE_def MAX_TCP_OPTIONS_def
      Let_def nth tcp_offset_byte_fields [OF L60] hdr opts tcp_read_option_area [OF wf] sum w16
      tcp_flag_byte_bits
    using L60 bnd(1) lb
    by (simp add: slice fields chk tcp_norm_def Let_def del: length_put)
  with ser lb show ?thesis by blast
qed

end


sublocale extern \<subseteq> tcp: wire_codec
  tcp_compute_size "\<lambda>h p b. tcp_serialize E h b ip p tx" "\<lambda>b. tcp_parse E ip b (tx \<or> rx)"
  "\<lambda>h p. tcp_wf h" "\<lambda>h p. tcp_norm h" for ip tx rx
  by unfold_locales (rule tcp_codec, auto)

section \<open>The parser never panics\<close>

lemma rdr_no_panic [simp]:
  "\<not> is_panic (rdr_u8 E bs)" "\<not> is_panic (rdr_u16 E bs)" "\<not> is_panic (rdr_u32 E bs)"
  by (cases bs; simp add: rdr_u16_def rdr_u32_def)+

lemma read_sacks_no_panic [simp]: "\<not> is_panic (read_sacks E n bs)"
  by (induction n arbitrary: bs) (auto simp: is_panic_bind split: prod.split)

lemma tcp_read_option_no_panic [simp]: "\<not> is_panic (tcp_read_option E k bs)"
  by (auto simp: tcp_read_option_def is_panic_bind Let_def split: prod.split)

lemma tcp_read_options_no_panic: "\<not> is_panic (tcp_read_options E bs n opts)"
  by (induction E bs n opts rule: tcp_read_options.induct) (auto simp: is_panic_bind)

lemma tcp_parse_no_panic: "\<not> is_panic (tcp_parse E ip buf off)"
proof -
  have "\<not> is_panic (tcp_checksum E ip (take (k * 4) buf) data)"
    if "20 \<le> k * 4" "k * 4 \<le> length buf" for k data
    using tcp_checksum_total [of "take (k * 4) buf" E ip data] that by auto
  then show ?thesis
    by (auto simp: tcp_parse_def MIN_TCP_HEADER_SIZE_def Let_def is_panic_bind
        tcp_read_options_no_panic not_less split: prod.split)
qed

section \<open>A whole frame\<close>

text \<open>The checksum reads only the addresses of the IPv4 header.\<close>

lemma tcp_parse_addrs:
  assumes "ip_src_addr ip = ip_src_addr ip'" "ip_dst_addr ip = ip_dst_addr ip'"
  shows "tcp_parse E ip buf off = tcp_parse E ip' buf off"
proof -
  have "tcp_checksum E ip = tcp_checksum E ip'"
    using assms by (intro ext) (simp add: tcp_checksum_def add_pseudo_header_def)
  then show ?thesis unfolding tcp_parse_def by (simp only:)
qed

definition tcp_segment_wf :: "tcp_segment \<Rightarrow> bool" where
  "tcp_segment_wf s \<longleftrightarrow> eth_wf (ts_ethernet2_hdr s) \<and> ipv4_wf (ts_ipv4_hdr s) [] \<and> tcp_wf (ts_tcp_hdr s) \<and>
     tcp_compute_size (ts_tcp_hdr s) + length (ts_data s) < 2 ^ 16 - 20"

context extern
begin

lemma tcp_segment_roundtrip:
  assumes wf: "tcp_segment_wf s" and b: "length b = tcp_segment_header_size s"
    and off: "ts_tx_checksum_offload s \<longrightarrow> rx"
  shows "\<exists>bs q ip' t. tcp_segment_write_header E s b = Ok bs \<and>
     ethernet2_parse E (bs @ ts_data s) = Ok (ts_ethernet2_hdr s, q) \<and>
     ipv4_parse E q = Ok (ip', t) \<and>
     ip_src_addr ip' = ip_src_addr (ts_ipv4_hdr s) \<and> ip_dst_addr ip' = ip_dst_addr (ts_ipv4_hdr s) \<and>
     ip_proto ip' = ip_proto (ts_ipv4_hdr s) \<and>
     tcp_parse E ip' t rx = Ok (tcp_norm (ts_tcp_hdr s), ts_data s)"
proof -
  let ?n = "tcp_compute_size (ts_tcp_hdr s)"
  have len: "length b = 14 + 20 + ?n"
    using b by (simp add: tcp_segment_header_size_def ethernet2_compute_size_def ipv4_compute_size_def
        ETHERNET2_HEADER_SIZE_def IPV4_HEADER_MIN_SIZE_def)
  obtain x where x: "tcp_serialize E (ts_tcp_hdr s) (bslice (14 + 20) (14 + 20 + ?n) b) (ts_ipv4_hdr s)
      (ts_data s) (ts_tx_checksum_offload s) = Ok x" "length x = ?n"
    "tcp_parse E (ts_ipv4_hdr s) (x @ ts_data s) rx = Ok (tcp_norm (ts_tcp_hdr s), ts_data s)"
    using tcp_codec [of "ts_tcp_hdr s" _ rx "bslice (14 + 20) (14 + 20 + ?n) b" "ts_ipv4_hdr s"] wf off len
    by (auto simp: tcp_segment_wf_def)
  have "ipv4_wf (ts_ipv4_hdr s) (x @ ts_data s)"
    using wf x(2) by (simp add: tcp_segment_wf_def ipv4_wf_def)
  from ipv4_codec [OF this, of "bslice 14 (14 + 20) b"] len x(2) obtain y c where
    y: "ipv4_serialize E (ts_ipv4_hdr s) (bslice 14 (14 + 20) b) (?n + length (ts_data s)) = Ok y" "length y = 20"
    "ipv4_parse E (y @ x @ ts_data s) = Ok ((ts_ipv4_hdr s)\<lparr>ip_total_length := 20 + of_nat (length (x @ ts_data s)),
       ip_header_checksum := c\<rparr>, x @ ts_data s)"
    by auto
  obtain z where z: "ethernet2_serialize E (ts_ethernet2_hdr s) (bslice 0 14 b) = Ok z" "length z = 14"
    "ethernet2_parse E (z @ y @ x @ ts_data s) = Ok (ts_ethernet2_hdr s, y @ x @ ts_data s)"
    using ethernet2_codec [of "ts_ethernet2_hdr s" "bslice 0 14 b" "y @ x @ ts_data s"] wf len
    by (auto simp: tcp_segment_wf_def)
  have "tcp_segment_write_header E s b = Ok (z @ y @ x)"
    unfolding tcp_segment_write_header_def ethernet2_compute_size_def ipv4_compute_size_def
      ETHERNET2_HEADER_SIZE_def IPV4_HEADER_MIN_SIZE_def Let_def
    by (rule on_slice_fill3) (use len x y z in simp_all)
  then show ?thesis
    using z(3) y(3) x(3) by (fastforce intro: tcp_parse_addrs [THEN trans])
qed

end

end
