(* ===== verification/Ttl_Cache.thy ===== *)
theory Ttl_Cache
  imports Prelude "HOL-Library.AList"
begin

text \<open>
  \<^verbatim>\<open>src/src/collections/hashttlcache/mod.rs\<close>: a map whose entries carry an expiration time.
  A \<^verbatim>\<open>HashMap\<close> is an association list with distinct keys, in the order in which iteration
  would visit them; \<^verbatim>\<open>Instant\<close> and \<^verbatim>\<open>Duration\<close> are numbers of nanoseconds.
\<close>

record 'v ttl_record =
  tr_value :: 'v
  tr_expiration :: "nat option"

definition has_expired :: "'v ttl_record \<Rightarrow> nat \<Rightarrow> bool" where
  "has_expired r now = (case tr_expiration r of Some e \<Rightarrow> now \<ge> e | None \<Rightarrow> False)"

record ('k, 'v) ttl_cache =
  tc_map :: "('k \<times> 'v ttl_record) list"
  tc_graveyard :: "('k \<times> 'v) list"
  tc_default_ttl :: "nat option"
  tc_clock :: nat

definition ttl_new :: "nat \<Rightarrow> nat option \<Rightarrow> ('k, 'v) ttl_cache res" where
  "ttl_new now default_ttl =
     (if default_ttl = Some 0 then Panic ''assertion failed''
      else Ok \<lparr>tc_map = [], tc_graveyard = [], tc_default_ttl = default_ttl, tc_clock = now\<rparr>)"

definition ttl_clear :: "('k, 'v) ttl_cache \<Rightarrow> ('k, 'v) ttl_cache" where
  "ttl_clear c = c\<lparr>tc_graveyard := [], tc_map := []\<rparr>"

definition ttl_advance_clock :: "nat \<Rightarrow> ('k, 'v) ttl_cache \<Rightarrow> ('k, 'v) ttl_cache res" where
  "ttl_advance_clock now c =
     (if now < tc_clock c then Panic ''assertion failed'' else Ok (c\<lparr>tc_clock := now\<rparr>))"

text \<open>The second loop of \<^verbatim>\<open>cleanup\<close>: bury the entries that the first one collected.\<close>

fun ttl_bury :: "'k list \<Rightarrow> ('k, 'v) ttl_cache \<Rightarrow> ('k, 'v) ttl_cache res" where
  "ttl_bury [] c = Ok c"
| "ttl_bury (k # ks) c =
     (case map_of (tc_map c) k of
        None \<Rightarrow> Panic ''called `Option::unwrap()` on a `None` value''
      | Some v \<Rightarrow> ttl_bury ks (c\<lparr>tc_map := AList.delete k (tc_map c),
                                tc_graveyard := AList.update k (tr_value v) (tc_graveyard c)\<rparr>))"

definition ttl_cleanup :: "('k, 'v) ttl_cache \<Rightarrow> ('k, 'v) ttl_cache res" where
  "ttl_cleanup c =
     (let dead_entries = map fst (filter (\<lambda>(k, v). has_expired v (tc_clock c)) (tc_map c))
      in ttl_bury dead_entries c)"

definition ttl_insert_with_ttl ::
    "'k \<Rightarrow> 'v \<Rightarrow> nat option \<Rightarrow> ('k, 'v) ttl_cache \<Rightarrow> (('k, 'v) ttl_cache \<times> 'v option) res" where
  "ttl_insert_with_ttl key value ttl c =
     (if ttl = Some 0 then Panic ''assertion failed''
      else
        let expiration = map_option (\<lambda>t. tc_clock c + t) ttl
        in res_bind (ttl_cleanup c) (\<lambda>c.
           let r = \<lparr>tr_value = value, tr_expiration = expiration\<rparr>;
               old = map_of (tc_map c) key
           in Ok (c\<lparr>tc_map := AList.update key r (tc_map c)\<rparr>, map_option tr_value old)))"

definition ttl_insert :: "'k \<Rightarrow> 'v \<Rightarrow> ('k, 'v) ttl_cache \<Rightarrow> (('k, 'v) ttl_cache \<times> 'v option) res" where
  "ttl_insert key value c = ttl_insert_with_ttl key value (tc_default_ttl c) c"

definition ttl_remove :: "'k \<Rightarrow> ('k, 'v) ttl_cache \<Rightarrow> (('k, 'v) ttl_cache \<times> 'v option) res" where
  "ttl_remove key c = Panic ''not yet implemented''"

definition ttl_get :: "('k, 'v) ttl_cache \<Rightarrow> 'k \<Rightarrow> 'v option" where
  "ttl_get c key = map_option tr_value (map_of (tc_map c) key)"

definition ttl_iter :: "('k, 'v) ttl_cache \<Rightarrow> ('k \<times> 'v) list" where
  "ttl_iter c = List.map_filter
     (\<lambda>(key, record). if has_expired record (tc_clock c) then None else Some (key, tr_value record))
     (tc_map c)"

section \<open>Invariant\<close>

definition ttl_ok :: "('k, 'v) ttl_cache \<Rightarrow> bool" where
  "ttl_ok c \<longleftrightarrow> distinct (map fst (tc_map c)) \<and> distinct (map fst (tc_graveyard c)) \<and>
     tc_default_ttl c \<noteq> Some 0"

lemma ttl_bury_spec:
  assumes "distinct (map fst (tc_map c))" "distinct (map fst (tc_graveyard c))"
    and "distinct ks" "set ks \<subseteq> fst ` set (tc_map c)"
  shows "\<exists>c'. ttl_bury ks c = Ok c' \<and> map_of (tc_map c') = map_of (tc_map c) |` (- set ks) \<and>
      distinct (map fst (tc_map c')) \<and> distinct (map fst (tc_graveyard c')) \<and>
      tc_clock c' = tc_clock c \<and> tc_default_ttl c' = tc_default_ttl c"
  using assms
proof (induction ks arbitrary: c)
  case Nil
  then show ?case by (simp add: restrict_map_def)
next
  case (Cons k ks)
  then obtain v where v: "map_of (tc_map c) k = Some v"
    by (fastforce simp: map_of_eq_None_iff image_iff dest: not_None_eq [THEN iffD1, rotated])
  let ?c = "c\<lparr>tc_map := AList.delete k (tc_map c),
      tc_graveyard := AList.update k (tr_value v) (tc_graveyard c)\<rparr>"
  have dk: "set ks \<subseteq> fst ` set (tc_map ?c)"
    using Cons.prems by (auto simp: dom_map_of_conv_image_fst [symmetric] delete_conv')
  obtain c' where "ttl_bury ks ?c = Ok c'" "map_of (tc_map c') = map_of (tc_map ?c) |` (- set ks)"
      "distinct (map fst (tc_map c'))" "distinct (map fst (tc_graveyard c'))"
      "tc_clock c' = tc_clock c" "tc_default_ttl c' = tc_default_ttl c"
    using Cons.IH [of ?c] Cons.prems dk by (auto simp: distinct_delete distinct_update)
  moreover have "map_of (tc_map ?c) |` (- set ks) = map_of (tc_map c) |` (- set (k # ks))"
    by (auto simp: delete_conv' restrict_map_def fun_eq_iff)
  ultimately show ?case using v by auto
qed

text \<open>\<^verbatim>\<open>cleanup\<close> never panics and removes exactly the entries that have expired.\<close>

lemma ttl_cleanup_spec:
  assumes "ttl_ok c"
  shows "\<exists>c'. ttl_cleanup c = Ok c' \<and> ttl_ok c' \<and> tc_clock c' = tc_clock c \<and>
      tc_default_ttl c' = tc_default_ttl c \<and>
      (\<forall>k. map_of (tc_map c') k = (case map_of (tc_map c) k of
          None \<Rightarrow> None | Some r \<Rightarrow> if has_expired r (tc_clock c) then None else Some r))"
proof -
  let ?dead = "map fst (filter (\<lambda>(k, v). has_expired v (tc_clock c)) (tc_map c))"
  have d: "distinct (map fst (tc_map c))" using assms by (simp add: ttl_ok_def)
  then have "distinct ?dead" by (rule distinct_map_filter)
  then obtain c' where c': "ttl_bury ?dead c = Ok c'"
      "map_of (tc_map c') = map_of (tc_map c) |` (- set ?dead)" "ttl_ok c'"
      "tc_clock c' = tc_clock c" "tc_default_ttl c' = tc_default_ttl c"
    using ttl_bury_spec [of c ?dead] assms by (force simp: ttl_ok_def)
  have "k \<in> set ?dead \<longleftrightarrow> (\<exists>r. map_of (tc_map c) k = Some r \<and> has_expired r (tc_clock c))" for k
    using d by (force simp: map_of_eq_Some_iff)
  then show ?thesis
    using c' by (auto simp: ttl_cleanup_def Let_def restrict_map_def split: option.split)
qed

lemma ttl_insert_with_ttl_spec:
  assumes "ttl_ok c" "ttl \<noteq> Some 0"
  shows "\<exists>c' old. ttl_insert_with_ttl k v ttl c = Ok (c', old) \<and> ttl_ok c' \<and>
      tc_clock c' = tc_clock c \<and> tc_default_ttl c' = tc_default_ttl c \<and>
      map_of (tc_map c') k = Some \<lparr>tr_value = v, tr_expiration = map_option ((+) (tc_clock c)) ttl\<rparr> \<and>
      (\<forall>j. j \<noteq> k \<longrightarrow> map_of (tc_map c') j = (case map_of (tc_map c) j of
          None \<Rightarrow> None | Some r \<Rightarrow> if has_expired r (tc_clock c) then None else Some r))"
  using ttl_cleanup_spec [OF assms(1)] assms(2)
  by (auto simp: ttl_insert_with_ttl_def Let_def ttl_ok_def update_conv' distinct_update)

lemma ttl_insert_spec:
  assumes "ttl_ok c"
  shows "\<exists>c' old. ttl_insert k v c = Ok (c', old) \<and> ttl_ok c' \<and> tc_clock c' = tc_clock c \<and>
      tc_default_ttl c' = tc_default_ttl c \<and> ttl_get c' k = Some v"
  using ttl_insert_with_ttl_spec [OF assms, of "tc_default_ttl c" k v] assms
  by (auto simp: ttl_insert_def ttl_get_def ttl_ok_def)

lemma ttl_iter_iff:
  "ttl_ok c \<Longrightarrow> (k, v) \<in> set (ttl_iter c) \<longleftrightarrow>
     (\<exists>r. map_of (tc_map c) k = Some r \<and> tr_value r = v \<and> \<not> has_expired r (tc_clock c))"
  by (force simp: ttl_iter_def ttl_ok_def map_filter_def split: if_splits)

end
