(* ===== verification/Arp_Cache.thy ===== *)
theory Arp_Cache
  imports Ttl_Cache
begin

text \<open>
  \<^verbatim>\<open>src/src/protocols/arp/cache/mod.rs\<close>: the table of link addresses, a TTL cache that can be
  switched off.  What the rest of the stack relies on is the locale \<open>link_table\<close>.
\<close>

definition DUMMY_MAC_ADDRESS :: mac_address where
  "DUMMY_MAC_ADDRESS = replicate 6 0"

record arp_record =
  link_addr :: mac_address

record arp_cache =
  ac_cache :: "(ipv4_addr, arp_record) ttl_cache"
  ac_disable :: bool

definition arp_cache_insert ::
    "ipv4_addr \<Rightarrow> mac_address \<Rightarrow> arp_cache \<Rightarrow> (arp_cache \<times> mac_address option) res" where
  "arp_cache_insert ipv4_addr mac c =
     res_bind (ttl_insert ipv4_addr \<lparr>link_addr = mac\<rparr> (ac_cache c)) (\<lambda>(cache, old).
       Ok (c\<lparr>ac_cache := cache\<rparr>, map_option link_addr old))"

text \<open>The loop over the initial values.\<close>

fun arp_cache_populate :: "(ipv4_addr \<times> mac_address) list \<Rightarrow> arp_cache \<Rightarrow> arp_cache res" where
  "arp_cache_populate [] c = Ok c"
| "arp_cache_populate ((k, v) # vs) c =
     res_bind (arp_cache_insert k v c) (\<lambda>(c, _). arp_cache_populate vs c)"

definition arp_cache_new ::
    "nat \<Rightarrow> nat option \<Rightarrow> (ipv4_addr \<times> mac_address) list option \<Rightarrow> bool \<Rightarrow> arp_cache res" where
  "arp_cache_new now default_ttl values disable =
     res_bind (ttl_new now default_ttl) (\<lambda>cache.
       let peer = \<lparr>ac_cache = cache, ac_disable = disable\<rparr>
       in case values of Some vs \<Rightarrow> arp_cache_populate vs peer | None \<Rightarrow> Ok peer)"

definition arp_cache_get :: "arp_cache \<Rightarrow> ipv4_addr \<Rightarrow> mac_address option" where
  "arp_cache_get c ipv4_addr =
     (if ac_disable c then Some DUMMY_MAC_ADDRESS
      else map_option link_addr (ttl_get (ac_cache c) ipv4_addr))"

definition arp_cache_advance_clock :: "nat \<Rightarrow> arp_cache \<Rightarrow> arp_cache res" where
  "arp_cache_advance_clock now c =
     res_bind (ttl_advance_clock now (ac_cache c)) (\<lambda>cache. Ok (c\<lparr>ac_cache := cache\<rparr>))"

definition arp_cache_clear :: "arp_cache \<Rightarrow> arp_cache" where
  "arp_cache_clear c = c\<lparr>ac_cache := ttl_clear (ac_cache c)\<rparr>"

definition arp_cache_export :: "arp_cache \<Rightarrow> (ipv4_addr \<times> mac_address) list" where
  "arp_cache_export c = fold (\<lambda>(k, v). AList.update k (link_addr v)) (ttl_iter (ac_cache c)) []"

section \<open>The contract of a table of link addresses\<close>

locale link_table =
  fixes look :: "'s \<Rightarrow> ipv4_addr \<Rightarrow> mac_address option"
    and learn :: "ipv4_addr \<Rightarrow> mac_address \<Rightarrow> 's \<Rightarrow> ('s \<times> mac_address option) res"
    and ok :: "'s \<Rightarrow> bool"
  assumes learn_total: "ok s \<Longrightarrow> \<exists>s' old. learn a m s = Ok (s', old)"
    and learn_ok: "ok s \<Longrightarrow> learn a m s = Ok (s', old) \<Longrightarrow> ok s'"
    and learn_look: "ok s \<Longrightarrow> learn a m s = Ok (s', old) \<Longrightarrow> look s' a = Some m"
begin

lemma learn_no_panic: "ok s \<Longrightarrow> \<not> is_panic (learn a m s)"
  using learn_total [of s a m] by auto

text \<open>The last announcement wins.\<close>

lemma relearn:
  assumes "ok s" "learn a m s = Ok (s', old)" "learn a m' s' = Ok (s'', old')"
  shows "look s'' a = Some m'"
  using learn_look learn_ok assms by blast

end

definition arp_cache_ok :: "arp_cache \<Rightarrow> bool" where
  "arp_cache_ok c \<longleftrightarrow> ttl_ok (ac_cache c) \<and> \<not> ac_disable c"

lemma arp_cache_insert_spec:
  assumes "ttl_ok (ac_cache c)"
  shows "\<exists>c' old. arp_cache_insert a m c = Ok (c', old) \<and> ttl_ok (ac_cache c') \<and>
     ac_disable c' = ac_disable c \<and> tc_default_ttl (ac_cache c') = tc_default_ttl (ac_cache c) \<and>
     ttl_get (ac_cache c') a = Some \<lparr>link_addr = m\<rparr>"
  using ttl_insert_spec [OF assms, of a "\<lparr>link_addr = m\<rparr>"] by (auto simp: arp_cache_insert_def)

interpretation arp_table: link_table arp_cache_get arp_cache_insert arp_cache_ok
proof
  fix s s' :: arp_cache and a m and old :: "mac_address option"
  assume ok: "arp_cache_ok s"
  from ok arp_cache_insert_spec [of s a m] obtain t o' where
    t: "arp_cache_insert a m s = Ok (t, o')" "ttl_ok (ac_cache t)" "ac_disable t = ac_disable s"
      "ttl_get (ac_cache t) a = Some \<lparr>link_addr = m\<rparr>" by (auto simp: arp_cache_ok_def)
  show "\<exists>s' old. arp_cache_insert a m s = Ok (s', old)" using t by blast
  assume "arp_cache_insert a m s = Ok (s', old)"
  with t ok show "arp_cache_ok s'" "arp_cache_get s' a = Some m"
    by (auto simp: arp_cache_ok_def arp_cache_get_def)
qed

text \<open>A cache that starts with a positive TTL is well formed, whatever it is populated with.\<close>

lemma arp_cache_populate_ok:
  "ttl_ok (ac_cache c) \<Longrightarrow>
   \<exists>c'. arp_cache_populate vs c = Ok c' \<and> ttl_ok (ac_cache c') \<and> ac_disable c' = ac_disable c"
proof (induction vs arbitrary: c)
  case (Cons kv vs)
  obtain k v where kv: "kv = (k, v)" by (cases kv)
  from arp_cache_insert_spec [OF Cons.prems, of k v] Cons.IH kv show ?case by fastforce
qed simp

lemma arp_cache_new_ok:
  "ttl \<noteq> Some 0 \<Longrightarrow> \<exists>c. arp_cache_new now ttl vs dis = Ok c \<and> ttl_ok (ac_cache c) \<and> ac_disable c = dis"
  using arp_cache_populate_ok [of "\<lparr>ac_cache = \<lparr>tc_map = [], tc_graveyard = [], tc_default_ttl = ttl,
      tc_clock = now\<rparr>, ac_disable = dis\<rparr>"]
  by (cases vs) (auto simp: arp_cache_new_def ttl_new_def ttl_ok_def)

end
