(* ===== verification/Arp_Peer.thy ===== *)
theory Arp_Peer
  imports Arp_Packet Arp_Cache
begin

text \<open>
  \<^verbatim>\<open>src/src/protocols/arp/peer.rs\<close>: the ARP peer.  A \<^verbatim>\<open>oneshot\<close> channel is a numbered cell: its
  sending end is the number, sending fills the cell.  An operation yields the new state, the
  messages it transmits and its result; the outer \<open>res\<close> is only for a panic.  The future
  that \<^verbatim>\<open>query\<close> returns is a state machine that is started once and then polled.
\<close>

record arp_peer =
  ap_cache :: arp_cache
  ap_waiters :: "(ipv4_addr \<times> nat) list"
  ap_cells :: "(nat \<times> mac_address) list"
  ap_next_cell :: nat
  ap_retry_count :: nat

definition arp_peer_new ::
    "nat \<Rightarrow> nat \<Rightarrow> (ipv4_addr \<times> mac_address) list \<Rightarrow> bool \<Rightarrow> nat \<Rightarrow> arp_peer res" where
  "arp_peer_new now cache_ttl initial_values disable_arp retry_count =
     res_bind (arp_cache_new now (Some cache_ttl) (Some initial_values) disable_arp) (\<lambda>cache.
       Ok \<lparr>ap_cache = cache, ap_waiters = [], ap_cells = [], ap_next_cell = 0,
           ap_retry_count = retry_count\<rparr>)"

definition arp_do_drop :: "ipv4_addr \<Rightarrow> arp_peer \<Rightarrow> arp_peer" where
  "arp_do_drop a p = p\<lparr>ap_waiters := AList.delete a (ap_waiters p)\<rparr>"

definition arp_do_insert :: "ipv4_addr \<Rightarrow> mac_address \<Rightarrow> arp_peer \<Rightarrow> arp_peer res" where
  "arp_do_insert a m p =
     (let p = (case map_of (ap_waiters p) a of
                 Some sender \<Rightarrow> p\<lparr>ap_waiters := AList.delete a (ap_waiters p),
                                 ap_cells := AList.update sender m (ap_cells p)\<rparr>
               | None \<Rightarrow> p)
      in res_bind (arp_cache_insert a m (ap_cache p)) (\<lambda>(cache, old). Ok (p\<lparr>ap_cache := cache\<rparr>)))"

definition arp_do_wait_link_addr :: "ipv4_addr \<Rightarrow> arp_peer \<Rightarrow> (arp_peer \<times> nat) res" where
  "arp_do_wait_link_addr a p =
     (let tx = ap_next_cell p;
          p = p\<lparr>ap_next_cell := Suc tx\<rparr>
      in case arp_cache_get (ap_cache p) a of
           Some m \<Rightarrow> Ok (p\<lparr>ap_cells := AList.update tx m (ap_cells p)\<rparr>, tx)
         | None \<Rightarrow>
             (if map_of (ap_waiters p) a = None
              then Ok (p\<lparr>ap_waiters := AList.update a tx (ap_waiters p)\<rparr>, tx)
              else Panic ''Duplicate waiter''))"

text \<open>One round of the background task.\<close>

definition arp_background_step :: "nat \<Rightarrow> arp_peer \<Rightarrow> arp_peer res" where
  "arp_background_step now p =
     res_bind (arp_cache_advance_clock now (ap_cache p)) (\<lambda>cache. Ok (p\<lparr>ap_cache := cache\<rparr>))"

definition arp_receive ::
    "ext \<Rightarrow> rt_addrs \<Rightarrow> bytes \<Rightarrow> arp_peer \<Rightarrow> (arp_peer \<times> arp_message list \<times> unit res) res" where
  "arp_receive E rt buf p =
     (case arp_parse E buf of
        Panic s \<Rightarrow> Panic s
      | Err e \<Rightarrow> Ok (p, [], Err e)
      | Ok header \<Rightarrow>
        let spa = arp_sender_protocol_addr header;
            sha = arp_sender_hardware_addr header;
            merge_flag = (arp_cache_get (ap_cache p) spa \<noteq> None)
        in res_bind (if merge_flag then arp_do_insert spa sha p else Ok p) (\<lambda>p.
           if arp_target_protocol_addr header \<noteq> rt_local_ipv4_addr rt then
             (if merge_flag then Ok (p, [], Ok ())
              else Ok (p, [], Err (Fail EBADMSG ''unrecognized IP address'')))
           else
             res_bind (if \<not> merge_flag then arp_do_insert spa sha p else Ok p) (\<lambda>p.
             case arp_operation header of
               Request \<Rightarrow>
                 (let reply = \<lparr>am_ethernet2_hdr = ethernet2_new sha (rt_local_link_addr rt) Arp,
                               am_header = arp_header_new Reply (rt_local_link_addr rt)
                                 (rt_local_ipv4_addr rt) sha spa\<rparr>
                  in Ok (p, [reply], Ok ()))
             | Reply \<Rightarrow>
                 res_bind (arp_cache_insert spa sha (ap_cache p)) (\<lambda>(cache, old).
                   Ok (p\<lparr>ap_cache := cache\<rparr>, [], Ok ())))))"

definition arp_try_query :: "arp_peer \<Rightarrow> ipv4_addr \<Rightarrow> mac_address option" where
  "arp_try_query p a = arp_cache_get (ap_cache p) a"

text \<open>The future of \<^verbatim>\<open>query\<close>: waiting on a cell in the \<open>i\<close>-th attempt, or done.\<close>

datatype arp_query = Waiting ipv4_addr nat nat | Resolved "mac_address res"

definition arp_request :: "ext \<Rightarrow> rt_addrs \<Rightarrow> ipv4_addr \<Rightarrow> arp_message" where
  "arp_request E rt a =
     \<lparr>am_ethernet2_hdr = ethernet2_new (mac_broadcast E) (rt_local_link_addr rt) Arp,
      am_header = arp_header_new Request (rt_local_link_addr rt) (rt_local_ipv4_addr rt)
        (mac_broadcast E) a\<rparr>"

definition arp_query_start ::
    "ext \<Rightarrow> rt_addrs \<Rightarrow> ipv4_addr \<Rightarrow> arp_peer \<Rightarrow> (arp_peer \<times> arp_message list \<times> arp_query) res" where
  "arp_query_start E rt a p =
     (case arp_cache_get (ap_cache p) a of
        Some m \<Rightarrow> Ok (p, [], Resolved (Ok m))
      | None \<Rightarrow> res_bind (arp_do_wait_link_addr a p) (\<lambda>(p, rx).
                  Ok (p, [arp_request E rt a], Waiting a rx 0)))"

text \<open>
  One poll.  \<open>timer\<close> says that the request timer has fired, \<open>pick\<close> which branch
  \<^verbatim>\<open>futures::select!\<close> takes when the cell is filled too.
\<close>

definition arp_query_poll ::
    "ext \<Rightarrow> rt_addrs \<Rightarrow> bool \<Rightarrow> bool \<Rightarrow> arp_query \<Rightarrow> arp_peer \<Rightarrow> arp_peer \<times> arp_message list \<times> arp_query" where
  "arp_query_poll E rt timer pick q p =
     (case q of
        Resolved r \<Rightarrow> (p, [], q)
      | Waiting a rx i \<Rightarrow>
        (case map_of (ap_cells p) rx of
           Some m \<Rightarrow>
             if timer \<and> pick
             then (if i < ap_retry_count p then (p, [arp_request E rt a], Waiting a rx (Suc i))
                   else (arp_do_drop a p, [], Resolved (Err (Fail ETIMEDOUT ''ARP query timeout''))))
             else (p, [], Resolved (Ok m))
         | None \<Rightarrow>
             if timer
             then (if i < ap_retry_count p then (p, [arp_request E rt a], Waiting a rx (Suc i))
                   else (arp_do_drop a p, [], Resolved (Err (Fail ETIMEDOUT ''ARP query timeout''))))
             else (p, [], q)))"

section \<open>Properties\<close>

definition arp_ok :: "arp_peer \<Rightarrow> bool" where
  "arp_ok p \<longleftrightarrow> arp_cache_ok (ap_cache p) \<and> distinct (map fst (ap_waiters p)) \<and>
     (\<forall>(a, n) \<in> set (ap_waiters p). n < ap_next_cell p)"

lemma arp_do_insert_spec:
  assumes "arp_ok p"
  shows "\<exists>p'. arp_do_insert a m p = Ok p' \<and> arp_ok p' \<and> arp_try_query p' a = Some m \<and>
     map_of (ap_waiters p') a = None \<and>
     (\<forall>n. map_of (ap_waiters p) a = Some n \<longrightarrow> map_of (ap_cells p') n = Some m)"
proof -
  have c: "arp_cache_ok (ap_cache p)" using assms by (simp add: arp_ok_def)
  from arp_table.learn_total [OF c, of a m] obtain c' old where
    ins: "arp_cache_insert a m (ap_cache p) = Ok (c', old)" by blast
  with c have "arp_cache_ok c'" "arp_cache_get c' a = Some m"
    using arp_table.learn_ok arp_table.learn_look by blast+
  moreover have "set (AList.delete a (ap_waiters p)) \<subseteq> set (ap_waiters p)"
    by (auto simp: AList.delete_eq)
  ultimately show ?thesis
    using ins assms
    by (cases "map_of (ap_waiters p) a"; simp add: arp_do_insert_def arp_ok_def arp_try_query_def
        delete_conv' update_conv' distinct_delete del: map_of_eq_Some_iff; blast)
qed

text \<open>What a well-formed message does, case by case as RFC 826 has them.\<close>

lemma arp_receive_cases:
  assumes "arp_ok p" "arp_parse E buf = Ok h"
  shows "\<exists>p' out r. arp_receive E rt buf p = Ok (p', out, r) \<and> arp_ok p' \<and>
    (if arp_target_protocol_addr h \<noteq> rt_local_ipv4_addr rt \<and>
        arp_try_query p (arp_sender_protocol_addr h) = None
     then p' = p \<and> out = [] \<and> r = Err (Fail EBADMSG ''unrecognized IP address'')
     else arp_try_query p' (arp_sender_protocol_addr h) = Some (arp_sender_hardware_addr h) \<and>
       map_of (ap_waiters p') (arp_sender_protocol_addr h) = None \<and> r = Ok () \<and>
       out = (if arp_target_protocol_addr h = rt_local_ipv4_addr rt \<and> arp_operation h = Request
              then [\<lparr>am_ethernet2_hdr = ethernet2_new (arp_sender_hardware_addr h) (rt_local_link_addr rt) Arp,
                     am_header = arp_header_new Reply (rt_local_link_addr rt) (rt_local_ipv4_addr rt)
                       (arp_sender_hardware_addr h) (arp_sender_protocol_addr h)\<rparr>]
              else []))"
proof -
  let ?a = "arp_sender_protocol_addr h" and ?m = "arp_sender_hardware_addr h"
  obtain p1 where p1: "arp_do_insert ?a ?m p = Ok p1" "arp_ok p1" "arp_try_query p1 ?a = Some ?m"
    "map_of (ap_waiters p1) ?a = None" using arp_do_insert_spec [OF assms(1)] by blast
  then have c: "arp_cache_ok (ap_cache p1)" by (simp add: arp_ok_def)
  from arp_table.learn_total [OF c, of ?a ?m] obtain c' old where
    ins: "arp_cache_insert ?a ?m (ap_cache p1) = Ok (c', old)" by blast
  with c have c': "arp_cache_ok c'" "arp_cache_get c' ?a = Some ?m"
    using arp_table.learn_ok arp_table.learn_look by blast+
  have p2: "arp_ok (p1\<lparr>ap_cache := c'\<rparr>)" using p1(2) c' by (simp add: arp_ok_def)
  show ?thesis
    using assms p1 ins c' p2
    by (cases "arp_operation h") (auto simp: arp_receive_def Let_def arp_try_query_def)
qed

text \<open>Repeated polls.\<close>

fun arp_query_run ::
    "ext \<Rightarrow> rt_addrs \<Rightarrow> (bool \<times> bool) list \<Rightarrow> arp_query \<Rightarrow> arp_peer \<Rightarrow> arp_peer \<times> arp_message list \<times> arp_query" where
  "arp_query_run E rt [] q p = (p, [], q)"
| "arp_query_run E rt ((timer, pick) # es) q p =
     (let (p, out, q) = arp_query_poll E rt timer pick q p;
          (p, out', q) = arp_query_run E rt es q p
      in (p, out @ out', q))"

lemma arp_query_run_resolved [simp]: "arp_query_run E rt es (Resolved r) p = (p, [], Resolved r)"
  by (induction es) (auto simp: arp_query_poll_def)

text \<open>Without an answer, every timeout but the last repeats the request.\<close>

lemma arp_query_timeouts:
  assumes "map_of (ap_cells p) rx = None" "i \<le> ap_retry_count p"
  shows "arp_query_run E rt (replicate (Suc (ap_retry_count p - i)) (True, b)) (Waiting a rx i) p
       = (arp_do_drop a p, replicate (ap_retry_count p - i) (arp_request E rt a),
          Resolved (Err (Fail ETIMEDOUT ''ARP query timeout'')))"
  using assms
proof (induction "ap_retry_count p - i" arbitrary: i)
  case 0
  then show ?case by (simp add: arp_query_poll_def)
next
  case (Suc n)
  then have i: "i < ap_retry_count p" and n: "n = ap_retry_count p - Suc i" by simp_all
  from Suc.hyps(1) [OF n Suc.prems(1)] i n
  have "arp_query_run E rt (replicate (Suc n) (True, b)) (Waiting a rx (Suc i)) p
      = (arp_do_drop a p, replicate n (arp_request E rt a),
          Resolved (Err (Fail ETIMEDOUT ''ARP query timeout'')))" by simp
  then show ?case using i Suc.prems(1) unfolding Suc.hyps(2) [symmetric]
    by (simp add: arp_query_poll_def)
qed

end
