(* ===== verification/Socket_Table.thy ===== *)
theory Socket_Table
  imports Prelude
begin

text \<open>
  The relation between the two tables that a transport keeps: descriptors to the address a
  socket is bound to, and bound addresses to the object that serves them.
\<close>

type_synonym socket_addr = "ipv4_addr \<times> u16"
type_synonym qdesc = nat

definition tables_match :: "('q \<Rightarrow> 'a option option) \<Rightarrow> ('a \<Rightarrow> 'r option) \<Rightarrow> bool" where
  "tables_match S B \<longleftrightarrow>
     (\<forall>q a. S q = Some (Some a) \<longrightarrow> B a \<noteq> None) \<and>
     (\<forall>a. B a \<noteq> None \<longrightarrow> (\<exists>q. S q = Some (Some a))) \<and>
     (\<forall>q q' a. S q = Some (Some a) \<longrightarrow> S q' = Some (Some a) \<longrightarrow> q = q') \<and>
     (\<forall>a b r. B a = Some r \<longrightarrow> B b = Some r \<longrightarrow> a = b)"

lemma tables_match_open: "tables_match S B \<Longrightarrow> S q = None \<Longrightarrow> tables_match (S(q \<mapsto> None)) B"
  unfolding tables_match_def by (intro conjI; simp; metis option.distinct(1))

lemma tables_match_bind:
  "tables_match S B \<Longrightarrow> S q = Some None \<Longrightarrow> B a = None \<Longrightarrow> r \<notin> ran B \<Longrightarrow>
   tables_match (S(q \<mapsto> Some a)) (B(a \<mapsto> r))"
  unfolding tables_match_def ran_def by (intro conjI; auto; metis option.distinct(1) option.inject)

lemma tables_match_close_unbound:
  "tables_match S B \<Longrightarrow> S q = Some None \<Longrightarrow> tables_match (S(q := None)) B"
  unfolding tables_match_def by (intro conjI; auto; metis option.distinct(1) option.inject)

lemma tables_match_close:
  "tables_match S B \<Longrightarrow> S q = Some (Some a) \<Longrightarrow> tables_match (S(q := None)) (B(a := None))"
  unfolding tables_match_def by (intro conjI; auto; metis option.distinct(1) option.inject)

end
