(* ===== verification/Shared_Queue.thy ===== *)
theory Shared_Queue
  imports Prelude
begin

text \<open>
  \<^verbatim>\<open>src/src/protocols/udp/queue.rs\<close>: the bounded queue between the UDP peer and its sockets.
  The channel is \<^verbatim>\<open>futures::channel::mpsc\<close>, a parameter: a record of its operations, with the
  documented behaviour in the locale \<open>mpsc\<close>.  \<^verbatim>\<open>push\<close> may loop forever, so it is a partial
  function.
\<close>

datatype 'a next_msg = Msg 'a | Closed | NoMsg

record ('c, 'a) chan =
  ch_new :: "nat \<Rightarrow> 'c"
  ch_try_send :: "'a \<Rightarrow> 'c \<Rightarrow> 'c option"
  ch_try_next :: "'c \<Rightarrow> 'c \<times> 'a next_msg"

record 'c shared_queue =
  sq_chan :: 'c
  sq_length :: nat
  sq_capacity :: nat

definition sq_new :: "('c, 'a) chan \<Rightarrow> nat \<Rightarrow> 'c shared_queue" where
  "sq_new C n = \<lparr>sq_chan = ch_new C n, sq_length = 0, sq_capacity = n\<rparr>"

definition sq_try_pop :: "('c, 'a) chan \<Rightarrow> 'c shared_queue \<Rightarrow> 'c shared_queue \<times> 'a option res" where
  "sq_try_pop C q =
     (case ch_try_next C (sq_chan q) of
        (ch, Msg m) \<Rightarrow> (q\<lparr>sq_chan := ch, sq_length := sq_length q - 1\<rparr>, Ok (Some m))
      | (ch, Closed) \<Rightarrow> (q\<lparr>sq_chan := ch\<rparr>, Err (Fail EIO ''failed to pop from shared queue''))
      | (ch, NoMsg) \<Rightarrow> (q\<lparr>sq_chan := ch\<rparr>, Ok None))"

text \<open>\<^verbatim>\<open>while *self.length.borrow() >= self.capacity / 2 { self.try_pop(); }\<close>\<close>

partial_function (option) sq_drain ::
    "('c, 'a) chan \<Rightarrow> 'c shared_queue \<Rightarrow> 'c shared_queue option" where
  "sq_drain C q =
     (if sq_length q \<ge> sq_capacity q div 2 then sq_drain C (fst (sq_try_pop C q)) else Some q)"

definition sq_push ::
    "('c, 'a) chan \<Rightarrow> 'a \<Rightarrow> 'c shared_queue \<Rightarrow> ('c shared_queue \<times> unit res) option" where
  "sq_push C msg q =
     Option.bind (if sq_length q = sq_capacity q then sq_drain C q else Some q) (\<lambda>q.
       case ch_try_send C msg (sq_chan q) of
         Some ch \<Rightarrow> Some (q\<lparr>sq_chan := ch, sq_length := sq_length q + 1\<rparr>, Ok ())
       | None \<Rightarrow> Some (q, Err (Fail EIO ''failed to push to shared queue'')))"

text \<open>One poll of \<^verbatim>\<open>pop\<close>: \<open>None\<close> is pending.\<close>

definition sq_pop_poll :: "('c, 'a) chan \<Rightarrow> 'c shared_queue \<Rightarrow> 'c shared_queue \<times> 'a res option" where
  "sq_pop_poll C q =
     (case ch_try_next C (sq_chan q) of
        (ch, Msg m) \<Rightarrow> (q\<lparr>sq_chan := ch, sq_length := sq_length q - 1\<rparr>, Some (Ok m))
      | (ch, Closed) \<Rightarrow> (q\<lparr>sq_chan := ch\<rparr>, Some (Err (Fail EIO ''failed to pop from shared queue'')))
      | (ch, NoMsg) \<Rightarrow> (q\<lparr>sq_chan := ch\<rparr>, None))"

text \<open>The counter agrees with the channel.\<close>

definition sq_ok :: "('c \<Rightarrow> 'a list) \<Rightarrow> ('c \<Rightarrow> nat) \<Rightarrow> 'c shared_queue \<Rightarrow> bool" where
  "sq_ok items cap q \<longleftrightarrow> sq_length q = length (items (sq_chan q)) \<and> cap (sq_chan q) = sq_capacity q \<and>
     sq_length q \<le> sq_capacity q"

section \<open>What is documented of the channel\<close>

text \<open>
  Messages come out in the order in which they went in, and a message can be sent while fewer
  than the requested number are queued.  Both ends are owned by the queue, so the channel is
  never closed.
\<close>

locale mpsc =
  fixes C :: "('c, 'a) chan"
    and items :: "'c \<Rightarrow> 'a list"
    and cap :: "'c \<Rightarrow> nat"
  assumes new_empty: "items (ch_new C n) = []" "cap (ch_new C n) = n"
    and send_room: "length (items c) < cap c \<Longrightarrow>
        \<exists>c'. ch_try_send C m c = Some c' \<and> items c' = items c @ [m] \<and> cap c' = cap c"
    and next_msg: "items c = m # ms \<Longrightarrow>
        \<exists>c'. ch_try_next C c = (c', Msg m) \<and> items c' = ms \<and> cap c' = cap c"
    and next_none: "items c = [] \<Longrightarrow>
        \<exists>c'. ch_try_next C c = (c', NoMsg) \<and> items c' = [] \<and> cap c' = cap c"
begin

lemma sq_new_ok: "sq_ok items cap (sq_new C n)" "items (sq_chan (sq_new C n)) = []"
  by (simp_all add: sq_ok_def sq_new_def new_empty)

lemma sq_try_pop_cons:
  assumes "sq_ok items cap q" "items (sq_chan q) = m # ms"
  shows "\<exists>q'. sq_try_pop C q = (q', Ok (Some m)) \<and> items (sq_chan q') = ms \<and> sq_ok items cap q' \<and>
    sq_capacity q' = sq_capacity q \<and> sq_length q' = sq_length q - 1"
  using assms next_msg [of "sq_chan q" m ms] by (auto simp: sq_try_pop_def sq_ok_def)

lemma sq_try_pop_nil:
  assumes "sq_ok items cap q" "items (sq_chan q) = []"
  shows "\<exists>q'. sq_try_pop C q = (q', Ok None) \<and> items (sq_chan q') = [] \<and> sq_ok items cap q' \<and>
    sq_capacity q' = sq_capacity q \<and> sq_length q' = sq_length q"
  using assms next_none [of "sq_chan q"] by (auto simp: sq_try_pop_def sq_ok_def)

text \<open>With room for two messages or more the loop ends, and keeps the newest.\<close>

lemma sq_drain_ends:
  assumes "sq_ok items cap q" "2 \<le> sq_capacity q"
  shows "\<exists>q'. sq_drain C q = Some q' \<and> sq_ok items cap q' \<and> sq_capacity q' = sq_capacity q \<and>
     items (sq_chan q') = drop (sq_length q + 1 - sq_capacity q div 2) (items (sq_chan q))"
  using assms
proof (induction "sq_length q" arbitrary: q)
  case 0
  then show ?case by (subst sq_drain.simps) auto
next
  case (Suc n)
  show ?case
  proof (cases "sq_length q \<ge> sq_capacity q div 2")
    case True
    from Suc obtain m ms where ms: "items (sq_chan q) = m # ms"
      by (cases "items (sq_chan q)") (auto simp: sq_ok_def)
    from sq_try_pop_cons [OF Suc.prems(1) ms] obtain q1 where
      q1: "sq_try_pop C q = (q1, Ok (Some m))" "items (sq_chan q1) = ms" "sq_ok items cap q1"
        "sq_capacity q1 = sq_capacity q" "sq_length q1 = sq_length q - 1" by blast
    with Suc.hyps Suc.prems(2) have n: "n = sq_length q1" "2 \<le> sq_capacity q1" by simp_all
    have "sq_length q + 1 - sq_capacity q div 2 = Suc (sq_length q1 + 1 - sq_capacity q1 div 2)"
      using True q1 Suc.hyps(2) by simp
    with Suc.hyps(1) [OF n(1) q1(3) n(2)] q1 ms True show ?thesis
      by (subst sq_drain.simps) simp
  next
    case False
    then show ?thesis using Suc.prems by (subst sq_drain.simps) auto
  qed
qed

lemma sq_push_total:
  assumes "sq_ok items cap q" "2 \<le> sq_capacity q"
  shows "\<exists>q'. sq_push C m q = Some (q', Ok ()) \<and> sq_ok items cap q' \<and> sq_capacity q' = sq_capacity q \<and>
     items (sq_chan q') = (if sq_length q = sq_capacity q
        then drop (sq_capacity q + 1 - sq_capacity q div 2) (items (sq_chan q)) @ [m]
        else items (sq_chan q) @ [m])"
proof (cases "sq_length q = sq_capacity q")
  case True
  from sq_drain_ends [OF assms] obtain q1 where
    q1: "sq_drain C q = Some q1" "sq_ok items cap q1" "sq_capacity q1 = sq_capacity q"
      "items (sq_chan q1) = drop (sq_capacity q + 1 - sq_capacity q div 2) (items (sq_chan q))" unfolding True by blast
  then have "length (items (sq_chan q1)) < sq_capacity q"
    using assms True by (auto simp: sq_ok_def)
  with send_room [of "sq_chan q1" m] q1 True show ?thesis by (auto simp: sq_push_def sq_ok_def)
next
  case False
  with assms have "length (items (sq_chan q)) < sq_capacity q" by (auto simp: sq_ok_def)
  with send_room [of "sq_chan q" m] assms False show ?thesis by (auto simp: sq_push_def sq_ok_def)
qed

end

text \<open>With a capacity below two the loop cannot end: its bound is zero.\<close>

lemma sq_drain_loops: "sq_drain C q = Some r \<Longrightarrow> 2 \<le> sq_capacity q"
proof (induction rule: sq_drain.raw_induct [rotated, consumes 1])
  fix f C q r
  assume IH: "\<And>C q r. f C q = Some r \<Longrightarrow> 2 \<le> sq_capacity q"
    and eq: "(if sq_capacity q div 2 \<le> sq_length q then f C (fst (sq_try_pop C q)) else Some q) = Some r"
  have "sq_capacity (fst (sq_try_pop C q)) = sq_capacity q"
    by (auto simp: sq_try_pop_def split: prod.split next_msg.split)
  with IH [of C "fst (sq_try_pop C q)" r] eq show "2 \<le> sq_capacity q"
    by (auto split: if_splits)
qed

section \<open>The documented channel\<close>

record 'a list_chan =
  lc_items :: "'a list"
  lc_size :: nat

definition documented_chan :: "('a list_chan, 'a) chan" where
  "documented_chan = \<lparr>
     ch_new = (\<lambda>n. \<lparr>lc_items = [], lc_size = n\<rparr>),
     ch_try_send = (\<lambda>m c. if length (lc_items c) \<le> lc_size c
                          then Some (c\<lparr>lc_items := lc_items c @ [m]\<rparr>) else None),
     ch_try_next = (\<lambda>c. case lc_items c of
                          [] \<Rightarrow> (c, NoMsg) | m # ms \<Rightarrow> (c\<lparr>lc_items := ms\<rparr>, Msg m))\<rparr>"

interpretation doc_chan: mpsc documented_chan lc_items lc_size
  by unfold_locales (auto simp: documented_chan_def)

end
