(* ===== verification/Ephemeral_Ports.thy ===== *)
theory Ephemeral_Ports
  imports Prelude "HOL-Library.Multiset"
begin

text \<open>
  \<^verbatim>\<open>src/src/protocols/ip/ephemeral.rs\<close>: the pool of ephemeral ports that the UDP and TCP peers
  draw from.  \<^verbatim>\<open>Vec<u16>\<close> is a list whose last element is popped first; \<^verbatim>\<open>shuffle\<close> of the crate
  \<^verbatim>\<open>rand\<close> is a parameter.  What the peers rely on is the locale \<open>port_pool\<close>: the pool
  behaves as a set of free ports.
\<close>

definition FIRST_PRIVATE_PORT :: u16 where "FIRST_PRIVATE_PORT = 49152"
definition LAST_PRIVATE_PORT :: u16 where "LAST_PRIVATE_PORT = 65535"

record ephemeral_ports =
  ports :: "u16 list"

definition ephemeral_new :: "(u16 list \<Rightarrow> u16 list) \<Rightarrow> ephemeral_ports" where
  "ephemeral_new shuffle =
     (let ps = map of_nat [unat FIRST_PRIVATE_PORT ..< unat LAST_PRIVATE_PORT]
      in \<lparr>ports = shuffle ps\<rparr>)"

definition first_private_port :: u16 where
  "first_private_port = FIRST_PRIVATE_PORT"

definition is_private :: "u16 \<Rightarrow> bool" where
  "is_private port \<longleftrightarrow> port \<ge> FIRST_PRIVATE_PORT"

definition alloc_any :: "ephemeral_ports \<Rightarrow> ephemeral_ports \<times> u16 res" where
  "alloc_any p =
     (case ports p of
        [] \<Rightarrow> (p, Err (Fail EADDRINUSE
                ''all port numbers in the ephemeral port range are currently in use''))
      | ps \<Rightarrow> (p\<lparr>ports := butlast ps\<rparr>, Ok (last ps)))"

definition alloc_port :: "u16 \<Rightarrow> ephemeral_ports \<Rightarrow> ephemeral_ports \<times> unit res" where
  "alloc_port port p =
     (if port \<notin> set (ports p) then (p, Err (Fail ENOENT ''port number not found''))
      else (p\<lparr>ports := filter (\<lambda>q. q \<noteq> port) (ports p)\<rparr>, Ok ()))"

definition free :: "u16 \<Rightarrow> ephemeral_ports \<Rightarrow> ephemeral_ports" where
  "free port p = p\<lparr>ports := ports p @ [port]\<rparr>"

section \<open>The contract\<close>

locale port_pool =
  fixes avail :: "'p \<Rightarrow> u16 set"
    and ok :: "'p \<Rightarrow> bool"
    and any :: "'p \<Rightarrow> 'p \<times> u16 res"
    and this_one :: "u16 \<Rightarrow> 'p \<Rightarrow> 'p \<times> unit res"
    and give_back :: "u16 \<Rightarrow> 'p \<Rightarrow> 'p"
  assumes any_takes: "ok p \<Longrightarrow> avail p \<noteq> {} \<Longrightarrow>
        \<exists>p' x. any p = (p', Ok x) \<and> x \<in> avail p \<and> avail p' = avail p - {x} \<and> ok p'"
    and any_empty: "ok p \<Longrightarrow> avail p = {} \<Longrightarrow> \<exists>m. any p = (p, Err (Fail EADDRINUSE m))"
    and this_takes: "ok p \<Longrightarrow> x \<in> avail p \<Longrightarrow>
        \<exists>p'. this_one x p = (p', Ok ()) \<and> avail p' = avail p - {x} \<and> ok p'"
    and this_missing: "ok p \<Longrightarrow> x \<notin> avail p \<Longrightarrow> \<exists>m. this_one x p = (p, Err (Fail ENOENT m))"
    and give_back_adds: "ok p \<Longrightarrow> x \<notin> avail p \<Longrightarrow>
        avail (give_back x p) = insert x (avail p) \<and> ok (give_back x p)"
begin

lemma any_Ok: "ok p \<Longrightarrow> any p = (p', Ok x) \<Longrightarrow> x \<in> avail p \<and> avail p' = avail p - {x} \<and> ok p'"
  using any_takes [of p] any_empty [of p] by (cases "avail p = {}") auto

lemma this_Ok: "ok p \<Longrightarrow> this_one x p = (p', Ok u) \<Longrightarrow> x \<in> avail p \<and> avail p' = avail p - {x} \<and> ok p'"
  using this_takes [of p x] this_missing [of p x] by (cases "x \<in> avail p") auto

lemma give_back_any:
  "ok p \<Longrightarrow> any p = (p', Ok x) \<Longrightarrow> avail (give_back x p') = avail p \<and> ok (give_back x p')"
  using any_Ok [of p p' x] give_back_adds [of p' x] by auto

text \<open>Ports that are drawn one after the other are different.\<close>

lemma draw_twice: "ok p \<Longrightarrow> any p = (p', Ok x) \<Longrightarrow> any p' = (p'', Ok y) \<Longrightarrow> x \<noteq> y"
  using any_Ok [of p p' x] any_Ok [of p' p'' y] by auto

end

section \<open>The pool meets it\<close>

definition pool_ok :: "ephemeral_ports \<Rightarrow> bool" where
  "pool_ok p \<longleftrightarrow> distinct (ports p)"

interpretation ep: port_pool "\<lambda>p. set (ports p)" pool_ok alloc_any alloc_port free
proof
  fix p :: ephemeral_ports and x
  show "\<exists>p' x. alloc_any p = (p', Ok x) \<and> x \<in> set (ports p) \<and> set (ports p') = set (ports p) - {x} \<and> pool_ok p'"
    if okp: "pool_ok p" and ne: "set (ports p) \<noteq> {}"
  proof -
    obtain ps y where ps: "ports p = ps @ [y]" using ne by (cases "ports p" rule: rev_cases) auto
    then have "alloc_any p = (p\<lparr>ports := ps\<rparr>, Ok y)" by (cases ps) (simp_all add: alloc_any_def)
    then show ?thesis using okp ps by (auto simp: pool_ok_def)
  qed
  show "\<exists>m. alloc_any p = (p, Err (Fail EADDRINUSE m))" if "set (ports p) = {}"
    using that by (simp add: alloc_any_def)
  show "\<exists>p'. alloc_port x p = (p', Ok ()) \<and> set (ports p') = set (ports p) - {x} \<and> pool_ok p'"
    if "pool_ok p" "x \<in> set (ports p)"
    using that by (auto simp: alloc_port_def pool_ok_def)
  show "\<exists>m. alloc_port x p = (p, Err (Fail ENOENT m))" if "x \<notin> set (ports p)"
    using that by (simp add: alloc_port_def)
  show "set (ports (free x p)) = insert x (set (ports p)) \<and> pool_ok (free x p)"
    if "pool_ok p" "x \<notin> set (ports p)"
    using that by (simp add: free_def pool_ok_def)
qed

text \<open>The pool starts with every private port but the last.\<close>

lemma ephemeral_new_ports:
  assumes "\<And>xs. mset (shuffle xs) = mset xs"
  shows "pool_ok (ephemeral_new shuffle)"
    and "x \<in> set (ports (ephemeral_new shuffle)) \<longleftrightarrow> is_private x \<and> x \<noteq> 65535"
proof -
  let ?ps = "map of_nat [49152..<65535] :: u16 list"
  have inj: "inj_on (of_nat :: nat \<Rightarrow> u16) {49152..<65535}"
    by (auto simp: inj_on_def word_of_nat_eq_iff take_bit_nat_eq_self)
  have "distinct ?ps" using inj by (simp only: distinct_map distinct_upt set_upt simp_thms)
  then show "pool_ok (ephemeral_new shuffle)"
    using assms [of ?ps] mset_eq_imp_distinct_iff [of "shuffle ?ps" ?ps]
    by (simp add: pool_ok_def ephemeral_new_def FIRST_PRIVATE_PORT_def LAST_PRIVATE_PORT_def del: upt_rec_numeral)
  have set: "set (ports (ephemeral_new shuffle)) = of_nat ` {49152..<65535}"
    using mset_eq_setD [OF assms [of ?ps]]
    by (simp add: ephemeral_new_def FIRST_PRIVATE_PORT_def LAST_PRIVATE_PORT_def del: upt_rec_numeral)
  have "x \<in> of_nat ` {49152..<65535} \<longleftrightarrow> 49152 \<le> unat x \<and> unat x < 65535"
  proof
    assume "x \<in> of_nat ` {49152..<65535}"
    then obtain n :: nat where "49152 \<le> n" "n < 65535" "x = of_nat n" by auto
    then show "49152 \<le> unat x \<and> unat x < 65535" by (simp add: unat_of_nat take_bit_nat_eq_self)
  next
    assume "49152 \<le> unat x \<and> unat x < 65535"
    then have "unat x \<in> {49152..<65535}" by simp
    then show "x \<in> of_nat ` {49152..<65535}" by (rule rev_image_eqI) simp
  qed
  moreover have "unat x < 65536" using unsigned_less [of x] by simp
  ultimately show "x \<in> set (ports (ephemeral_new shuffle)) \<longleftrightarrow> is_private x \<and> x \<noteq> 65535"
    unfolding set by (simp add: is_private_def FIRST_PRIVATE_PORT_def word_le_nat_alt word_unat_eq_iff) linarith
qed

end
