(* ===== verification/Udp_Peer.thy ===== *)
theory Udp_Peer
  imports Socket_Table Udp_Header Shared_Queue Ephemeral_Ports Arp_Cache
begin

text \<open>
  \<^verbatim>\<open>src/src/protocols/udp/peer.rs\<close> and \<^verbatim>\<open>src/src/protocols/udp/futures/pop.rs\<close>: UDP sockets.
  The receive queues are shared by reference between the peer and the pop futures, so they live
  in a store and \<^verbatim>\<open>bound\<close> maps an address to a reference.  The ARP table is the argument \<open>arp\<close>.
  \<open>None\<close> is an operation that does not return.
\<close>

record slot =
  slot_local :: socket_addr
  slot_remote :: socket_addr
  slot_data :: bytes

definition RECV_QUEUE_MAX_SIZE :: nat where "RECV_QUEUE_MAX_SIZE = 1024"
definition SEND_QUEUE_MAX_SIZE :: nat where "SEND_QUEUE_MAX_SIZE = 1024"

record 'c udp_peer =
  up_ephemeral_ports :: ephemeral_ports
  up_sockets :: "(qdesc \<times> socket_addr option) list"
  up_bound :: "(socket_addr \<times> nat) list"
  up_store :: "(nat \<times> 'c shared_queue) list"
  up_next_ref :: nat
  up_send_queue :: "'c shared_queue"
  up_local_link_addr :: mac_address
  up_local_ipv4_addr :: ipv4_addr
  up_checksum_offload :: bool

definition udp_peer_new ::
    "('c, slot) chan \<Rightarrow> (u16 list \<Rightarrow> u16 list) \<Rightarrow> mac_address \<Rightarrow> ipv4_addr \<Rightarrow> bool \<Rightarrow> 'c udp_peer" where
  "udp_peer_new C shuffle local_link local_ipv4 offload_checksum = \<lparr>
     up_ephemeral_ports = ephemeral_new shuffle, up_sockets = [], up_bound = [], up_store = [],
     up_next_ref = 0, up_send_queue = sq_new C SEND_QUEUE_MAX_SIZE,
     up_local_link_addr = local_link, up_local_ipv4_addr = local_ipv4,
     up_checksum_offload = offload_checksum\<rparr>"

definition udp_do_send ::
    "ipv4_addr \<Rightarrow> mac_address \<Rightarrow> mac_address \<Rightarrow> bytes \<Rightarrow> socket_addr \<Rightarrow> socket_addr \<Rightarrow> bool \<Rightarrow> udp_datagram" where
  "udp_do_send local_ipv4 local_link remote_link buf local remote offload_checksum = \<lparr>
     ud_ethernet2_hdr = ethernet2_new remote_link local_link Ipv4,
     ud_ipv4_hdr = ipv4_new local_ipv4 (fst remote) UDP,
     ud_udp_hdr = udp_header_new (snd local) (snd remote),
     ud_data = buf,
     ud_checksum_offload = offload_checksum\<rparr>"

definition udp_do_socket :: "qdesc \<Rightarrow> 'c udp_peer \<Rightarrow> 'c udp_peer \<times> unit res" where
  "udp_do_socket qd p =
     (if map_of (up_sockets p) qd = None
      then (p\<lparr>up_sockets := AList.update qd None (up_sockets p)\<rparr>, Ok ())
      else (p, Err (Fail EEXIST ''queue descriptor in use'')))"

text \<open>The allocation of a port in \<^verbatim>\<open>do_bind\<close>: the address with its final port.\<close>

definition udp_bind_port ::
    "socket_addr \<Rightarrow> ephemeral_ports \<Rightarrow> ephemeral_ports \<times> socket_addr res" where
  "udp_bind_port addr eph =
     (if is_private (snd addr)
      then (let (eph, r) = alloc_port (snd addr) eph in (eph, res_bind r (\<lambda>_. Ok addr)))
      else if snd addr = 0
      then (let (eph, r) = alloc_any eph in (eph, res_bind r (\<lambda>new_port. Ok (fst addr, new_port))))
      else (eph, Ok addr))"

definition udp_do_bind ::
    "('c, slot) chan \<Rightarrow> qdesc \<Rightarrow> socket_addr \<Rightarrow> 'c udp_peer \<Rightarrow> 'c udp_peer \<times> unit res" where
  "udp_do_bind C qd addr p =
     (if map_of (up_bound p) addr \<noteq> None then (p, Err (Fail EADDRINUSE ''address in use''))
      else
      let (eph, r) = udp_bind_port addr (up_ephemeral_ports p);
          p = p\<lparr>up_ephemeral_ports := eph\<rparr>
      in case r of
           Err e \<Rightarrow> (p, Err e)
         | Panic s \<Rightarrow> (p, Panic s)
         | Ok addr \<Rightarrow>
           let (p, ret) =
             (case map_of (up_sockets p) qd of
                Some None \<Rightarrow>
                  let occupied = (map_of (up_bound p) addr \<noteq> None);
                      p = p\<lparr>up_sockets := AList.update qd (Some addr) (up_sockets p),
                            up_bound := AList.update addr (up_next_ref p) (up_bound p),
                            up_store := AList.update (up_next_ref p) (sq_new C RECV_QUEUE_MAX_SIZE) (up_store p),
                            up_next_ref := Suc (up_next_ref p)\<rparr>
                  in if occupied then (p, Err (Fail EADDRINUSE ''address in use'')) else (p, Ok ())
              | _ \<Rightarrow> (p, Err (Fail EBADF ''invalid queue descriptor'')))
           in case ret of
                Err e \<Rightarrow>
                  ((if is_private (snd addr)
                    then p\<lparr>up_ephemeral_ports := free (snd addr) (up_ephemeral_ports p)\<rparr> else p), Err e)
              | _ \<Rightarrow> (p, ret))"

definition udp_do_close :: "qdesc \<Rightarrow> 'c udp_peer \<Rightarrow> 'c udp_peer \<times> unit res" where
  "udp_do_close qd p =
     (case map_of (up_sockets p) qd of
        None \<Rightarrow> (p, Err (Fail EBADF ''invalid queue descriptor''))
      | Some socket \<Rightarrow>
        let p = p\<lparr>up_sockets := AList.delete qd (up_sockets p)\<rparr>
        in case socket of
             Some local \<Rightarrow>
               (let found = (map_of (up_bound p) local \<noteq> None);
                    p = p\<lparr>up_bound := AList.delete local (up_bound p)\<rparr>
                in if found then (p, Ok ()) else (p, Err (Fail EBADF ''invalid queue descriptor'')))
           | None \<Rightarrow> (p, Err (Fail EBADF ''invalid queue descriptor'')))"

definition udp_do_pushto ::
    "('c, slot) chan \<Rightarrow> (ipv4_addr \<Rightarrow> mac_address option) \<Rightarrow> qdesc \<Rightarrow> bytes \<Rightarrow> socket_addr \<Rightarrow>
     'c udp_peer \<Rightarrow> ('c udp_peer \<times> udp_datagram list \<times> unit res) option" where
  "udp_do_pushto C arp qd data remote p =
     (case map_of (up_sockets p) qd of
        Some (Some local) \<Rightarrow>
          (case arp (fst remote) of
             Some link \<Rightarrow>
               Some (p, [udp_do_send (up_local_ipv4_addr p) (up_local_link_addr p) link data local remote
                           (up_checksum_offload p)], Ok ())
           | None \<Rightarrow>
               map_option (\<lambda>(q, r). (p\<lparr>up_send_queue := q\<rparr>, [], r))
                 (sq_push C \<lparr>slot_local = local, slot_remote = remote, slot_data = data\<rparr> (up_send_queue p)))
      | _ \<Rightarrow> Some (p, [], Err (Fail EBADF ''invalid queue descriptor'')))"

text \<open>The background task, in two steps: take a slot, and send it once its address is known.\<close>

definition udp_background_take ::
    "('c, slot) chan \<Rightarrow> 'c udp_peer \<Rightarrow> 'c udp_peer \<times> slot res option" where
  "udp_background_take C p =
     (let (q, r) = sq_pop_poll C (up_send_queue p) in (p\<lparr>up_send_queue := q\<rparr>, r))"

definition udp_background_sent :: "'c udp_peer \<Rightarrow> slot \<Rightarrow> mac_address res \<Rightarrow> udp_datagram list" where
  "udp_background_sent p s link =
     (case link of
        Ok mac \<Rightarrow> [udp_do_send (up_local_ipv4_addr p) (up_local_link_addr p) mac
                          (slot_data s) (slot_local s) (slot_remote s) (up_checksum_offload p)]
      | _ \<Rightarrow> [])"

text \<open>\<^verbatim>\<open>do_pop\<close> yields the future, a reference to the queue; \<open>udp_pop_poll\<close> polls it.\<close>

definition udp_do_pop :: "qdesc \<Rightarrow> 'c udp_peer \<Rightarrow> nat res" where
  "udp_do_pop qd p =
     (case map_of (up_sockets p) qd of
        Some (Some local) \<Rightarrow>
          (case map_of (up_bound p) local of
             Some r \<Rightarrow> Ok r
           | None \<Rightarrow> Panic ''called `Option::unwrap()` on a `None` value'')
      | _ \<Rightarrow> Panic ''invalid queue descriptor'')"

definition udp_pop_poll ::
    "('c, slot) chan \<Rightarrow> nat \<Rightarrow> 'c udp_peer \<Rightarrow> 'c udp_peer \<times> (socket_addr \<times> bytes) res option" where
  "udp_pop_poll C r p =
     (case map_of (up_store p) r of
        None \<Rightarrow> (p, None)
      | Some q \<Rightarrow>
        let (q, m) = sq_try_pop C q;
            p = p\<lparr>up_store := AList.update r q (up_store p)\<rparr>
        in (p, case m of
                 Ok (Some msg) \<Rightarrow> Some (Ok (slot_remote msg, slot_data msg))
               | Ok None \<Rightarrow> None
               | Err e \<Rightarrow> Some (Err e)
               | Panic s \<Rightarrow> Some (Panic s)))"

definition udp_do_receive ::
    "ext \<Rightarrow> ('c, slot) chan \<Rightarrow> ipv4_header \<Rightarrow> bytes \<Rightarrow> 'c udp_peer \<Rightarrow> ('c udp_peer \<times> unit res) option" where
  "udp_do_receive E C ipv4_hdr buf p =
     (case udp_parse E ipv4_hdr buf (up_checksum_offload p) of
        Err e \<Rightarrow> Some (p, Err e)
      | Panic s \<Rightarrow> Some (p, Panic s)
      | Ok (hdr, data) \<Rightarrow>
        let local = (ip_dst_addr ipv4_hdr, udp_dest_port hdr);
            remote = (ip_src_addr ipv4_hdr, udp_src_port hdr)
        in case map_of (up_bound p) local of
             None \<Rightarrow> Some (p, Err (Fail ENOTCONN ''port not bound''))
           | Some r \<Rightarrow>
             (case map_of (up_store p) r of
                None \<Rightarrow> Some (p, Panic ''dangling reference'')
              | Some q \<Rightarrow>
                map_option (\<lambda>(q, res). (p\<lparr>up_store := AList.update r q (up_store p)\<rparr>,
                    case res of Ok u \<Rightarrow> Ok ()
                    | _ \<Rightarrow> Panic ''called `Result::unwrap()` on an `Err` value''))
                  (sq_push C \<lparr>slot_local = local, slot_remote = remote, slot_data = data\<rparr> q)))"

section \<open>Invariant\<close>

text \<open>
  Every bound socket owns its address and its queue, no two share one, and the port of a bound
  address is not in the pool.
\<close>

definition udp_tables_ok :: "'c udp_peer \<Rightarrow> bool" where
  "udp_tables_ok p \<longleftrightarrow>
     pool_ok (up_ephemeral_ports p) \<and> set (ports (up_ephemeral_ports p)) \<subseteq> Collect is_private \<and>
     tables_match (map_of (up_sockets p)) (map_of (up_bound p)) \<and>
     (\<forall>a \<in> dom (map_of (up_bound p)). snd a \<notin> set (ports (up_ephemeral_ports p)) \<and> snd a \<noteq> 0) \<and>
     (\<forall>r \<in> ran (map_of (up_bound p)). r < up_next_ref p)"

definition udp_queues_ok :: "('c \<Rightarrow> slot list) \<Rightarrow> ('c \<Rightarrow> nat) \<Rightarrow> 'c udp_peer \<Rightarrow> bool" where
  "udp_queues_ok items cap p \<longleftrightarrow>
     (\<forall>r q. map_of (up_store p) r = Some q \<longrightarrow> sq_ok items cap q \<and> sq_capacity q = RECV_QUEUE_MAX_SIZE) \<and>
     (\<forall>a r. map_of (up_bound p) a = Some r \<longrightarrow> map_of (up_store p) r \<noteq> None) \<and>
     sq_ok items cap (up_send_queue p) \<and> sq_capacity (up_send_queue p) = SEND_QUEUE_MAX_SIZE"

definition udp_ok :: "('c \<Rightarrow> slot list) \<Rightarrow> ('c \<Rightarrow> nat) \<Rightarrow> 'c udp_peer \<Rightarrow> bool" where
  "udp_ok items cap p \<longleftrightarrow> udp_tables_ok p \<and> udp_queues_ok items cap p"

lemma is_private_nonzero: "is_private x \<Longrightarrow> x \<noteq> 0"
  by (auto simp: is_private_def FIRST_PRIVATE_PORT_def)

lemma udp_bind_port_cases:
  assumes "pool_ok eph" "set (ports eph) \<subseteq> Collect is_private"
  obtains (taken) e where "udp_bind_port addr eph = (eph, Err e)"
  | (given) eph' a where "udp_bind_port addr eph = (eph', Ok a)" "pool_ok eph'"
      "set (ports eph') = set (ports eph) - {snd a}" "snd a \<noteq> 0" "is_private (snd a) \<Longrightarrow> snd a \<in> set (ports eph)"
      "a = addr \<or> snd addr = 0 \<and> is_private (snd a)"
proof (cases "is_private (snd addr)")
  case True
  show ?thesis
  proof (cases "snd addr \<in> set (ports eph)")
    case in_pool: True
    from ep.this_takes [OF assms(1) in_pool] obtain p' where
      "alloc_port (snd addr) eph = (p', Ok ())" "set (ports p') = set (ports eph) - {snd addr}" "pool_ok p'"
      by blast
    with True in_pool is_private_nonzero [OF True] given [of p' addr] show ?thesis
      by (simp add: udp_bind_port_def)
  next
    case False
    with ep.this_missing [OF assms(1), of "snd addr"] True taken show ?thesis
      by (auto simp: udp_bind_port_def)
  qed
next
  case False
  show ?thesis
  proof (cases "snd addr = 0")
    case zero: True
    show ?thesis
    proof (cases "set (ports eph) = {}")
      case True
      with ep.any_empty [OF assms(1)] False zero taken show ?thesis by (auto simp: udp_bind_port_def)
    next
      case ne: False
      from ep.any_takes [OF assms(1) ne] obtain p' x where
        "alloc_any eph = (p', Ok x)" "x \<in> set (ports eph)" "set (ports p') = set (ports eph) - {x}" "pool_ok p'"
        by blast
      with False zero assms(2) is_private_nonzero [of x] given [of p' "(fst addr, x)"] show ?thesis
        by (auto simp: udp_bind_port_def)
    qed
  next
    case nz: False
    with False given [of eph addr] assms show ?thesis by (auto simp: udp_bind_port_def)
  qed
qed

lemma udp_do_socket_tables:
  assumes "udp_tables_ok p" "udp_do_socket qd p = (p', r)"
  shows "udp_tables_ok p'"
proof (cases "map_of (up_sockets p) qd = None")
  case True
  then have "p' = p\<lparr>up_sockets := AList.update qd None (up_sockets p)\<rparr>"
    using assms(2) by (simp add: udp_do_socket_def)
  with assms(1) True tables_match_open [of "map_of (up_sockets p)" "map_of (up_bound p)" qd] show ?thesis
    by (simp add: udp_tables_ok_def update_conv')
qed (use assms in \<open>auto simp: udp_do_socket_def\<close>)

lemma udp_do_close_tables:
  assumes "udp_tables_ok p" "udp_do_close qd p = (p', r)"
  shows "udp_tables_ok p'"
proof -
  have m: "tables_match (map_of (up_sockets p)) (map_of (up_bound p))"
    using assms(1) by (simp add: udp_tables_ok_def)
  consider "map_of (up_sockets p) qd = None" | "map_of (up_sockets p) qd = Some None"
    | a where "map_of (up_sockets p) qd = Some (Some a)" by (metis not_None_eq)
  then show ?thesis
  proof cases
    case 2
    then have "p' = p\<lparr>up_sockets := AList.delete qd (up_sockets p)\<rparr>"
      using assms(2) by (auto simp: udp_do_close_def)
    with assms(1) tables_match_close_unbound [OF m 2] show ?thesis
      by (simp add: udp_tables_ok_def delete_conv')
  next
    case (3 a)
    then have p': "p' = p\<lparr>up_sockets := AList.delete qd (up_sockets p), up_bound := AList.delete a (up_bound p)\<rparr>"
      using assms(2) by (auto simp: udp_do_close_def Let_def split: if_splits)
    have sub: "dom (map_of (up_bound p')) \<subseteq> dom (map_of (up_bound p))"
      "ran (map_of (up_bound p')) \<subseteq> ran (map_of (up_bound p))"
      by (auto simp: p' delete_conv' ran_def)
    with assms(1) tables_match_close [OF m 3] p' show ?thesis
      by (simp add: udp_tables_ok_def delete_conv' subset_iff)
  qed (use assms in \<open>auto simp: udp_do_close_def\<close>)
qed

text \<open>The outcome of \<^verbatim>\<open>do_bind\<close>; in particular the address it registers never is occupied.\<close>

lemma udp_do_bind_cases:
  assumes "udp_tables_ok p" "udp_do_bind C qd addr p = (p', r)"
  obtains (failed) e where "r = Err e" "up_sockets p' = up_sockets p" "up_bound p' = up_bound p"
      "up_store p' = up_store p" "up_send_queue p' = up_send_queue p" "up_next_ref p' = up_next_ref p"
      "pool_ok (up_ephemeral_ports p')"
      "set (ports (up_ephemeral_ports p')) = set (ports (up_ephemeral_ports p))"
  | (bound) a where "r = Ok ()" "map_of (up_sockets p) qd = Some None" "map_of (up_bound p) a = None"
      "pool_ok (up_ephemeral_ports p')" "snd a \<noteq> 0"
      "set (ports (up_ephemeral_ports p')) = set (ports (up_ephemeral_ports p)) - {snd a}"
      "p' = p\<lparr>up_ephemeral_ports := up_ephemeral_ports p',
              up_sockets := AList.update qd (Some a) (up_sockets p),
              up_bound := AList.update a (up_next_ref p) (up_bound p),
              up_store := AList.update (up_next_ref p) (sq_new C RECV_QUEUE_MAX_SIZE) (up_store p),
              up_next_ref := Suc (up_next_ref p)\<rparr>"
      "a = addr \<or> snd addr = 0 \<and> is_private (snd a)"
proof (cases "map_of (up_bound p) addr = None")
  case False
  with assms failed show ?thesis by (auto simp: udp_do_bind_def udp_tables_ok_def)
next
  case True
  have pool: "pool_ok (up_ephemeral_ports p)" "set (ports (up_ephemeral_ports p)) \<subseteq> Collect is_private"
    using assms(1) by (auto simp: udp_tables_ok_def)
  show ?thesis
  proof (cases rule: udp_bind_port_cases [OF pool, of addr, case_names taken given])
    case (taken e)
    with True assms pool failed show ?thesis by (auto simp: udp_do_bind_def Let_def)
  next
    case (given eph' a)
    have vac: "map_of (up_bound p) a = None"
    proof (cases "a = addr")
      case False
      with given have "snd a \<in> set (ports (up_ephemeral_ports p))" by blast
      with assms(1) show ?thesis unfolding udp_tables_ok_def by (meson domIff)
    qed (use True in simp)
    show ?thesis
    proof (cases "map_of (up_sockets p) qd = Some None")
      case sock: True
      let ?p = "p\<lparr>up_ephemeral_ports := eph', up_sockets := AList.update qd (Some a) (up_sockets p),
          up_bound := AList.update a (up_next_ref p) (up_bound p),
          up_store := AList.update (up_next_ref p) (sq_new C RECV_QUEUE_MAX_SIZE) (up_store p),
          up_next_ref := Suc (up_next_ref p)\<rparr>"
      have "udp_do_bind C qd addr p = (?p, Ok ())"
        using True given(1) vac sock by (simp add: udp_do_bind_def Let_def)
      then have "p' = ?p" "r = Ok ()" using assms(2) by simp_all
      with given sock vac show ?thesis by (intro bound [of a]) simp_all
    next
      case False
      then have "p' = (if is_private (snd a) then p\<lparr>up_ephemeral_ports := free (snd a) eph'\<rparr>
                       else p\<lparr>up_ephemeral_ports := eph'\<rparr>) \<and> r = Err (Fail EBADF ''invalid queue descriptor'')"
        using True given(1) assms(2)
        by (auto simp: udp_do_bind_def Let_def split: option.splits)
      moreover have "snd a \<notin> set (ports eph')" using given by simp
      moreover have "\<not> is_private (snd a) \<Longrightarrow> set (ports eph') = set (ports (up_ephemeral_ports p))"
        using given(3) pool(2) by auto
      ultimately show ?thesis
        using given ep.give_back_adds [OF given(2), of "snd a"]
        by (intro failed [of "Fail EBADF ''invalid queue descriptor''"]; cases "is_private (snd a)"; simp add: insert_absorb)
    qed
  qed
qed

lemma udp_do_bind_tables:
  assumes "udp_tables_ok p" "udp_do_bind C qd addr p = (p', r)"
  shows "udp_tables_ok p'"
  using assms
proof (cases rule: udp_do_bind_cases)
  case (failed e)
  with assms(1) show ?thesis unfolding udp_tables_ok_def by simp
next
  case (bound a)
  have s: "map_of (up_sockets p') = (map_of (up_sockets p))(qd \<mapsto> Some a)"
    and b: "map_of (up_bound p') = (map_of (up_bound p))(a \<mapsto> up_next_ref p)"
    and n: "up_next_ref p' = Suc (up_next_ref p)"
    by (subst bound(7), simp add: update_conv')+
  have "up_next_ref p \<notin> ran (map_of (up_bound p))"
    using assms(1) by (auto simp: udp_tables_ok_def)
  with assms(1) bound(2,3) have "tables_match (map_of (up_sockets p')) (map_of (up_bound p'))"
    unfolding s b by (intro tables_match_bind) (auto simp: udp_tables_ok_def)
  with assms(1) bound(3-6) show ?thesis
    unfolding udp_tables_ok_def n by (auto simp: b less_SucI)
qed

lemma udp_queues_ok_cong:
  assumes "udp_queues_ok items cap p" "up_store p' = up_store p" "up_send_queue p' = up_send_queue p"
    and "map_of (up_bound p') \<subseteq>\<^sub>m map_of (up_bound p)"
  shows "udp_queues_ok items cap p'"
  using assms unfolding udp_queues_ok_def map_le_def by (metis domI)

locale slot_chan = mpsc C items cap
  for C :: "('c, slot) chan" and items :: "'c \<Rightarrow> slot list" and cap :: "'c \<Rightarrow> nat"
begin

lemma udp_ok_new:
  assumes "\<And>xs. mset (shuffle xs) = mset xs"
  shows "udp_ok items cap (udp_peer_new C shuffle link ip off)"
  using ephemeral_new_ports [OF assms] sq_new_ok [of SEND_QUEUE_MAX_SIZE]
  by (auto simp: udp_ok_def udp_tables_ok_def udp_queues_ok_def udp_peer_new_def tables_match_def
      sq_new_def)

lemma udp_ok_socket: "udp_ok items cap p \<Longrightarrow> udp_do_socket qd p = (p', r) \<Longrightarrow> udp_ok items cap p'"
  using udp_do_socket_tables [of p qd p' r] udp_queues_ok_cong [of items cap p p']
  by (simp add: udp_ok_def) (auto simp: udp_do_socket_def split: if_splits)

lemma udp_ok_close: "udp_ok items cap p \<Longrightarrow> udp_do_close qd p = (p', r) \<Longrightarrow> udp_ok items cap p'"
  using udp_do_close_tables [of p qd p' r] udp_queues_ok_cong [of items cap p p']
  by (simp add: udp_ok_def)
     (auto simp: udp_do_close_def Let_def delete_conv' map_le_def split: option.splits if_splits)

lemma udp_ok_bind:
  assumes "udp_ok items cap p" "udp_do_bind C qd addr p = (p', r)"
  shows "udp_ok items cap p'"
proof -
  have t: "udp_tables_ok p" using assms(1) by (simp add: udp_ok_def)
  have q: "udp_queues_ok items cap p" using assms(1) by (simp add: udp_ok_def)
  from t assms(2) have "udp_queues_ok items cap p'"
  proof (cases rule: udp_do_bind_cases)
    case (failed e)
    then show ?thesis by (intro udp_queues_ok_cong [OF q]) simp_all
  next
    case (bound a)
    have b: "map_of (up_bound p') = (map_of (up_bound p))(a \<mapsto> up_next_ref p)"
      and s: "map_of (up_store p') = (map_of (up_store p))(up_next_ref p \<mapsto> sq_new C RECV_QUEUE_MAX_SIZE)"
      and sq: "up_send_queue p' = up_send_queue p"
      by (subst bound(7), simp add: update_conv')+
    with q sq_new_ok [of RECV_QUEUE_MAX_SIZE] show ?thesis
      unfolding udp_queues_ok_def b s sq by (auto simp: sq_new_def)
  qed
  with udp_do_bind_tables [OF t assms(2)] show ?thesis by (simp add: udp_ok_def)
qed

text \<open>An operation that only changes queues, and keeps their shape, keeps the invariant.\<close>

lemma udp_ok_store:
  assumes "udp_ok items cap p" "sq_ok items cap q" "sq_capacity q = RECV_QUEUE_MAX_SIZE"
  shows "udp_ok items cap (p\<lparr>up_store := AList.update r q (up_store p)\<rparr>)"
  using assms by (auto simp: udp_ok_def udp_tables_ok_def udp_queues_ok_def update_conv')

lemma udp_ok_send_queue:
  assumes "udp_ok items cap p" "sq_ok items cap q" "sq_capacity q = SEND_QUEUE_MAX_SIZE"
  shows "udp_ok items cap (p\<lparr>up_send_queue := q\<rparr>)"
  using assms by (auto simp: udp_ok_def udp_tables_ok_def udp_queues_ok_def)

lemma sq_try_pop_ok:
  assumes "sq_ok items cap q"
  obtains q' m where "sq_try_pop C q = (q', Ok m)" "sq_ok items cap q'" "sq_capacity q' = sq_capacity q"
  using sq_try_pop_cons [OF assms] sq_try_pop_nil [OF assms]
  by (cases "items (sq_chan q)") (metis that)+

lemma sq_pop_poll_try: "sq_pop_poll C q = (q', m) \<Longrightarrow> fst (sq_try_pop C q) = q'"
  by (auto simp: sq_pop_poll_def sq_try_pop_def split: prod.splits next_msg.splits)

lemma udp_ok_pushto:
  assumes "udp_ok items cap p" "udp_do_pushto C arp qd data remote p = Some (p', out, r)"
  shows "udp_ok items cap p'"
proof -
  have q: "sq_ok items cap (up_send_queue p)" "2 \<le> sq_capacity (up_send_queue p)"
      "sq_capacity (up_send_queue p) = SEND_QUEUE_MAX_SIZE"
    using assms(1) by (simp_all add: udp_ok_def udp_queues_ok_def SEND_QUEUE_MAX_SIZE_def)
  have push: "\<exists>q'. sq_push C m (up_send_queue p) = Some (q', Ok ()) \<and> sq_ok items cap q' \<and>
      sq_capacity q' = SEND_QUEUE_MAX_SIZE" for m
    using sq_push_total [OF q(1,2), of m] q(3) by metis
  show ?thesis
  proof (cases "\<exists>local. map_of (up_sockets p) qd = Some (Some local) \<and> arp (fst remote) = None")
    case True
    then obtain local where l: "map_of (up_sockets p) qd = Some (Some local)" "arp (fst remote) = None" by blast
    from push obtain q' where "sq_push C \<lparr>slot_local = local, slot_remote = remote, slot_data = data\<rparr>
        (up_send_queue p) = Some (q', Ok ())" "sq_ok items cap q'" "sq_capacity q' = SEND_QUEUE_MAX_SIZE" by blast
    with l assms(2) udp_ok_send_queue [OF assms(1)] show ?thesis by (auto simp: udp_do_pushto_def)
  next
    case False
    with assms show ?thesis by (auto simp: udp_do_pushto_def split: option.splits)
  qed
qed

lemma udp_ok_background_take:
  assumes "udp_ok items cap p" "udp_background_take C p = (p', r)"
  shows "udp_ok items cap p'"
proof -
  have q: "sq_ok items cap (up_send_queue p)" "sq_capacity (up_send_queue p) = SEND_QUEUE_MAX_SIZE"
    using assms(1) by (simp_all add: udp_ok_def udp_queues_ok_def)
  obtain q' m where m: "sq_pop_poll C (up_send_queue p) = (q', m)" by fastforce
  then have "p' = p\<lparr>up_send_queue := q'\<rparr>" using assms(2) by (simp add: udp_background_take_def)
  moreover have "sq_ok items cap q'" "sq_capacity q' = SEND_QUEUE_MAX_SIZE"
    using sq_try_pop_ok [OF q(1)] sq_pop_poll_try [OF m] q(2) by (metis fst_conv)+
  ultimately show ?thesis using udp_ok_send_queue [OF assms(1)] by simp
qed

lemma udp_ok_pop_poll:
  assumes "udp_ok items cap p" "udp_pop_poll C r p = (p', m)"
  shows "udp_ok items cap p'"
proof (cases "map_of (up_store p) r")
  case (Some q)
  then have q: "sq_ok items cap q" "sq_capacity q = RECV_QUEUE_MAX_SIZE"
    using assms(1) by (simp_all add: udp_ok_def udp_queues_ok_def)
  from sq_try_pop_ok [OF q(1)] obtain q' m' where
    "sq_try_pop C q = (q', Ok m')" "sq_ok items cap q'" "sq_capacity q' = sq_capacity q" .
  with Some q assms udp_ok_store [OF assms(1), of q' r] show ?thesis
    by (auto simp: udp_pop_poll_def)
qed (use assms in \<open>simp add: udp_pop_poll_def\<close>)

text \<open>
  Delivery: a datagram for a bound address goes to the end of that socket's queue, from which
  nothing but the oldest messages is dropped, and only when it is full.
\<close>

lemma udp_do_receive_bound:
  assumes "udp_ok items cap p" "udp_parse E ip buf (up_checksum_offload p) = Ok (hdr, data)"
    and "map_of (up_bound p) (ip_dst_addr ip, udp_dest_port hdr) = Some r"
    and "map_of (up_store p) r = Some q"
  shows "\<exists>q' k. udp_do_receive E C ip buf p = Some (p\<lparr>up_store := AList.update r q' (up_store p)\<rparr>, Ok ()) \<and>
     sq_ok items cap q' \<and> sq_capacity q' = RECV_QUEUE_MAX_SIZE \<and>
     items (sq_chan q') = drop k (items (sq_chan q)) @
       [\<lparr>slot_local = (ip_dst_addr ip, udp_dest_port hdr), slot_remote = (ip_src_addr ip, udp_src_port hdr),
         slot_data = data\<rparr>] \<and>
     (sq_length q < RECV_QUEUE_MAX_SIZE \<longrightarrow> k = 0)"
proof -
  have q: "sq_ok items cap q" "sq_capacity q = RECV_QUEUE_MAX_SIZE" "2 \<le> sq_capacity q"
    using assms(1,4) by (auto simp: udp_ok_def udp_queues_ok_def RECV_QUEUE_MAX_SIZE_def)
  let ?m = "\<lparr>slot_local = (ip_dst_addr ip, udp_dest_port hdr), slot_remote = (ip_src_addr ip, udp_src_port hdr),
         slot_data = data\<rparr>"
  from sq_push_total [OF q(1,3), of ?m] obtain q' where
    q': "sq_push C ?m q = Some (q', Ok ())" "sq_ok items cap q'" "sq_capacity q' = sq_capacity q"
     "items (sq_chan q') = (if sq_length q = sq_capacity q
        then drop (sq_capacity q + 1 - sq_capacity q div 2) (items (sq_chan q)) @ [?m]
        else items (sq_chan q) @ [?m])" by blast
  define k where "k = (if sq_length q = sq_capacity q then sq_capacity q + 1 - sq_capacity q div 2 else 0)"
  have "items (sq_chan q') = drop k (items (sq_chan q)) @ [?m]" using q'(4) by (simp add: k_def)
  moreover have "sq_length q < RECV_QUEUE_MAX_SIZE \<longrightarrow> k = 0" using q(2) by (simp add: k_def)
  moreover have "udp_do_receive E C ip buf p = Some (p\<lparr>up_store := AList.update r q' (up_store p)\<rparr>, Ok ())"
    using assms(2-4) q'(1) by (simp add: udp_do_receive_def)
  ultimately show ?thesis using q' q(2) by metis
qed

lemma udp_do_receive_total:
  assumes "udp_ok items cap p"
  shows "\<exists>p' r. udp_do_receive E C ip buf p = Some (p', r) \<and> \<not> is_panic r \<and> udp_ok items cap p'"
proof (cases "udp_parse E ip buf (up_checksum_offload p)")
  case (Ok hd)
  obtain hdr data where hd: "hd = (hdr, data)" by (cases hd)
  show ?thesis
  proof (cases "map_of (up_bound p) (ip_dst_addr ip, udp_dest_port hdr)")
    case None
    with Ok hd assms show ?thesis by (simp add: udp_do_receive_def)
  next
    case (Some r)
    then obtain q where "map_of (up_store p) r = Some q"
      using assms unfolding udp_ok_def udp_queues_ok_def by (metis not_None_eq)
    from udp_do_receive_bound [OF assms Ok [unfolded hd] Some this] udp_ok_store [OF assms] show ?thesis
      by fastforce
  qed
next
  case (Err e)
  with assms show ?thesis by (simp add: udp_do_receive_def)
next
  case (Panic s)
  with udp_parse_no_panic [of E ip buf "up_checksum_offload p"] show ?thesis by simp
qed

end

interpretation doc_slots: slot_chan documented_chan lc_items lc_size ..

end
