(* ===== verification/Net_Properties.thy ===== *)
theory Net_Properties
  imports Arp_Peer Udp_Peer Wire_Properties
begin

text \<open>
  What the TTL cache, the ARP peer, the pool of ephemeral ports, the bounded queue and the UDP
  peer promise, and a datagram on its way from one host to the application on another.
\<close>

section \<open>TTL cache\<close>

text \<open>An insertion never panics, keeps the invariant, makes the key map to the new value with its expiration, and
  removes exactly the other entries that have expired.\<close>

lemma ttl_insert_exact:
  assumes "ttl_ok c" "ttl \<noteq> Some 0"
  shows "\<exists>c' old. ttl_insert_with_ttl k v ttl c = Ok (c', old) \<and> ttl_ok c' \<and>
      map_of (tc_map c') k = Some \<lparr>tr_value = v, tr_expiration = map_option ((+) (tc_clock c)) ttl\<rparr> \<and>
      (\<forall>j. j \<noteq> k \<longrightarrow> map_of (tc_map c') j = (case map_of (tc_map c) j of
          None \<Rightarrow> None | Some r \<Rightarrow> if has_expired r (tc_clock c) then None else Some r))"
  using ttl_insert_with_ttl_spec [OF assms] by blast

section \<open>ARP\<close>

text \<open>C23: A well-formed ARP message is handled as RFC 826 has it: a message that is neither for this host nor from a known
  sender is refused; otherwise the sender's link address is learned, the query that waits for it is woken, and a request for this
  host is answered to the sender with this host's addresses.\<close>

theorem arp_receive_rfc826:
  assumes "arp_ok p" "arp_parse E buf = Ok h"
  shows "\<exists>p' out r. arp_receive E rt buf p = Ok (p', out, r) \<and> arp_ok p' \<and>
    (if arp_target_protocol_addr h \<noteq> rt_local_ipv4_addr rt \<and>
        arp_try_query p (arp_sender_protocol_addr h) = None
     then p' = p \<and> out = [] \<and> r = Err (Fail EBADMSG ''unrecognized IP address'')
     else arp_try_query p' (arp_sender_protocol_addr h) = Some (arp_sender_hardware_addr h) \<and>
       map_of (ap_waiters p') (arp_sender_protocol_addr h) = None \<and> r = Ok () \<and>
       out = (if arp_target_protocol_addr h = rt_local_ipv4_addr rt \<and> arp_operation h = Request
              then [\<lparr>am_ethernet2_hdr = ethernet2_new (arp_sender_hardware_addr h) (rt_local_link_addr rt) Arp,
                     am_header = arp_header_new Reply (rt_local_link_addr rt) (rt_local_ipv4_addr rt)
                       (arp_sender_hardware_addr h) (arp_sender_protocol_addr h)\<rparr>]
              else []))"
  by (rule arp_receive_cases [OF assms])

definition sample_arp_peer :: arp_peer where
  "sample_arp_peer = \<lparr>ap_cache = \<lparr>ac_cache = \<lparr>tc_map = [], tc_graveyard = [], tc_default_ttl = Some 600, tc_clock = 0\<rparr>,
      ac_disable = False\<rparr>, ap_waiters = [(7, 0)], ap_cells = [], ap_next_cell = 1, ap_retry_count = 2\<rparr>"

lemma sample_arp_peer_ok: "arp_ok sample_arp_peer"
  by (simp add: sample_arp_peer_def arp_ok_def arp_cache_ok_def ttl_ok_def)

definition sample_reply :: bytes where
  "sample_reply = [0, 1, 8, 0, 6, 4, 0, 2, 2, 0, 0, 0, 0, 9, 0, 0, 0, 7, 2, 0, 0, 0, 0, 1, 0, 0, 0, 5]"

lemma sample_reply_parse:
  "arp_parse documented_ext sample_reply = Ok (arp_header_new Reply [2, 0, 0, 0, 0, 9] 7 [2, 0, 0, 0, 0, 1] 5)"
  by code_simp

definition sample_host :: rt_addrs where
  "sample_host = \<lparr>rt_local_link_addr = [2, 0, 0, 0, 0, 1], rt_local_ipv4_addr = 5\<rparr>"

theorem arp_receive_rfc826_witness:
  "\<exists>p'. arp_receive documented_ext sample_host sample_reply sample_arp_peer = Ok (p', [], Ok ()) \<and>
     arp_try_query p' 7 = Some [2, 0, 0, 0, 0, 9]"
  using arp_receive_rfc826 [OF sample_arp_peer_ok sample_reply_parse, of sample_host]
  by (auto simp: arp_header_new_def sample_host_def)

lemma alist_update_entries: "set (AList.update k v xs) \<subseteq> insert (k, v) (set xs)"
  by (induction xs) auto

lemma arp_query_start_waits:
  assumes "arp_ok p" "arp_try_query p a = None" "map_of (ap_waiters p) a = None"
  shows "\<exists>p1. arp_query_start E rt a p = Ok (p1, [arp_request E rt a], Waiting a (ap_next_cell p) 0) \<and> arp_ok p1 \<and>
     map_of (ap_waiters p1) a = Some (ap_next_cell p) \<and> ap_cache p1 = ap_cache p"
proof -
  have "x < ap_next_cell p" if "(b, x) \<in> set (ap_waiters p)" for b x using that assms(1) by (auto simp: arp_ok_def)
  then have "\<forall>(b, x) \<in> set (AList.update a (ap_next_cell p) (ap_waiters p)). x < Suc (ap_next_cell p)"
    using alist_update_entries [of a "ap_next_cell p" "ap_waiters p"] by fastforce
  with assms show ?thesis
    by (simp add: arp_query_start_def arp_do_wait_link_addr_def arp_try_query_def arp_ok_def Let_def
        distinct_update update_conv')
qed

text \<open>C24: A query for an address that is not cached sends one request, and an ARP reply from that address to this host
  resolves it with the link address in the reply at the next poll of the query.\<close>

theorem arp_query_answered:
  assumes "arp_ok p" "arp_try_query p a = None" "map_of (ap_waiters p) a = None"
    and "arp_parse E buf = Ok h" "arp_operation h = Reply" "arp_sender_protocol_addr h = a"
    and "arp_target_protocol_addr h = rt_local_ipv4_addr rt"
  shows "\<exists>p1 q p2 p3. arp_query_start E rt a p = Ok (p1, [arp_request E rt a], q) \<and>
     arp_receive E rt buf p1 = Ok (p2, [], Ok ()) \<and>
     arp_query_poll E rt False pick q p2 = (p3, [], Resolved (Ok (arp_sender_hardware_addr h)))"
proof -
  obtain p1 where p1: "arp_query_start E rt a p = Ok (p1, [arp_request E rt a], Waiting a (ap_next_cell p) 0)" "arp_ok p1"
      "map_of (ap_waiters p1) a = Some (ap_next_cell p)" "ap_cache p1 = ap_cache p"
    using arp_query_start_waits [OF assms(1-3)] by blast
  let ?m = "arp_sender_hardware_addr h"
  obtain p2 where p2: "arp_do_insert a ?m p1 = Ok p2" "arp_ok p2" "map_of (ap_cells p2) (ap_next_cell p) = Some ?m"
    using arp_do_insert_spec [OF p1(2), of a ?m] p1(3) by blast
  have "ttl_ok (ac_cache (ap_cache p2))" using p2(2) by (simp add: arp_ok_def arp_cache_ok_def)
  then obtain c old where c: "arp_cache_insert a ?m (ap_cache p2) = Ok (c, old)"
    using arp_cache_insert_spec by blast
  have "arp_receive E rt buf p1 = Ok (p2\<lparr>ap_cache := c\<rparr>, [], Ok ())"
    using assms p1(4) p2(1) c by (simp add: arp_receive_def arp_try_query_def Let_def)
  moreover have "arp_query_poll E rt False pick (Waiting a (ap_next_cell p) 0) (p2\<lparr>ap_cache := c\<rparr>) =
      (p2\<lparr>ap_cache := c\<rparr>, [], Resolved (Ok ?m))"
    using p2(3) by (simp add: arp_query_poll_def)
  ultimately show ?thesis using p1(1) by blast
qed

theorem arp_query_answered_witness:
  "\<exists>p1 q p2 p3. arp_query_start documented_ext sample_host 7 (sample_arp_peer\<lparr>ap_waiters := []\<rparr>) =
       Ok (p1, [arp_request documented_ext sample_host 7], q) \<and>
     arp_receive documented_ext sample_host sample_reply p1 = Ok (p2, [], Ok ()) \<and>
     arp_query_poll documented_ext sample_host False False q p2 = (p3, [], Resolved (Ok [2, 0, 0, 0, 0, 9]))"
  using arp_query_answered [OF _ _ _ sample_reply_parse, of "sample_arp_peer\<lparr>ap_waiters := []\<rparr>" 7 sample_host False]
  by (simp add: sample_arp_peer_def sample_host_def arp_ok_def arp_cache_ok_def ttl_ok_def arp_try_query_def arp_cache_get_def
      ttl_get_def arp_header_new_def)

text \<open>A query that gets no answer repeats its request once per timeout, \<^verbatim>\<open>retry_count\<close> times, and then fails with a timeout
  and leaves no waiter behind.\<close>

lemma arp_query_gives_up:
  assumes "map_of (ap_cells p) rx = None" "map_of (ap_waiters p) a = Some rx"
  shows "\<exists>p'. arp_query_run E rt (replicate (Suc (ap_retry_count p)) (True, b)) (Waiting a rx 0) p
       = (p', replicate (ap_retry_count p) (arp_request E rt a), Resolved (Err (Fail ETIMEDOUT ''ARP query timeout''))) \<and>
     map_of (ap_waiters p') a = None"
  using arp_query_timeouts [OF assms(1), of 0 E rt b a] by (simp add: arp_do_drop_def delete_conv')

section \<open>Ephemeral ports\<close>

text \<open>C26: The pool is a set of free ports: a drawn port was free and no longer is, no port is drawn twice, returning it
  makes it free again, and only an empty pool refuses.\<close>

theorem ephemeral_pool:
  assumes "pool_ok p"
  shows "(case alloc_any p of
       (p', Ok x) \<Rightarrow> x \<in> set (ports p) \<and> set (ports p') = set (ports p) - {x} \<and> pool_ok p' \<and>
          set (ports (free x p')) = set (ports p) \<and> pool_ok (free x p')
     | (p', Err e) \<Rightarrow> ports p = [] \<and> p' = p
     | (p', Panic m) \<Rightarrow> False) \<and>
    (case alloc_port y p of
       (p', Ok u) \<Rightarrow> y \<in> set (ports p) \<and> set (ports p') = set (ports p) - {y} \<and> pool_ok p'
     | (p', Err e) \<Rightarrow> y \<notin> set (ports p) \<and> p' = p
     | (p', Panic m) \<Rightarrow> False)"
proof
  show "case alloc_any p of
       (p', Ok x) \<Rightarrow> x \<in> set (ports p) \<and> set (ports p') = set (ports p) - {x} \<and> pool_ok p' \<and>
          set (ports (free x p')) = set (ports p) \<and> pool_ok (free x p')
     | (p', Err e) \<Rightarrow> ports p = [] \<and> p' = p
     | (p', Panic m) \<Rightarrow> False"
  proof (cases "set (ports p) = {}")
    case True
    from ep.any_empty [OF assms this] True show ?thesis by auto
  next
    case False
    from ep.any_takes [OF assms this] obtain p' x where
      x: "alloc_any p = (p', Ok x)" "x \<in> set (ports p)" "set (ports p') = set (ports p) - {x}" "pool_ok p'" by blast
    then show ?thesis unfolding x(1) prod.case res.case
      by (intro conjI x(2-4) ep.give_back_any [OF assms x(1), THEN conjunct1] ep.give_back_any [OF assms x(1), THEN conjunct2])
  qed
  show "case alloc_port y p of
       (p', Ok u) \<Rightarrow> y \<in> set (ports p) \<and> set (ports p') = set (ports p) - {y} \<and> pool_ok p'
     | (p', Err e) \<Rightarrow> y \<notin> set (ports p) \<and> p' = p
     | (p', Panic m) \<Rightarrow> False"
  proof (cases "y \<in> set (ports p)")
    case True
    from ep.this_takes [OF assms this] obtain p' where "alloc_port y p = (p', Ok ())" "set (ports p') = set (ports p) - {y}" "pool_ok p'"
      by blast
    with True show ?thesis by simp
  next
    case False
    from ep.this_missing [OF assms this] False show ?thesis by auto
  qed
qed

theorem ephemeral_pool_witness:
  "alloc_any \<lparr>ports = [50000, 50001]\<rparr> = (\<lparr>ports = [50000]\<rparr>, Ok 50001) \<and> 50001 \<in> set (ports \<lparr>ports = [50000, 50001]\<rparr>)"
  using ephemeral_pool [of "\<lparr>ports = [50000, 50001]\<rparr>" 50000] by (simp add: pool_ok_def alloc_any_def)

text \<open>The pool starts with every private port but the last: 65535 is private and can be bound neither by number nor as an
  ephemeral port.\<close>

lemma last_private_port_unusable:
  assumes "\<And>xs. mset (shuffle xs) = mset xs"
  shows "is_private 65535 \<and> 65535 \<notin> set (ports (ephemeral_new shuffle)) \<and>
    (\<forall>x. is_private x \<and> x \<noteq> 65535 \<longrightarrow> x \<in> set (ports (ephemeral_new shuffle))) \<and>
    snd (udp_do_bind C qd (a, 65535) (udp_peer_new C shuffle link ip off)) = Err (Fail ENOENT ''port number not found'')"
  using ephemeral_new_ports(2) [OF assms]
  by (auto simp: is_private_def FIRST_PRIVATE_PORT_def udp_do_bind_def udp_bind_port_def udp_peer_new_def alloc_port_def Let_def)

section \<open>The bounded queue\<close>

text \<open>A full queue with a capacity below two: the push does not end, whatever the channel does.\<close>

lemma sq_push_small_capacity:
  assumes "sq_capacity q < 2" "sq_length q = sq_capacity q"
  shows "sq_push C m q = None"
  using sq_drain_loops [of C q] assms by (cases "sq_drain C q") (auto simp: sq_push_def)

section \<open>UDP\<close>

text \<open>What can happen to a UDP peer: calls of the application, datagrams from the network, its background task.\<close>

inductive udp_step :: "ext \<Rightarrow> ('c, slot) chan \<Rightarrow> 'c udp_peer \<Rightarrow> 'c udp_peer \<Rightarrow> bool" for E C where
  udp_socket: "udp_do_socket qd p = (p', r) \<Longrightarrow> udp_step E C p p'"
| udp_bind: "udp_do_bind C qd addr p = (p', r) \<Longrightarrow> udp_step E C p p'"
| udp_close: "udp_do_close qd p = (p', r) \<Longrightarrow> udp_step E C p p'"
| udp_pushto: "udp_do_pushto C arp qd data remote p = Some (p', out, r) \<Longrightarrow> udp_step E C p p'"
| udp_pop: "udp_pop_poll C ref p = (p', m) \<Longrightarrow> udp_step E C p p'"
| udp_background: "udp_background_take C p = (p', m) \<Longrightarrow> udp_step E C p p'"
| udp_receive: "udp_do_receive E C ip buf p = Some (p', r) \<Longrightarrow> udp_step E C p p'"

inductive udp_reach :: "ext \<Rightarrow> ('c, slot) chan \<Rightarrow> 'c udp_peer \<Rightarrow> 'c udp_peer \<Rightarrow> bool" for E C p0 where
  udp_start: "udp_reach E C p0 p0"
| udp_next: "udp_reach E C p0 p \<Longrightarrow> udp_step E C p p' \<Longrightarrow> udp_reach E C p0 p'"

context slot_chan
begin

lemma udp_step_ok: "udp_step E C p p' \<Longrightarrow> udp_ok items cap p \<Longrightarrow> udp_ok items cap p'"
proof (induction rule: udp_step.induct)
  case (udp_receive ip buf p p' r)
  then show ?case using udp_do_receive_total [of p E ip buf] by auto
qed (auto elim: udp_ok_socket [rotated] udp_ok_bind [rotated] udp_ok_close [rotated] udp_ok_pushto [rotated]
    udp_ok_pop_poll [rotated] udp_ok_background_take [rotated])

lemma udp_reach_ok: "udp_reach E C p0 p \<Longrightarrow> udp_ok items cap p0 \<Longrightarrow> udp_ok items cap p"
  by (induction rule: udp_reach.induct) (auto intro: udp_step_ok)

end

text \<open>C13: In every state a UDP peer can reach, whatever is called and received: every bound socket has its own address and its own
  queue, the port of a bound address is not in the pool, and the queues are within their capacity.\<close>

theorem udp_reachable_ok:
  assumes "slot_chan C items cap" "\<And>xs. mset (shuffle xs) = mset xs"
    and "udp_reach E C (udp_peer_new C shuffle link ip off) p"
  shows "udp_ok items cap p"
  using slot_chan.udp_reach_ok [OF assms(1,3)] slot_chan.udp_ok_new [OF assms(1,2)] by blast

theorem udp_reachable_ok_witness:
  "udp_ok lc_items lc_size (fst (udp_do_bind documented_chan 3 (0x0A000002, 80)
     (fst (udp_do_socket 3 (udp_peer_new documented_chan id [2, 0, 0, 0, 0, 2] 0x0A000002 False)))))"
proof -
  let ?p0 = "udp_peer_new documented_chan id [2, 0, 0, 0, 0, 2] 0x0A000002 False"
  let ?p1 = "fst (udp_do_socket 3 ?p0)"
  have "udp_step documented_ext documented_chan ?p0 ?p1" by (rule udp_socket [of 3 _ _ "snd (udp_do_socket 3 ?p0)"]) simp
  moreover have "udp_step documented_ext documented_chan ?p1 (fst (udp_do_bind documented_chan 3 (0x0A000002, 80) ?p1))"
    by (rule udp_bind [of _ 3 "(0x0A000002, 80)" _ _ "snd (udp_do_bind documented_chan 3 (0x0A000002, 80) ?p1)"]) simp
  ultimately have "udp_reach documented_ext documented_chan ?p0 (fst (udp_do_bind documented_chan 3 (0x0A000002, 80) ?p1))"
    by (blast intro: udp_start udp_next)
  then show ?thesis by (rule udp_reachable_ok [OF doc_slots.slot_chan_axioms, rotated]) simp
qed

text \<open>Receiving never panics, never loops, and keeps the invariant, for every IPv4 header and every sequence of bytes.\<close>

lemma udp_receive_total:
  assumes "slot_chan C items cap" "udp_ok items cap p"
  shows "\<exists>p' r. udp_do_receive E C ip buf p = Some (p', r) \<and> \<not> is_panic r \<and> udp_ok items cap p'"
  by (rule slot_chan.udp_do_receive_total [OF assms])

definition sample_receiver :: "slot list_chan udp_peer" where
  "sample_receiver = \<lparr>up_ephemeral_ports = \<lparr>ports = []\<rparr>, up_sockets = [(3, Some (0x0A000002, 49152))],
     up_bound = [((0x0A000002, 49152), 0)], up_store = [(0, sq_new documented_chan RECV_QUEUE_MAX_SIZE)], up_next_ref = 1,
     up_send_queue = sq_new documented_chan SEND_QUEUE_MAX_SIZE, up_local_link_addr = [2, 0, 0, 0, 0, 2],
     up_local_ipv4_addr = 0x0A000002, up_checksum_offload = False\<rparr>"

lemma sample_receiver_ok: "udp_ok lc_items lc_size sample_receiver"
  by (auto simp: sample_receiver_def udp_ok_def udp_tables_ok_def udp_queues_ok_def pool_ok_def tables_match_def
      doc_chan.sq_new_ok split: if_splits) (simp_all add: sq_new_def)

lemma udp_pop_delivers:
  assumes "mpsc C items cap" "sq_ok items cap q" "items (sq_chan q) = m # ms" "map_of (up_store p) r = Some q"
  shows "\<exists>p'. udp_pop_poll C r p = (p', Some (Ok (slot_remote m, slot_data m)))"
  using mpsc.sq_try_pop_cons [OF assms(1-3)] assms(4) by (auto simp: udp_pop_poll_def)

text \<open>C9: From application to application.  A datagram that is pushed on one host with the link address known is serialised, parsed by the
  Ethernet, IPv4 and UDP parsers of the other host and put into the queue of the socket bound to its destination; the next pop on that
  socket returns exactly the data, with the sender's address.\<close>

theorem udp_end_to_end:
  assumes "extern E" "slot_chan C items cap" "udp_ok items cap b"
    and "map_of (up_sockets a) qd = Some (Some (src_ip, src_port))" "arp dst_ip = Some link"
    and "length link = 6" "length (up_local_link_addr a) = 6" "length data < 2 ^ 16 - 28"
    and "up_checksum_offload a \<longrightarrow> up_checksum_offload b"
    and "map_of (up_bound b) (dst_ip, dst_port) = Some r" "map_of (up_store b) r = Some q" "items (sq_chan q) = []"
  shows "\<exists>d bs e eth t ip b' b''. udp_do_pushto Ca arp qd data (dst_ip, dst_port) a = Some (a, [d], Ok ()) \<and>
     udp_datagram_write_header E d (replicate (udp_datagram_header_size d) 0) = Ok bs \<and>
     ethernet2_parse E (bs @ ud_data d) = Ok (e, eth) \<and> eth_dst_addr e = link \<and> eth_ether_type e = Ipv4 \<and>
     ipv4_parse E eth = Ok (ip, t) \<and> ip_proto ip = UDP \<and> ip_dst_addr ip = dst_ip \<and>
     udp_do_receive E C ip t b = Some (b', Ok ()) \<and>
     udp_pop_poll C r b' = (b'', Some (Ok ((up_local_ipv4_addr a, src_port), data)))"
proof -
  let ?d = "udp_do_send (up_local_ipv4_addr a) (up_local_link_addr a) link data (src_ip, src_port) (dst_ip, dst_port) (up_checksum_offload a)"
  have push: "udp_do_pushto Ca arp qd data (dst_ip, dst_port) a = Some (a, [?d], Ok ())"
    using assms(4,5) by (simp add: udp_do_pushto_def)
  have "udp_datagram_wf ?d"
    using assms(6-8) by (simp add: udp_do_send_def udp_datagram_wf_def eth_wf_def ethernet2_new_def ipv4_wf_def ipv4_new_def)
  moreover have "ud_checksum_offload ?d \<longrightarrow> up_checksum_offload b" using assms(9) by (simp add: udp_do_send_def)
  ultimately obtain bs eth ip t where w: "udp_datagram_write_header E ?d (replicate (udp_datagram_header_size ?d) 0) = Ok bs"
      "ethernet2_parse E (bs @ ud_data ?d) = Ok (ud_ethernet2_hdr ?d, eth)" "ipv4_parse E eth = Ok (ip, t)"
      "ip_src_addr ip = ip_src_addr (ud_ipv4_hdr ?d)" "ip_dst_addr ip = ip_dst_addr (ud_ipv4_hdr ?d)"
      "ip_proto ip = ip_proto (ud_ipv4_hdr ?d)"
      "udp_parse E ip t (up_checksum_offload b) = Ok (ud_udp_hdr ?d, ud_data ?d)"
    using extern.udp_datagram_roundtrip [OF assms(1), of ?d "replicate (udp_datagram_header_size ?d) 0" "up_checksum_offload b"]
    by (metis length_replicate)
  have f: "ip_src_addr ip = up_local_ipv4_addr a" "ip_dst_addr ip = dst_ip" "ip_proto ip = UDP"
      "udp_dest_port (ud_udp_hdr ?d) = dst_port" "udp_src_port (ud_udp_hdr ?d) = src_port" "ud_data ?d = data"
    using w(4-6) by (simp_all add: udp_do_send_def ipv4_new_def udp_header_new_def)
  obtain q' k where rcv: "udp_do_receive E C ip t b = Some (b\<lparr>up_store := AList.update r q' (up_store b)\<rparr>, Ok ())"
      "sq_ok items cap q'" "items (sq_chan q') = drop k (items (sq_chan q)) @
         [\<lparr>slot_local = (dst_ip, dst_port), slot_remote = (up_local_ipv4_addr a, src_port), slot_data = data\<rparr>]"
    using slot_chan.udp_do_receive_bound [OF assms(2,3) w(7), of r q] assms(10,11) unfolding f by blast
  obtain b'' where "udp_pop_poll C r (b\<lparr>up_store := AList.update r q' (up_store b)\<rparr>) =
      (b'', Some (Ok ((up_local_ipv4_addr a, src_port), data)))"
    using udp_pop_delivers [OF slot_chan.axioms [OF assms(2)] rcv(2), of _ "[]" "b\<lparr>up_store := AList.update r q' (up_store b)\<rparr>" r]
      rcv(3) assms(12) by (auto simp: update_conv')
  with push w(1-3) f rcv(1) show ?thesis
    by (intro exI [of _ ?d] exI [of _ bs] exI [of _ "ud_ethernet2_hdr ?d"] exI [of _ eth] exI [of _ t] exI [of _ ip])
      (simp add: udp_do_send_def ethernet2_new_def)
qed

definition sample_sender :: "slot list_chan udp_peer" where
  "sample_sender = sample_receiver\<lparr>up_sockets := [(4, Some (0x0A000001, 80))], up_bound := [((0x0A000001, 80), 0)],
     up_local_link_addr := [2, 0, 0, 0, 0, 1], up_local_ipv4_addr := 0x0A000001\<rparr>"

theorem udp_end_to_end_witness:
  "\<exists>d bs e eth t ip b' b''. udp_do_pushto documented_chan [0x0A000002 \<mapsto> [2, 0, 0, 0, 0, 2]] 4 [9, 8, 7] (0x0A000002, 49152) sample_sender
       = Some (sample_sender, [d], Ok ()) \<and>
     udp_datagram_write_header documented_ext d (replicate (udp_datagram_header_size d) 0) = Ok bs \<and>
     ethernet2_parse documented_ext (bs @ ud_data d) = Ok (e, eth) \<and> ipv4_parse documented_ext eth = Ok (ip, t) \<and>
     udp_do_receive documented_ext documented_chan ip t sample_receiver = Some (b', Ok ()) \<and>
     udp_pop_poll documented_chan 0 b' = (b'', Some (Ok ((0x0A000001, 80), [9, 8, 7])))"
  using udp_end_to_end [OF extern_documented doc_slots.slot_chan_axioms sample_receiver_ok, where a = sample_sender and qd = 4 and
      src_ip = "0x0A000001" and src_port = 80 and arp = "[0x0A000002 \<mapsto> [2, 0, 0, 0, 0, 2]]" and dst_ip = "0x0A000002" and
      link = "[2, 0, 0, 0, 0, 2]" and data = "[9, 8, 7]" and dst_port = 49152 and r = 0 and
      q = "sq_new documented_chan RECV_QUEUE_MAX_SIZE" and Ca = documented_chan]
  by (simp add: sample_sender_def sample_receiver_def doc_chan.sq_new_ok) blast

text \<open>What closing a socket does: an unknown descriptor changes nothing; a socket that was never bound is removed and a bad
  descriptor is reported all the same; a bound socket is removed with its address, and its port does not return to the pool.\<close>

lemma udp_close_effects:
  assumes "udp_tables_ok p" "udp_do_close qd p = (p', r)"
  shows "case map_of (up_sockets p) qd of
      None \<Rightarrow> p' = p \<and> r = Err (Fail EBADF ''invalid queue descriptor'')
    | Some None \<Rightarrow> map_of (up_sockets p') = (map_of (up_sockets p))(qd := None) \<and> up_bound p' = up_bound p \<and>
        r = Err (Fail EBADF ''invalid queue descriptor'')
    | Some (Some a) \<Rightarrow> map_of (up_sockets p') = (map_of (up_sockets p))(qd := None) \<and>
        map_of (up_bound p') = (map_of (up_bound p))(a := None) \<and> r = Ok () \<and> snd a \<notin> set (ports (up_ephemeral_ports p'))"
proof (cases "\<exists>a. map_of (up_sockets p) qd = Some (Some a)")
  case True
  then obtain a where qd: "map_of (up_sockets p) qd = Some (Some a)" by blast
  have "tables_match (map_of (up_sockets p)) (map_of (up_bound p))" using assms(1) by (simp add: udp_tables_ok_def)
  with qd have b: "map_of (up_bound p) a \<noteq> None" unfolding tables_match_def by blast
  then have "a \<in> dom (map_of (up_bound p))" by blast
  then have "snd a \<notin> set (ports (up_ephemeral_ports p))" using assms(1) unfolding udp_tables_ok_def by blast
  with qd b assms(2) show ?thesis by (auto simp: udp_do_close_def Let_def delete_conv')
next
  case False
  with assms(2) show ?thesis by (auto simp: udp_do_close_def Let_def delete_conv' split: option.splits)
qed

end
