(* ===== verification/Rto.thy ===== *)
theory Rto
  imports Complex_Main Prelude
begin

text \<open>
  \<^verbatim>\<open>src/src/protocols/tcp/established/rto.rs\<close>: the retransmission timeout (RFC 6298).  The
  source computes in \<^verbatim>\<open>f64\<close> and converts with the crate \<^verbatim>\<open>float_duration\<close>; both are the record
  \<open>flops\<close>, an argument of the definitions, so nothing is assumed about rounding.
  \<open>f_lit\<close> is the value of a decimal literal, \<open>f_cmp\<close> is \<^verbatim>\<open>partial_cmp\<close>.
\<close>

datatype ordering = Less | Equal | Greater

record 'f flops =
  f_lit :: "rat \<Rightarrow> 'f"
  f_add :: "'f \<Rightarrow> 'f \<Rightarrow> 'f"
  f_sub :: "'f \<Rightarrow> 'f \<Rightarrow> 'f"
  f_mul :: "'f \<Rightarrow> 'f \<Rightarrow> 'f"
  f_div :: "'f \<Rightarrow> 'f \<Rightarrow> 'f"
  f_abs :: "'f \<Rightarrow> 'f"
  f_cbrt :: "'f \<Rightarrow> 'f"
  f_powi3 :: "'f \<Rightarrow> 'f"
  f_cmp :: "'f \<Rightarrow> 'f \<Rightarrow> ordering option"
  f_of_u32 :: "u32 \<Rightarrow> 'f"
  f_to_u32 :: "'f \<Rightarrow> u32"
  f_of_dur :: "nat \<Rightarrow> 'f"
  f_to_dur :: "'f \<Rightarrow> nat option"

record 'f rto_calculator =
  rc_srtt :: 'f
  rc_rttvar :: 'f
  rc_rto :: 'f
  rc_received_sample :: bool

definition rto_new :: "'f flops \<Rightarrow> 'f rto_calculator" where
  "rto_new F = \<lparr>rc_srtt = f_lit F 1, rc_rttvar = f_lit F 0, rc_rto = f_lit F 1,
     rc_received_sample = False\<rparr>"

definition UBOUND_SEC :: rat where "UBOUND_SEC = 60"
definition LBOUND_SEC :: rat where "LBOUND_SEC = 1 / 10"
definition GRANULARITY :: rat where "GRANULARITY = 1 / 1000"

definition update_rto :: "'f flops \<Rightarrow> 'f \<Rightarrow> 'f rto_calculator \<Rightarrow> 'f rto_calculator res" where
  "update_rto F new_rto c =
     (let lb = f_lit F LBOUND_SEC; ub = f_lit F UBOUND_SEC
      in if f_cmp F new_rto lb = Some Less then Ok (c\<lparr>rc_rto := lb\<rparr>)
         else if f_cmp F new_rto ub = Some Greater then Ok (c\<lparr>rc_rto := ub\<rparr>)
         else if f_cmp F new_rto lb = None \<or> f_cmp F new_rto ub = None then Panic ''NaN RTO''
         else Ok (c\<lparr>rc_rto := new_rto\<rparr>))"

definition rto_add_sample :: "'f flops \<Rightarrow> nat \<Rightarrow> 'f rto_calculator \<Rightarrow> 'f rto_calculator res" where
  "rto_add_sample F rtt c =
     (let rtt = f_of_dur F rtt;
          alpha = f_lit F (1 / 8); beta = f_lit F (1 / 4); one = f_lit F 1;
          c = (if \<not> rc_received_sample c
               then c\<lparr>rc_srtt := rtt, rc_rttvar := f_div F rtt (f_lit F 2), rc_received_sample := True\<rparr>
               else
                 let rttvar = f_add F (f_mul F (f_sub F one beta) (rc_rttvar c))
                                (f_mul F beta (f_abs F (f_sub F (rc_srtt c) rtt)));
                     srtt = f_add F (f_mul F (f_sub F one alpha) (rc_srtt c)) (f_mul F alpha rtt)
                 in c\<lparr>rc_rttvar := rttvar, rc_srtt := srtt\<rparr>);
          granularity = f_lit F GRANULARITY
      in case f_cmp F (f_mul F (f_lit F 4) (rc_rttvar c)) granularity of
           Some Less \<Rightarrow> update_rto F (f_add F (rc_srtt c) granularity) c
         | None \<Rightarrow> Panic ''NaN rttvar''
         | _ \<Rightarrow> update_rto F (f_add F (rc_srtt c) (rc_rttvar c)) c)"

definition rto_record_failure :: "'f flops \<Rightarrow> 'f rto_calculator \<Rightarrow> 'f rto_calculator res" where
  "rto_record_failure F c = update_rto F (f_mul F (rc_rto c) (f_lit F 2)) c"

definition rto_estimate :: "'f flops \<Rightarrow> 'f rto_calculator \<Rightarrow> nat res" where
  "rto_estimate F c =
     (case f_to_dur F (rc_rto c) of
        Some d \<Rightarrow> Ok d
      | None \<Rightarrow> Panic ''called `Result::unwrap()` on an `Err` value'')"

section \<open>What is relied on of the comparison\<close>

text \<open>The two bounds compare with themselves and with each other as the literals do.\<close>

locale float_bounds =
  fixes F :: "'f flops"
  assumes lb_lb: "f_cmp F (f_lit F LBOUND_SEC) (f_lit F LBOUND_SEC) = Some Equal"
    and lb_ub: "f_cmp F (f_lit F LBOUND_SEC) (f_lit F UBOUND_SEC) = Some Less"
    and ub_lb: "f_cmp F (f_lit F UBOUND_SEC) (f_lit F LBOUND_SEC) = Some Greater"
    and ub_ub: "f_cmp F (f_lit F UBOUND_SEC) (f_lit F UBOUND_SEC) = Some Equal"

definition rto_in_bounds :: "'f flops \<Rightarrow> 'f rto_calculator \<Rightarrow> bool" where
  "rto_in_bounds F c \<longleftrightarrow>
     f_cmp F (rc_rto c) (f_lit F LBOUND_SEC) \<in> {Some Equal, Some Greater} \<and>
     f_cmp F (rc_rto c) (f_lit F UBOUND_SEC) \<in> {Some Less, Some Equal}"

context float_bounds
begin

lemma update_rto_bounds: "update_rto F x c = Ok c' \<Longrightarrow> rto_in_bounds F c'"
proof -
  have e: "r = Some Equal \<or> r = Some Greater \<or> r = Some Less \<or> r = None" for r
    by (metis ordering.exhaust option.exhaust)
  show "update_rto F x c = Ok c' \<Longrightarrow> rto_in_bounds F c'"
    using lb_lb lb_ub ub_lb ub_ub e [of "f_cmp F x (f_lit F LBOUND_SEC)"] e [of "f_cmp F x (f_lit F UBOUND_SEC)"]
    by (auto simp: update_rto_def rto_in_bounds_def Let_def split: if_splits)
qed

lemma add_sample_bounds: "rto_add_sample F rtt c = Ok c' \<Longrightarrow> rto_in_bounds F c'"
  by (auto simp: rto_add_sample_def Let_def dest: update_rto_bounds
      split: option.splits ordering.splits if_splits)

lemma record_failure_bounds: "rto_record_failure F c = Ok c' \<Longrightarrow> rto_in_bounds F c'"
  by (auto simp: rto_record_failure_def dest: update_rto_bounds)

end

section \<open>Exact arithmetic\<close>

text \<open>Rational arithmetic as an instance, with a placeholder for the cube root, which no bound depends
  on; witnesses evaluate on it.\<close>

definition rat_cmp :: "rat \<Rightarrow> rat \<Rightarrow> ordering option" where
  "rat_cmp a b = Some (if a < b then Less else if a = b then Equal else Greater)"

definition exact_flops :: "rat flops" where
  "exact_flops = \<lparr>f_lit = id, f_add = (+), f_sub = (-), f_mul = (*), f_div = (/), f_abs = abs,
     f_cbrt = id, f_powi3 = (\<lambda>x. x * x * x), f_cmp = rat_cmp, f_of_u32 = (\<lambda>w. of_nat (unat w)),
     f_to_u32 = (\<lambda>x. if x \<le> 0 then 0 else if x \<ge> 4294967295 then 4294967295 else of_int \<lfloor>x\<rfloor>),
     f_of_dur = (\<lambda>n. of_nat n / 1000000000),
     f_to_dur = (\<lambda>x. if x < 0 then None else Some (nat \<lfloor>x * 1000000000\<rfloor>))\<rparr>"

interpretation exact: float_bounds exact_flops
  by unfold_locales (simp_all add: exact_flops_def rat_cmp_def LBOUND_SEC_def UBOUND_SEC_def)

lemma float_bounds_exact: "float_bounds exact_flops"
  by (rule exact.float_bounds_axioms)

end
