(* ===== verification/Cc_Options.thy ===== *)
theory Cc_Options
  imports "HOL-Library.AList" Prelude
begin

text \<open>
  \<^verbatim>\<open>src/src/protocols/tcp/established/congestion_control/options.rs\<close>: the options of a congestion control, a table of
  typed values; reading a value as another type panics.  And \<^verbatim>\<open>src/src/options.rs\<close>: the builder of the options of a stack; the
  configurations of ARP, TCP and UDP are types of another crate and stay abstract.
\<close>

section \<open>Options of a congestion control\<close>

datatype 'f option_value = BoolValue bool | FloatValue 'f | IntValue "64 word" | StringValue string

record 'f cc_options =
  co_inner :: "(string \<times> 'f option_value) list"

definition cc_options_default :: "'f cc_options" where
  "cc_options_default = \<lparr>co_inner = []\<rparr>"

definition get_bool :: "'f cc_options \<Rightarrow> string \<Rightarrow> bool option res" where
  "get_bool opts key =
     (case map_of (co_inner opts) key of
        None \<Rightarrow> Ok None
      | Some (BoolValue b) \<Rightarrow> Ok (Some b)
      | Some _ \<Rightarrow> Panic (''Value for '' @ key @ '' should be a bool''))"

definition insert_bool :: "string \<Rightarrow> bool \<Rightarrow> 'f cc_options \<Rightarrow> 'f cc_options" where
  "insert_bool key value opts = opts\<lparr>co_inner := AList.update key (BoolValue value) (co_inner opts)\<rparr>"

definition get_float :: "'f cc_options \<Rightarrow> string \<Rightarrow> 'f option res" where
  "get_float opts key =
     (case map_of (co_inner opts) key of
        None \<Rightarrow> Ok None
      | Some (FloatValue x) \<Rightarrow> Ok (Some x)
      | Some _ \<Rightarrow> Panic (''Value for '' @ key @ '' should be a float''))"

definition insert_float :: "string \<Rightarrow> 'f \<Rightarrow> 'f cc_options \<Rightarrow> 'f cc_options" where
  "insert_float key value opts = opts\<lparr>co_inner := AList.update key (FloatValue value) (co_inner opts)\<rparr>"

definition get_int :: "'f cc_options \<Rightarrow> string \<Rightarrow> 64 word option res" where
  "get_int opts key =
     (case map_of (co_inner opts) key of
        None \<Rightarrow> Ok None
      | Some (IntValue i) \<Rightarrow> Ok (Some i)
      | Some _ \<Rightarrow> Panic (''Value for '' @ key @ '' should be an int''))"

definition insert_int :: "string \<Rightarrow> 64 word \<Rightarrow> 'f cc_options \<Rightarrow> 'f cc_options" where
  "insert_int key value opts = opts\<lparr>co_inner := AList.update key (IntValue value) (co_inner opts)\<rparr>"

definition get_string :: "'f cc_options \<Rightarrow> string \<Rightarrow> string option res" where
  "get_string opts key =
     (case map_of (co_inner opts) key of
        None \<Rightarrow> Ok None
      | Some (StringValue s) \<Rightarrow> Ok (Some s)
      | Some _ \<Rightarrow> Panic (''Value for '' @ key @ '' should be a string''))"

definition insert_string :: "string \<Rightarrow> string \<Rightarrow> 'f cc_options \<Rightarrow> 'f cc_options" where
  "insert_string key value opts = opts\<lparr>co_inner := AList.update key (StringValue value) (co_inner opts)\<rparr>"

text \<open>What the four pairs of accessors have in common: \<open>wrap\<close> is the constructor of the type.\<close>

locale option_accessor =
  fixes get :: "'f cc_options \<Rightarrow> string \<Rightarrow> 'v option res" and insert :: "string \<Rightarrow> 'v \<Rightarrow> 'f cc_options \<Rightarrow> 'f cc_options"
    and wrap :: "'v \<Rightarrow> 'f option_value"
  assumes insert_inner: "map_of (co_inner (insert k v opts)) = (map_of (co_inner opts))(k \<mapsto> wrap v)"
    and get_absent: "map_of (co_inner opts) k = None \<Longrightarrow> get opts k = Ok None"
    and get_present: "map_of (co_inner opts) k = Some (wrap v) \<Longrightarrow> get opts k = Ok (Some v)"
    and get_mistyped: "map_of (co_inner opts) k = Some x \<Longrightarrow> x \<notin> range wrap \<Longrightarrow> is_panic (get opts k)"
    and get_local: "map_of (co_inner opts) k = map_of (co_inner opts') k \<Longrightarrow> get opts k = get opts' k"
begin

lemma get_insert: "get (insert k v opts) k = Ok (Some v)"
  by (rule get_present) (simp add: insert_inner)

lemma get_insert_other: "k' \<noteq> k \<Longrightarrow> get (insert k v opts) k' = get opts k'"
  by (rule get_local) (simp add: insert_inner)

lemma get_default: "get cc_options_default k = Ok None"
  by (rule get_absent) (simp add: cc_options_default_def)

end

lemmas option_accessor_defs = get_bool_def insert_bool_def get_float_def insert_float_def get_int_def insert_int_def get_string_def insert_string_def

interpretation bool_option: option_accessor get_bool insert_bool BoolValue
  by unfold_locales (auto simp: option_accessor_defs update_conv' image_iff split: option_value.splits)

interpretation float_option: option_accessor get_float insert_float FloatValue
  by unfold_locales (auto simp: option_accessor_defs update_conv' image_iff split: option_value.splits)

interpretation int_option: option_accessor get_int insert_int IntValue
  by unfold_locales (auto simp: option_accessor_defs update_conv' image_iff split: option_value.splits)

interpretation string_option: option_accessor get_string insert_string StringValue
  by unfold_locales (auto simp: option_accessor_defs update_conv' image_iff split: option_value.splits)

text \<open>A value of one type is not read as another.\<close>

lemma get_bool_mistyped: "is_panic (get_bool (insert_int k i opts) k)" "is_panic (get_bool (insert_string k s opts) k)"
  "is_panic (get_bool (insert_float k x opts) k)"
  by (rule bool_option.get_mistyped, simp add: int_option.insert_inner string_option.insert_inner float_option.insert_inner, auto)+

section \<open>Options of a stack\<close>

text \<open>A link address is six bytes; \<^verbatim>\<open>is_nil\<close> and \<^verbatim>\<open>is_broadcast\<close> compare it with the two constants.\<close>

definition mac_nil :: mac_address where "mac_nil = [0, 0, 0, 0, 0, 0]"
definition mac_broadcast :: mac_address where "mac_broadcast = [0xFF, 0xFF, 0xFF, 0xFF, 0xFF, 0xFF]"

record ('arp, 'tcp, 'udp) stack_options =
  so_arp :: 'arp
  so_my_ipv4_addr :: ipv4_addr
  so_my_link_addr :: mac_address
  so_rng_seed :: bytes
  so_tcp :: 'tcp
  so_udp :: 'udp

text \<open>The seed is drawn from the thread's generator, the configurations have their own defaults.\<close>

definition stack_options_default :: "bytes \<Rightarrow> 'arp \<Rightarrow> 'tcp \<Rightarrow> 'udp \<Rightarrow> ('arp, 'tcp, 'udp) stack_options" where
  "stack_options_default rng_seed arp tcp udp =
     \<lparr>so_arp = arp, so_my_ipv4_addr = 0, so_my_link_addr = mac_nil, so_rng_seed = rng_seed, so_tcp = tcp, so_udp = udp\<rparr>"

definition set_arp :: "'arp \<Rightarrow> ('arp, 'tcp, 'udp) stack_options \<Rightarrow> ('arp, 'tcp, 'udp) stack_options" where
  "set_arp value opts = opts\<lparr>so_arp := value\<rparr>"

definition set_my_ipv4_addr :: "ipv4_addr \<Rightarrow> ('arp, 'tcp, 'udp) stack_options \<Rightarrow> ('arp, 'tcp, 'udp) stack_options res" where
  "set_my_ipv4_addr value opts =
     (if value = 0 then Panic ''assertion failed: !value.is_unspecified()''
      else if value = 0xFFFFFFFF then Panic ''assertion failed: !value.is_broadcast()''
      else Ok (opts\<lparr>so_my_ipv4_addr := value\<rparr>))"

definition set_my_link_addr :: "mac_address \<Rightarrow> ('arp, 'tcp, 'udp) stack_options \<Rightarrow> ('arp, 'tcp, 'udp) stack_options res" where
  "set_my_link_addr value opts =
     (if value = mac_nil then Panic ''assertion failed: !value.is_nil()''
      else if value = mac_broadcast then Panic ''assertion failed: !value.is_broadcast()''
      else Ok (opts\<lparr>so_my_link_addr := value\<rparr>))"

definition set_rng_seed :: "bytes \<Rightarrow> ('arp, 'tcp, 'udp) stack_options \<Rightarrow> ('arp, 'tcp, 'udp) stack_options" where
  "set_rng_seed value opts = opts\<lparr>so_rng_seed := value\<rparr>"

definition set_tcp_config :: "'tcp \<Rightarrow> ('arp, 'tcp, 'udp) stack_options \<Rightarrow> ('arp, 'tcp, 'udp) stack_options" where
  "set_tcp_config value opts = opts\<lparr>so_tcp := value\<rparr>"

text \<open>Once both addresses are set, whatever else is set afterwards, they are usable; either order of the two gives the same options.\<close>

lemma set_addrs_usable:
  assumes "set_my_ipv4_addr ip opts = Ok opts1" "set_my_link_addr mac opts1 = Ok opts2"
  shows "so_my_ipv4_addr opts2 \<notin> {0, 0xFFFFFFFF} \<and> so_my_link_addr opts2 \<notin> {mac_nil, mac_broadcast} \<and>
     (\<exists>opts1'. set_my_link_addr mac opts = Ok opts1' \<and> set_my_ipv4_addr ip opts1' = Ok opts2)"
  using assms by (auto simp: set_my_ipv4_addr_def set_my_link_addr_def split: if_splits)

end
