(* ===== verification/Congestion.thy ===== *)
theory Congestion
  imports Seq_Number Rto Cc_Options
begin

text \<open>
  \<^verbatim>\<open>src/src/protocols/tcp/established/congestion_control/\<close>: the congestion control trait, its
  trivial implementation, and Cubic.  A \<^verbatim>\<open>Box<dyn CongestionControl>\<close> is a state together with
  the record of the trait's methods.  \<^verbatim>\<open>Instant::now()\<close> is the argument \<open>inow\<close>, a
  \<^verbatim>\<open>WatchedValue\<close> is its value.
\<close>

record 'cc cc_ops =
  cc_get_cwnd :: "'cc \<Rightarrow> u32"
  cc_on_cwnd_check_before_send :: "nat \<Rightarrow> 'cc \<Rightarrow> 'cc"
  cc_on_ack_received :: "nat \<Rightarrow> nat \<Rightarrow> seq_number \<Rightarrow> seq_number \<Rightarrow> seq_number \<Rightarrow> 'cc \<Rightarrow> 'cc"
  cc_on_rto :: "seq_number \<Rightarrow> 'cc \<Rightarrow> 'cc"
  cc_on_send :: "nat \<Rightarrow> nat \<Rightarrow> u32 \<Rightarrow> 'cc \<Rightarrow> 'cc"
  cc_get_duplicate_ack_count :: "'cc \<Rightarrow> u32"
  cc_get_retransmit_now_flag :: "'cc \<Rightarrow> bool"
  cc_on_fast_retransmit :: "'cc \<Rightarrow> 'cc"
  cc_get_limited_transmit_cwnd_increase :: "'cc \<Rightarrow> u32"

section \<open>None\<close>

text \<open>The default methods of the trait.\<close>

definition none_ops :: "unit cc_ops" where
  "none_ops = \<lparr>
     cc_get_cwnd = (\<lambda>_. - 1),
     cc_on_cwnd_check_before_send = (\<lambda>_ c. c),
     cc_on_ack_received = (\<lambda>_ _ _ _ _ c. c),
     cc_on_rto = (\<lambda>_ c. c),
     cc_on_send = (\<lambda>_ _ _ c. c),
     cc_get_duplicate_ack_count = (\<lambda>_. 0),
     cc_get_retransmit_now_flag = (\<lambda>_. False),
     cc_on_fast_retransmit = (\<lambda>c. c),
     cc_get_limited_transmit_cwnd_increase = (\<lambda>_. 0)\<rparr>"

section \<open>Cubic\<close>

record cubic =
  cu_mss :: u32
  cu_ca_start :: nat
  cu_cwnd :: u32
  cu_fast_convergence :: bool
  cu_initial_cwnd :: u32
  cu_last_send_time :: nat
  cu_last_congestion_was_rto :: bool
  cu_retransmitted_packets_in_flight :: u32
  cu_rtt_at_last_send :: nat
  cu_ssthresh :: u32
  cu_w_max :: u32
  cu_duplicate_ack_count :: u32
  cu_fast_retransmit_now :: bool
  cu_in_fast_recovery :: bool
  cu_prev_ack_seq_no :: seq_number
  cu_recover :: seq_number
  cu_limited_transmit_cwnd_increase :: u32

definition DUP_ACK_THRESHOLD :: u32 where "DUP_ACK_THRESHOLD = 3"
definition BETA_CUBIC :: rat where "BETA_CUBIC = 7 / 10"
definition CUBIC_C :: rat where "CUBIC_C = 2 / 5"

definition cubic_new :: "nat \<Rightarrow> nat \<Rightarrow> seq_number \<Rightarrow> 'f cc_options option \<Rightarrow> cubic res" where
  "cubic_new inow mss seq_no options =
     (if mss \<ge> 2 ^ 32 then Panic ''called `Result::unwrap()` on an `Err` value''
      else
        let m = (of_nat mss :: u32);
            initial_cwnd = (if m \<le> 1095 then 4 * m else if m \<le> 2190 then 3 * m else 2 * m)
        in res_bind (get_bool (case options of Some opts \<Rightarrow> opts | None \<Rightarrow> cc_options_default) ''fast_convergence'') (\<lambda>fast_convergence.
           Ok \<lparr>cu_mss = m, cu_ca_start = inow, cu_cwnd = initial_cwnd,
               cu_fast_convergence = (case fast_convergence of Some b \<Rightarrow> b | None \<Rightarrow> True),
               cu_initial_cwnd = initial_cwnd, cu_last_send_time = inow,
               cu_last_congestion_was_rto = False, cu_retransmitted_packets_in_flight = 0,
               cu_rtt_at_last_send = 1000000000, cu_ssthresh = - 1, cu_w_max = 0,
               cu_duplicate_ack_count = 0, cu_fast_retransmit_now = False,
               cu_in_fast_recovery = False, cu_prev_ack_seq_no = seq_no, cu_recover = seq_no,
               cu_limited_transmit_cwnd_increase = 0\<rparr>))"

definition cubic_fast_convergence :: "'f flops \<Rightarrow> cubic \<Rightarrow> cubic" where
  "cubic_fast_convergence F c =
     (let cwnd = cu_cwnd c
      in if cwnd div cu_mss c < cu_w_max c div cu_mss c
         then c\<lparr>cu_w_max := f_to_u32 F (f_div F (f_mul F (f_of_u32 F cwnd)
                   (f_add F (f_lit F 1) (f_lit F BETA_CUBIC))) (f_lit F 2))\<rparr>
         else c\<lparr>cu_w_max := cwnd\<rparr>)"

definition cubic_increment_dup_ack_count :: "cubic \<Rightarrow> cubic \<times> u32" where
  "cubic_increment_dup_ack_count c =
     (let duplicate_ack_count = cu_duplicate_ack_count c + 1;
          c = c\<lparr>cu_duplicate_ack_count := duplicate_ack_count\<rparr>;
          c = (if duplicate_ack_count < DUP_ACK_THRESHOLD
               then c\<lparr>cu_limited_transmit_cwnd_increase := cu_limited_transmit_cwnd_increase c + cu_mss c\<rparr>
               else c)
      in (c, duplicate_ack_count))"

definition cubic_on_dup_ack_received :: "'f flops \<Rightarrow> seq_number \<Rightarrow> seq_number \<Rightarrow> cubic \<Rightarrow> cubic" where
  "cubic_on_dup_ack_received F send_next ack_seq_no c =
     (let (c, duplicate_ack_count) = cubic_increment_dup_ack_count c;
          ack_seq_no_diff = seq_sub ack_seq_no (cu_prev_ack_seq_no c);
          cwnd = cu_cwnd c;
          ack_covers_recover = seq_gt (seq_sub ack_seq_no 1) (cu_recover c);
          retransmitted_packet_dropped_heuristic = (cwnd > cu_mss c \<and> ack_seq_no_diff \<le> 4 * cu_mss c)
      in if duplicate_ack_count = DUP_ACK_THRESHOLD
            \<and> (ack_covers_recover \<or> retransmitted_packet_dropped_heuristic)
         then
           let c = c\<lparr>cu_in_fast_recovery := True, cu_recover := send_next\<rparr>;
               reduced_cwnd = f_to_u32 F (f_mul F (f_of_u32 F cwnd) (f_lit F BETA_CUBIC));
               c = (if cu_fast_convergence c then cubic_fast_convergence F c else c\<lparr>cu_w_max := cwnd\<rparr>)
           in c\<lparr>cu_ssthresh := max reduced_cwnd (2 * cu_mss c), cu_cwnd := reduced_cwnd,
                cu_fast_retransmit_now := True\<rparr>
         else if duplicate_ack_count > DUP_ACK_THRESHOLD \<or> cu_in_fast_recovery c
         then c\<lparr>cu_cwnd := cu_cwnd c + cu_mss c\<rparr>
         else c)"

definition cubic_on_ack_received_fast_recovery ::
    "nat \<Rightarrow> seq_number \<Rightarrow> seq_number \<Rightarrow> seq_number \<Rightarrow> cubic \<Rightarrow> cubic" where
  "cubic_on_ack_received_fast_recovery inow send_unacked send_next ack_seq_no c =
     (let bytes_outstanding = seq_sub send_next send_unacked;
          bytes_acknowledged = seq_sub ack_seq_no send_unacked;
          mss = cu_mss c
      in if seq_gt ack_seq_no (cu_recover c)
         then c\<lparr>cu_cwnd := min (cu_ssthresh c) (max bytes_outstanding mss + mss),
                cu_ca_start := inow, cu_last_congestion_was_rto := False,
                cu_in_fast_recovery := False\<rparr>
         else
           let c = c\<lparr>cu_fast_retransmit_now := True\<rparr>
           in if bytes_acknowledged \<ge> mss
              then c\<lparr>cu_cwnd := cu_cwnd c - bytes_acknowledged + mss\<rparr>
              else c\<lparr>cu_cwnd := cu_cwnd c - bytes_acknowledged\<rparr>)"

definition cubic_k :: "'f flops \<Rightarrow> cubic \<Rightarrow> 'f \<Rightarrow> 'f" where
  "cubic_k F c w_max =
     (if cu_last_congestion_was_rto c then f_lit F 0
      else f_cbrt F (f_div F (f_mul F w_max (f_sub F (f_lit F 1) (f_lit F BETA_CUBIC))) (f_lit F CUBIC_C)))"

definition w_cubic :: "'f flops \<Rightarrow> 'f \<Rightarrow> 'f \<Rightarrow> 'f \<Rightarrow> 'f" where
  "w_cubic F w_max t k =
     f_add F (f_mul F (f_lit F CUBIC_C) (f_powi3 F (f_sub F t k))) w_max"

definition w_est :: "'f flops \<Rightarrow> 'f \<Rightarrow> 'f \<Rightarrow> 'f \<Rightarrow> 'f" where
  "w_est F w_max t rtt =
     (let bc = f_lit F BETA_CUBIC; one = f_lit F 1
      in f_add F (f_mul F w_max bc)
           (f_div F (f_mul F (f_div F (f_mul F (f_lit F 3) (f_sub F one bc)) (f_add F one bc)) t) rtt))"

definition cubic_on_ack_received_ss_ca ::
    "'f flops \<Rightarrow> nat \<Rightarrow> nat \<Rightarrow> seq_number \<Rightarrow> seq_number \<Rightarrow> cubic \<Rightarrow> cubic" where
  "cubic_on_ack_received_ss_ca F inow rto send_unacked ack_seq_no c =
     (let bytes_acknowledged = seq_sub ack_seq_no send_unacked;
          mss = cu_mss c;
          cwnd = cu_cwnd c
      in if cwnd < cu_ssthresh c
         then c\<lparr>cu_cwnd := cwnd + min bytes_acknowledged mss\<rparr>
         else
           let t = f_of_dur F (inow - cu_ca_start c);
               rtt = f_of_dur F rto;
               mss_f32 = f_of_u32 F mss;
               normalised_w_max = f_div F (f_of_u32 F (cu_w_max c)) mss_f32;
               k = cubic_k F c normalised_w_max;
               est = w_est F normalised_w_max t rtt
           in if f_cmp F (w_cubic F normalised_w_max t k) est = Some Less
              then c\<lparr>cu_cwnd := f_to_u32 F (f_mul F est mss_f32)\<rparr>
              else
                let normalised_cwnd = f_div F (f_of_u32 F cwnd) mss_f32;
                    cwnd_inc = f_mul F (f_div F (f_sub F (w_cubic F normalised_w_max (f_add F t rtt) k)
                                 normalised_cwnd) normalised_cwnd) mss_f32
                in c\<lparr>cu_cwnd := cwnd + f_to_u32 F cwnd_inc\<rparr>)"

definition cubic_on_rto_ss_ca :: "'f flops \<Rightarrow> cubic \<Rightarrow> cubic" where
  "cubic_on_rto_ss_ca F c =
     (let cwnd = cu_cwnd c;
          c = (if cu_fast_convergence c then cubic_fast_convergence F c else c\<lparr>cu_w_max := cwnd\<rparr>);
          c = c\<lparr>cu_cwnd := cu_mss c\<rparr>;
          rpif = cu_retransmitted_packets_in_flight c;
          c = (if rpif = 0
               then c\<lparr>cu_ssthresh := max (f_to_u32 F (f_mul F (f_of_u32 F cwnd) (f_lit F BETA_CUBIC))) (2 * cu_mss c)\<rparr>
               else c)
      in c\<lparr>cu_retransmitted_packets_in_flight := rpif + 1, cu_last_congestion_was_rto := True\<rparr>)"

definition cubic_on_rto_fast_recovery :: "seq_number \<Rightarrow> cubic \<Rightarrow> cubic" where
  "cubic_on_rto_fast_recovery send_unacked c = c\<lparr>cu_recover := send_unacked, cu_in_fast_recovery := False\<rparr>"

definition cubic_on_cwnd_check_before_send :: "nat \<Rightarrow> cubic \<Rightarrow> cubic" where
  "cubic_on_cwnd_check_before_send inow c =
     (if inow - cu_last_send_time c > cu_rtt_at_last_send c
      then c\<lparr>cu_cwnd := min (cu_initial_cwnd c) (cu_cwnd c), cu_limited_transmit_cwnd_increase := 0\<rparr>
      else c)"

definition saturating_sub :: "u32 \<Rightarrow> u32 \<Rightarrow> u32" where
  "saturating_sub a b = (if a < b then 0 else a - b)"

definition cubic_on_send :: "nat \<Rightarrow> nat \<Rightarrow> u32 \<Rightarrow> cubic \<Rightarrow> cubic" where
  "cubic_on_send inow rto num_bytes_sent c =
     c\<lparr>cu_last_send_time := inow, cu_rtt_at_last_send := rto,
       cu_limited_transmit_cwnd_increase :=
         saturating_sub (cu_limited_transmit_cwnd_increase c) num_bytes_sent\<rparr>"

definition cubic_on_ack_received ::
    "'f flops \<Rightarrow> nat \<Rightarrow> nat \<Rightarrow> seq_number \<Rightarrow> seq_number \<Rightarrow> seq_number \<Rightarrow> cubic \<Rightarrow> cubic" where
  "cubic_on_ack_received F inow rto send_unacked send_next ack_seq_no c =
     (let bytes_acknowledged = seq_sub ack_seq_no send_unacked
      in if bytes_acknowledged = 0
         then
           let c = cubic_on_dup_ack_received F send_next ack_seq_no c
           in c\<lparr>cu_retransmitted_packets_in_flight := saturating_sub (cu_retransmitted_packets_in_flight c) 1\<rparr>
         else
           let c = c\<lparr>cu_duplicate_ack_count := 0\<rparr>;
               c = (if cu_in_fast_recovery c
                    then cubic_on_ack_received_fast_recovery inow send_unacked send_next ack_seq_no c
                    else cubic_on_ack_received_ss_ca F inow rto send_unacked ack_seq_no c)
           in c\<lparr>cu_prev_ack_seq_no := ack_seq_no\<rparr>)"

definition cubic_on_rto :: "'f flops \<Rightarrow> seq_number \<Rightarrow> cubic \<Rightarrow> cubic" where
  "cubic_on_rto F send_unacked c = cubic_on_rto_fast_recovery send_unacked (cubic_on_rto_ss_ca F c)"

definition cubic_ops :: "'f flops \<Rightarrow> cubic cc_ops" where
  "cubic_ops F = \<lparr>
     cc_get_cwnd = cu_cwnd,
     cc_on_cwnd_check_before_send = cubic_on_cwnd_check_before_send,
     cc_on_ack_received = cubic_on_ack_received F,
     cc_on_rto = cubic_on_rto F,
     cc_on_send = cubic_on_send,
     cc_get_duplicate_ack_count = cu_duplicate_ack_count,
     cc_get_retransmit_now_flag = cu_fast_retransmit_now,
     cc_on_fast_retransmit = (\<lambda>c. c\<lparr>cu_fast_retransmit_now := False\<rparr>),
     cc_get_limited_transmit_cwnd_increase = cu_limited_transmit_cwnd_increase\<rparr>"

section \<open>The contract of the trait\<close>

text \<open>
  An invariant that every notification keeps.  The client, whatever sequence of notifications it
  sends, stays within it.
\<close>

datatype cc_event =
    CwndCheck nat
  | AckReceived nat nat seq_number seq_number seq_number
  | RtoFired seq_number
  | SegmentSent nat nat u32
  | FastRetransmitted

fun cc_notify :: "'cc cc_ops \<Rightarrow> cc_event \<Rightarrow> 'cc \<Rightarrow> 'cc" where
  "cc_notify K (CwndCheck t) c = cc_on_cwnd_check_before_send K t c"
| "cc_notify K (AckReceived t rto una nxt ackn) c = cc_on_ack_received K t rto una nxt ackn c"
| "cc_notify K (RtoFired una) c = cc_on_rto K una c"
| "cc_notify K (SegmentSent t rto n) c = cc_on_send K t rto n c"
| "cc_notify K FastRetransmitted c = cc_on_fast_retransmit K c"

locale congestion_control =
  fixes K :: "'cc cc_ops" and ok :: "'cc \<Rightarrow> bool"
  assumes notify_ok: "ok c \<Longrightarrow> ok (cc_notify K e c)"
    and flag_cleared: "ok c \<Longrightarrow> \<not> cc_get_retransmit_now_flag K (cc_on_fast_retransmit K c)"
begin

lemma notify_all_ok: "ok c \<Longrightarrow> ok (fold (cc_notify K) es c)"
  by (induction es arbitrary: c) (simp_all add: notify_ok)

end

interpretation none_cc: congestion_control none_ops "\<lambda>_. True"
  by unfold_locales (simp_all add: none_ops_def)

text \<open>Cubic keeps the slow start threshold at two segments or more.\<close>

definition cubic_ok :: "u32 \<Rightarrow> cubic \<Rightarrow> bool" where
  "cubic_ok m c \<longleftrightarrow> cu_mss c = m \<and> 2 * m \<le> cu_ssthresh c"

lemma cubic_fast_convergence_fields [simp]:
  "cu_mss (cubic_fast_convergence F c) = cu_mss c"
  "cu_ssthresh (cubic_fast_convergence F c) = cu_ssthresh c"
  "cu_retransmitted_packets_in_flight (cubic_fast_convergence F c) = cu_retransmitted_packets_in_flight c"
  "cu_duplicate_ack_count (cubic_fast_convergence F c) = cu_duplicate_ack_count c"
  "cu_limited_transmit_cwnd_increase (cubic_fast_convergence F c) = cu_limited_transmit_cwnd_increase c"
  by (simp_all add: cubic_fast_convergence_def Let_def)

lemma cubic_dup_ack_ok: "cubic_ok m c \<Longrightarrow> cubic_ok m (cubic_on_dup_ack_received F nxt a c)"
  by (auto simp: cubic_on_dup_ack_received_def cubic_increment_dup_ack_count_def Let_def cubic_ok_def)

lemma cubic_fast_recovery_ok:
  "cubic_ok m c \<Longrightarrow> cubic_ok m (cubic_on_ack_received_fast_recovery t una nxt a c)"
  by (auto simp: cubic_on_ack_received_fast_recovery_def Let_def cubic_ok_def)

lemma cubic_ss_ca_ok: "cubic_ok m c \<Longrightarrow> cubic_ok m (cubic_on_ack_received_ss_ca F t rto una a c)"
  by (auto simp: cubic_on_ack_received_ss_ca_def Let_def cubic_ok_def)

lemma cubic_ok_reset: "cubic_ok m c \<Longrightarrow> cubic_ok m (c\<lparr>cu_duplicate_ack_count := n\<rparr>)"
  by (simp add: cubic_ok_def)

lemma cubic_ack_ok: "cubic_ok m c \<Longrightarrow> cubic_ok m (cubic_on_ack_received F t rto una nxt a c)"
  using cubic_dup_ack_ok [of m c F nxt a] cubic_ok_reset [of m c 0]
    cubic_fast_recovery_ok [of m "c\<lparr>cu_duplicate_ack_count := 0\<rparr>" t una nxt a]
    cubic_ss_ca_ok [of m "c\<lparr>cu_duplicate_ack_count := 0\<rparr>" F t rto una a]
  by (auto simp: cubic_on_ack_received_def Let_def cubic_ok_def)

lemma cubic_rto_ok: "cubic_ok m c \<Longrightarrow> cubic_ok m (cubic_on_rto F una c)"
  by (auto simp: cubic_on_rto_def cubic_on_rto_fast_recovery_def cubic_on_rto_ss_ca_def Let_def cubic_ok_def)

lemma cubic_send_ok:
  "cubic_ok m c \<Longrightarrow> cubic_ok m (cubic_on_cwnd_check_before_send t c)"
  "cubic_ok m c \<Longrightarrow> cubic_ok m (cubic_on_send t rto n c)"
  "cubic_ok m c \<Longrightarrow> cubic_ok m (c\<lparr>cu_fast_retransmit_now := b\<rparr>)"
  by (simp_all add: cubic_on_cwnd_check_before_send_def cubic_on_send_def cubic_ok_def)

interpretation cubic_cc: congestion_control "cubic_ops F" "cubic_ok m" for F :: "'f flops" and m
proof
  fix c e
  assume ok: "cubic_ok m c"
  show "cubic_ok m (cc_notify (cubic_ops F) e c)"
    using ok by (cases e) (simp_all add: cubic_ops_def cubic_ack_ok cubic_rto_ok cubic_send_ok)
  show "\<not> cc_get_retransmit_now_flag (cubic_ops F) (cc_on_fast_retransmit (cubic_ops F) c)"
    by (simp add: cubic_ops_def)
qed

lemma cubic_new_ok:
  assumes "cubic_new t mss seq options = Ok c" "mss < 2 ^ 31"
  shows "cubic_ok (of_nat mss) c" "mss > 0 \<Longrightarrow> 2 * mss \<le> unat (cu_cwnd c) \<or> mss \<ge> 2 ^ 30"
proof -
  show "cubic_ok (of_nat mss) c" using assms by (auto simp: cubic_new_def cubic_ok_def Let_def res_bind_Ok_iff split: if_splits)
  have u: "unat (of_nat mss :: u32) = mss" using assms(2) by (simp add: unat_of_nat take_bit_nat_eq_self)
  show "mss > 0 \<Longrightarrow> 2 * mss \<le> unat (cu_cwnd c) \<or> mss \<ge> 2 ^ 30"
    using assms(1) u by (auto simp: cubic_new_def Let_def unat_word_ariths word_le_nat_alt res_bind_Ok_iff split: if_splits)
qed

end
