(* ===== verification/Tcp_Ctrlblk.thy ===== *)
theory Tcp_Ctrlblk
  imports Socket_Table Tcp_Segment Congestion
begin

text \<open>
  \<^verbatim>\<open>src/src/protocols/tcp/established/ctrlblk.rs\<close> and \<^verbatim>\<open>sender.rs\<close>: the state of a TCP
  connection and the operations on it other than \<^verbatim>\<open>receive\<close>.  The state is one record, the cells
  of the source its fields; a \<^verbatim>\<open>WatchedValue\<close> is its value.  \<open>cb_tx\<close> is the log of the
  segments given to \<^verbatim>\<open>rt.transmit\<close>.  Everything the connection asks of its surroundings is in the
  record \<open>tcp_env\<close>: the external code, the clocks, the ARP table, the congestion control
  methods.  A loop that may not end yields \<open>None\<close>.
\<close>

datatype tcp_state =
    Established | FinWait1 | FinWait2 | Closing | TimeWait | CloseWait | LastAck | Closed

record ('f, 'cc) tcp_env =
  te_ext :: ext
  te_fl :: "'f flops"
  te_cc :: "'cc cc_ops"
  te_arp :: "ipv4_addr \<Rightarrow> mac_address option"
  te_rt :: rt_addrs
  te_tx_offload :: bool
  te_now :: nat
  te_inow :: nat

record unacked_segment =
  us_bytes :: bytes
  us_initial_tx :: "nat option"

record sender =
  send_unacked :: seq_number
  unacked_queue :: "unacked_segment list"
  send_next :: seq_number
  unsent_queue :: "bytes list"
  unsent_seq_no :: seq_number
  send_window :: u32
  send_window_last_update_seq :: seq_number
  send_window_last_update_ack :: seq_number
  snd_window_scale :: u8
  snd_mss :: nat

record receiver =
  reader_next :: seq_number
  receive_next :: seq_number
  recv_queue :: "bytes list"

record ('f, 'cc) control_block =
  cb_local :: socket_addr
  cb_remote :: socket_addr
  cb_sender :: sender
  cb_state :: tcp_state
  cb_ack_delay_timeout :: nat
  cb_ack_deadline :: "nat option"
  cb_receive_buffer_size :: u32
  cb_window_scale :: u32
  cb_waker :: bool
  cb_out_of_order :: "(seq_number \<times> bytes) list"
  cb_out_of_order_fin :: "seq_number option"
  cb_receiver :: receiver
  cb_user_is_done_sending :: bool
  cb_cc :: 'cc
  cb_retransmit_deadline :: "nat option"
  cb_rto :: "'f rto_calculator"
  cb_tx :: "tcp_segment list"

definition MAX_OUT_OF_ORDER :: nat where "MAX_OUT_OF_ORDER = 16"
definition UNSENT_QUEUE_CUTOFF :: nat where "UNSENT_QUEUE_CUTOFF = 1024"

definition sender_new :: "seq_number \<Rightarrow> u32 \<Rightarrow> u8 \<Rightarrow> nat \<Rightarrow> sender" where
  "sender_new seq_no window scale mss = \<lparr>
     send_unacked = seq_no, unacked_queue = [], send_next = seq_no, unsent_queue = [],
     unsent_seq_no = seq_no, send_window = window, send_window_last_update_seq = seq_no,
     send_window_last_update_ack = seq_no, snd_window_scale = scale, snd_mss = mss\<rparr>"

definition receiver_new :: "seq_number \<Rightarrow> seq_number \<Rightarrow> receiver" where
  "receiver_new reader recv = \<lparr>reader_next = reader, receive_next = recv, recv_queue = []\<rparr>"

definition control_block_new ::
    "'f flops \<Rightarrow> socket_addr \<Rightarrow> socket_addr \<Rightarrow> seq_number \<Rightarrow> nat \<Rightarrow> u32 \<Rightarrow> u32 \<Rightarrow> seq_number \<Rightarrow> u32 \<Rightarrow>
     u8 \<Rightarrow> nat \<Rightarrow> 'cc \<Rightarrow> ('f, 'cc) control_block" where
  "control_block_new F local remote receiver_seq_no ack_delay_timeout receiver_window_size
     receiver_window_scale sender_seq_no sender_window_size sender_window_scale sender_mss cc = \<lparr>
     cb_local = local, cb_remote = remote,
     cb_sender = sender_new sender_seq_no sender_window_size sender_window_scale sender_mss,
     cb_state = Established, cb_ack_delay_timeout = ack_delay_timeout, cb_ack_deadline = None,
     cb_receive_buffer_size = receiver_window_size, cb_window_scale = receiver_window_scale,
     cb_waker = False, cb_out_of_order = [], cb_out_of_order_fin = None,
     cb_receiver = receiver_new receiver_seq_no receiver_seq_no,
     cb_user_is_done_sending = False, cb_cc = cc, cb_retransmit_deadline = None,
     cb_rto = rto_new F, cb_tx = []\<rparr>"

section \<open>Receiver\<close>

definition receiver_pop :: "receiver \<Rightarrow> receiver \<times> bytes option" where
  "receiver_pop r =
     (case recv_queue r of
        [] \<Rightarrow> (r, None)
      | buf # q \<Rightarrow> (r\<lparr>recv_queue := q, reader_next := seq_add (reader_next r) (of_nat (length buf))\<rparr>, Some buf))"

definition receiver_push :: "bytes \<Rightarrow> receiver \<Rightarrow> receiver" where
  "receiver_push buf r =
     r\<lparr>recv_queue := recv_queue r @ [buf], receive_next := seq_add (receive_next r) (of_nat (length buf))\<rparr>"

text \<open>One poll of \<^verbatim>\<open>poll_recv\<close>; \<open>None\<close> is pending.\<close>

definition cb_poll_recv :: "('f, 'cc) control_block \<Rightarrow> ('f, 'cc) control_block \<times> bytes res option" where
  "cb_poll_recv cb =
     (if recv_queue (cb_receiver cb) = [] then (cb\<lparr>cb_waker := True\<rparr>, None)
      else
        let (r, segment) = receiver_pop (cb_receiver cb)
        in (cb\<lparr>cb_receiver := r\<rparr>,
            case segment of
              Some b \<Rightarrow> Some (Ok b)
            | None \<Rightarrow> Some (Panic ''poll_recv failed to pop data from receive queue'')))"

definition get_receive_window_size :: "('f, 'cc) control_block \<Rightarrow> u32" where
  "get_receive_window_size cb =
     (let bytes_unread = seq_sub (receive_next (cb_receiver cb)) (reader_next (cb_receiver cb))
      in cb_receive_buffer_size cb - bytes_unread)"

text \<open>The shift amount is taken modulo the width, as in a release build.\<close>

definition hdr_window_size :: "('f, 'cc) control_block \<Rightarrow> u16 res" where
  "hdr_window_size cb =
     (let window_size = get_receive_window_size cb;
          scaled = drop_bit (unat (cb_window_scale cb) mod 32) window_size
      in if unat scaled < 2 ^ 16 then Ok (ucast scaled) else Panic ''Window size overflow'')"

section \<open>Output\<close>

definition cb_tcp_header :: "('f, 'cc) control_block \<Rightarrow> tcp_header res" where
  "cb_tcp_header cb =
     res_bind (hdr_window_size cb) (\<lambda>w.
       Ok ((tcp_header_new (snd (cb_local cb)) (snd (cb_remote cb)))
             \<lparr>tcp_window_size := w, tcp_ack := True, tcp_ack_num := receive_next (cb_receiver cb)\<rparr>))"

definition state_after_fin :: "tcp_state \<Rightarrow> tcp_state" where
  "state_after_fin s = (case s of Established \<Rightarrow> FinWait1 | CloseWait \<Rightarrow> LastAck | _ \<Rightarrow> s)"

definition cb_emit ::
    "('f, 'cc) tcp_env \<Rightarrow> tcp_header \<Rightarrow> bytes \<Rightarrow> mac_address \<Rightarrow> ('f, 'cc) control_block \<Rightarrow> ('f, 'cc) control_block" where
  "cb_emit env header data remote_link_addr cb =
     (let sent_fin = tcp_fin header;
          segment = \<lparr>ts_ethernet2_hdr = ethernet2_new remote_link_addr (rt_local_link_addr (te_rt env)) Ipv4,
                     ts_ipv4_hdr = ipv4_new (fst (cb_local cb)) (fst (cb_remote cb)) TCP,
                     ts_tcp_hdr = header, ts_data = data, ts_tx_checksum_offload = te_tx_offload env\<rparr>;
          cb = cb\<lparr>cb_tx := cb_tx cb @ [segment]\<rparr>;
          cb = cb\<lparr>cb_ack_deadline := None\<rparr>
      in if sent_fin then cb\<lparr>cb_state := state_after_fin (cb_state cb)\<rparr> else cb)"

definition cb_send_ack ::
    "('f, 'cc) tcp_env \<Rightarrow> ('f, 'cc) control_block \<Rightarrow> ('f, 'cc) control_block res" where
  "cb_send_ack env cb =
     res_bind (cb_tcp_header cb) (\<lambda>header.
       let header = header\<lparr>tcp_seq_num := send_next (cb_sender cb)\<rparr>
       in case te_arp env (fst (cb_remote cb)) of
            Some mac \<Rightarrow> Ok (cb_emit env header [] mac cb)
          | None \<Rightarrow> Ok cb)"

section \<open>Sender\<close>

definition pop_unacked_segment :: "sender \<Rightarrow> sender \<times> unacked_segment option" where
  "pop_unacked_segment s =
     (case unacked_queue s of
        [] \<Rightarrow> (s, None)
      | u # us \<Rightarrow> (s\<lparr>unacked_queue := us\<rparr>, Some u))"

definition push_unacked_segment :: "unacked_segment \<Rightarrow> sender \<Rightarrow> sender" where
  "push_unacked_segment u s = s\<lparr>unacked_queue := unacked_queue s @ [u]\<rparr>"

text \<open>The fast path of \<^verbatim>\<open>send\<close>: transmit at once and remember the segment.\<close>

definition send_immediate ::
    "('f, 'cc) tcp_env \<Rightarrow> bytes \<Rightarrow> mac_address \<Rightarrow> u32 \<Rightarrow> ('f, 'cc) control_block \<Rightarrow> ('f, 'cc) control_block res" where
  "send_immediate env buf mac sent_data cb =
     res_bind (rto_estimate (te_fl env) (cb_rto cb)) (\<lambda>rto.
     let cb = cb\<lparr>cb_cc := cc_on_send (te_cc env) (te_inow env) rto sent_data (cb_cc cb)\<rparr>
     in res_bind (cb_tcp_header cb) (\<lambda>header.
     let header = header\<lparr>tcp_seq_num := send_next (cb_sender cb)\<rparr>;
         buf_len = (of_nat (length buf) :: u32);
         header = (if buf_len = 0 then header\<lparr>tcp_fin := True\<rparr> else header);
         buf_len = (if buf_len = 0 then 1 else buf_len);
         cb = cb_emit env header buf mac cb;
         s = cb_sender cb;
         s = s\<lparr>send_next := seq_add (send_next s) buf_len\<rparr>;
         s = s\<lparr>unsent_seq_no := seq_add (unsent_seq_no s) buf_len\<rparr>;
         s = push_unacked_segment \<lparr>us_bytes = buf, us_initial_tx = Some (te_now env)\<rparr> s;
         cb = cb\<lparr>cb_sender := s\<rparr>
     in if cb_retransmit_deadline cb = None
        then Ok (cb\<lparr>cb_retransmit_deadline := Some (te_now env + rto)\<rparr>)
        else Ok cb))"

definition send_queued ::
    "bytes \<Rightarrow> ('f, 'cc) control_block \<Rightarrow> ('f, 'cc) control_block \<times> unit res" where
  "send_queued buf cb =
     (let s = cb_sender cb
      in if length (unsent_queue s) > UNSENT_QUEUE_CUTOFF
         then (cb, Err (Fail EBUSY ''too many packets to send''))
         else (cb\<lparr>cb_sender := s\<lparr>unsent_queue := unsent_queue s @ [buf],
                                 unsent_seq_no := seq_add (unsent_seq_no s) (of_nat (length buf))\<rparr>\<rparr>, Ok ()))"

definition cb_send ::
    "('f, 'cc) tcp_env \<Rightarrow> bytes \<Rightarrow> ('f, 'cc) control_block \<Rightarrow> (('f, 'cc) control_block \<times> unit res) res" where
  "cb_send env buf cb =
     (if cb_user_is_done_sending cb then Ok (cb, Err (Fail EINVAL ''Connection is closing''))
      else if length buf \<ge> 2 ^ 32 then Ok (cb, Err (Fail EINVAL ''buffer too large''))
      else if unsent_queue (cb_sender cb) = []
      then
        let s = cb_sender cb;
            sent_data = seq_sub (send_next s) (send_unacked s);
            in_flight_after_send = sent_data + of_nat (length buf);
            cb = cb\<lparr>cb_cc := cc_on_cwnd_check_before_send (te_cc env) (te_inow env) (cb_cc cb)\<rparr>;
            cwnd = cc_get_cwnd (te_cc env) (cb_cc cb);
            effective_cwnd = cwnd + cc_get_limited_transmit_cwnd_increase (te_cc env) (cb_cc cb);
            win_sz = send_window s
        in if win_sz > 0 \<and> win_sz \<ge> in_flight_after_send \<and> effective_cwnd \<ge> in_flight_after_send
           then (case te_arp env (fst (cb_remote cb)) of
                   Some mac \<Rightarrow> res_bind (send_immediate env buf mac sent_data cb) (\<lambda>cb. Ok (cb, Ok ()))
                 | None \<Rightarrow> Ok (send_queued buf cb))
           else Ok (send_queued buf cb)
      else Ok (send_queued buf cb))"

definition cb_close ::
    "('f, 'cc) tcp_env \<Rightarrow> ('f, 'cc) control_block \<Rightarrow> (('f, 'cc) control_block \<times> unit res) res" where
  "cb_close env cb =
     (if cb_user_is_done_sending cb then Ok (cb, Ok ())
      else res_bind (cb_send env [] cb) (\<lambda>(cb, r).
        case r of
          Ok u \<Rightarrow> Ok (cb\<lparr>cb_user_is_done_sending := True\<rparr>, Ok ())
        | _ \<Rightarrow> Panic ''send failed''))"

text \<open>
  \<^verbatim>\<open>remove_acknowledged_data\<close>: the loop over the retransmission queue with the bytes that remain
  to be taken off it.  On an empty queue a round changes nothing.
\<close>

partial_function (option) remove_acked ::
    "ext \<Rightarrow> 'f flops \<Rightarrow> nat \<Rightarrow> nat \<Rightarrow> unacked_segment list \<Rightarrow> 'f rto_calculator \<Rightarrow>
     (unacked_segment list \<times> 'f rto_calculator) res option" where
  "remove_acked E F now bytes_remaining q rto =
     (if bytes_remaining = 0 then Some (Ok (q, rto))
      else case q of
        [] \<Rightarrow> remove_acked E F now bytes_remaining [] rto
      | segment # rest \<Rightarrow>
          (case (case us_initial_tx segment of
                   Some t \<Rightarrow> rto_add_sample F (now - t) rto
                 | None \<Rightarrow> Ok rto) of
             Err e \<Rightarrow> Some (Err e)
           | Panic s \<Rightarrow> Some (Panic s)
           | Ok rto \<Rightarrow>
               if length (us_bytes segment) > bytes_remaining
               then Some (Ok (segment\<lparr>us_bytes := buf_adjust E (us_bytes segment) bytes_remaining,
                                      us_initial_tx := None\<rparr> # rest, rto))
               else
                 let bytes_remaining = (if length (us_bytes segment) = 0 then 0 else bytes_remaining)
                 in remove_acked E F now (bytes_remaining - length (us_bytes segment)) rest rto))"

definition update_send_window :: "tcp_header \<Rightarrow> sender \<Rightarrow> sender" where
  "update_send_window header s =
     (if seq_lt (send_window_last_update_seq s) (tcp_seq_num header)
         \<or> (send_window_last_update_seq s = tcp_seq_num header
             \<and> seq_le (send_window_last_update_ack s) (tcp_ack_num header))
      then s\<lparr>send_window := push_bit (unat (snd_window_scale s) mod 32) (ucast (tcp_window_size header)),
             send_window_last_update_seq := tcp_seq_num header,
             send_window_last_update_ack := tcp_ack_num header\<rparr>
      else s)"

definition pop_one_unsent_byte :: "ext \<Rightarrow> sender \<Rightarrow> sender \<times> bytes option" where
  "pop_one_unsent_byte E s =
     (case unsent_queue s of
        [] \<Rightarrow> (s, None)
      | buf # q \<Rightarrow>
          (let cloned_buf = buf;
               buf_len = length buf
           in (s\<lparr>unsent_queue := buf_adjust E buf 1 # q\<rparr>,
               Some (buf_trim E cloned_buf (if buf_len = 0 then 2 ^ 64 - 1 else buf_len - 1)))))"

definition pop_unsent :: "ext \<Rightarrow> nat \<Rightarrow> sender \<Rightarrow> sender \<times> bytes option" where
  "pop_unsent E max_bytes s =
     (case unsent_queue s of
        [] \<Rightarrow> (s, None)
      | buf # q \<Rightarrow>
          (let buf_len = length buf
           in if buf_len > max_bytes
              then (s\<lparr>unsent_queue := buf_adjust E buf max_bytes # q\<rparr>,
                    Some (buf_trim E buf (buf_len - max_bytes)))
              else (s\<lparr>unsent_queue := q\<rparr>, Some buf)))"

definition top_size_unsent :: "sender \<Rightarrow> nat option" where
  "top_size_unsent s = (case unsent_queue s of [] \<Rightarrow> None | buf # _ \<Rightarrow> Some (length buf))"

end
