(* ===== verification/Tcp_Receive.thy ===== *)
theory Tcp_Receive
  imports Tcp_Ctrlblk
begin

text \<open>
  \<^verbatim>\<open>ControlBlock::receive\<close> of \<^verbatim>\<open>src/src/protocols/tcp/established/ctrlblk.rs\<close>, cut at its section
  comments: the acceptability test with the trimming to the window, the RST, SYN and ACK checks,
  the processing of the acknowledgement, the store of out-of-order segments, the segment text and
  the FIN.  Sequence numbers and lengths are 32-bit words throughout, as in the source.
\<close>

section \<open>The store of out-of-order segments\<close>

text \<open>
  One pass of the loop of \<^verbatim>\<open>store_out_of_order_segment\<close> over the stored segments from \<open>index\<close>
  on: where the new segment is to be inserted, that the stored segment at an index is to be
  removed first, or that the new segment is a duplicate.
\<close>

datatype ooo_scan = Duplicate | Encompasses nat seq_number seq_number bytes | InsertAt nat seq_number bytes

fun ooo_pass ::
    "ext \<Rightarrow> nat \<Rightarrow> nat \<Rightarrow> (seq_number \<times> bytes) list \<Rightarrow> seq_number \<Rightarrow> seq_number \<Rightarrow> bytes \<Rightarrow> ooo_scan" where
  "ooo_pass E len index [] new_start new_end buf = InsertAt len new_start buf"
| "ooo_pass E len index ((stored_start, stored_buf) # rest) new_start new_end buf =
     (let stored_len = (of_nat (length stored_buf) :: u32);
          stored_end = seq_add stored_start (stored_len - 1)
      in if seq_lt new_start stored_start then
           (if seq_lt new_end stored_start then InsertAt index new_start buf
            else if seq_lt stored_end new_end then Encompasses index new_start new_end buf
            else
              let excess = seq_sub new_end stored_start + 1
              in InsertAt len new_start (buf_trim E buf (unat excess)))
         else if seq_le new_end stored_end then Duplicate
         else if seq_lt stored_end new_start then ooo_pass E len (Suc index) rest new_start new_end buf
         else
           let duplicate = seq_sub stored_end new_start
           in ooo_pass E len (Suc index) rest (seq_add new_start duplicate) new_end
                (buf_adjust E buf (unat duplicate)))"

lemma ooo_pass_index:
  "ooo_pass E len i rest ns ne b = Encompasses k ns' ne' b' \<Longrightarrow> i \<le> k \<and> k < i + length rest"
proof (induction rest arbitrary: i ns b)
  case (Cons x rest)
  show ?case using Cons.prems
    by (cases x) (auto simp: Let_def split: if_splits dest!: Cons.IH)
qed simp

function store_out_of_order_segment ::
    "ext \<Rightarrow> seq_number \<Rightarrow> seq_number \<Rightarrow> bytes \<Rightarrow> (seq_number \<times> bytes) list \<Rightarrow> (seq_number \<times> bytes) list" where
  "store_out_of_order_segment E new_start new_end buf out_of_order =
     (case ooo_pass E (length out_of_order) 0 out_of_order new_start new_end buf of
        Duplicate \<Rightarrow> out_of_order
      | Encompasses i s e b \<Rightarrow>
          store_out_of_order_segment E s e b (take i out_of_order @ drop (Suc i) out_of_order)
      | InsertAt i s b \<Rightarrow> take MAX_OUT_OF_ORDER (take i out_of_order @ (s, b) # drop i out_of_order))"
  by pat_completeness auto
termination
  by (relation "measure (\<lambda>(_, _, _, _, q). length q)") (auto dest!: ooo_pass_index)

declare store_out_of_order_segment.simps [simp del]

section \<open>In-order data\<close>

text \<open>The loop of \<^verbatim>\<open>receive_data\<close> that moves stored segments to the receive queue.\<close>

fun recover_stored ::
    "seq_number \<Rightarrow> (seq_number \<times> bytes) list \<Rightarrow> receiver \<Rightarrow> bool \<Rightarrow>
     seq_number \<times> (seq_number \<times> bytes) list \<times> receiver \<times> bool" where
  "recover_stored recv_next [] r added = (recv_next, [], r, added)"
| "recover_stored recv_next ((s, b) # q) r added =
     (if s = recv_next
      then recover_stored (seq_add recv_next (of_nat (length b))) q (receiver_push b r) True
      else (recv_next, (s, b) # q, r, added))"

definition receive_data :: "bytes \<Rightarrow> ('f, 'cc) control_block \<Rightarrow> ('f, 'cc) control_block \<times> bool" where
  "receive_data buf cb =
     (let recv_next = receive_next (cb_receiver cb);
          recv_next = seq_add recv_next (of_nat (length buf));
          r = receiver_push buf (cb_receiver cb);
          (recv_next, q, r, added_out_of_order) = recover_stored recv_next (cb_out_of_order cb) r False;
          cb = cb\<lparr>cb_receiver := r, cb_out_of_order := q, cb_waker := False\<rparr>
      in (cb, added_out_of_order \<and> cb_out_of_order_fin cb \<noteq> None))"

section \<open>The acceptability test\<close>

datatype acceptance = Unacceptable | Acceptable tcp_header bytes seq_number seq_number u32

definition cut_front ::
    "ext \<Rightarrow> seq_number \<Rightarrow> seq_number \<Rightarrow> tcp_header \<Rightarrow> bytes \<Rightarrow> seq_number \<Rightarrow> seq_number \<Rightarrow> u32 \<Rightarrow> acceptance" where
  "cut_front E recv_next after_receive_window header data seg_start seg_end seg_len =
     (if seg_start \<noteq> recv_next then
        (if seq_lt seg_start recv_next then
           (if seq_lt seg_end recv_next then Unacceptable
            else
              let duplicate = seq_sub recv_next seg_start;
                  seg_start = seq_add seg_start duplicate;
                  seg_len = seg_len - duplicate;
                  duplicate = (if tcp_syn header then duplicate - 1 else duplicate);
                  header = header\<lparr>tcp_syn := False\<rparr>
              in Acceptable header (buf_adjust E data (unat duplicate)) seg_start seg_end seg_len)
         else if seq_ge seg_start after_receive_window then Unacceptable
         else Acceptable header data seg_start seg_end seg_len)
      else Acceptable header data seg_start seg_end seg_len)"

definition cut_end ::
    "ext \<Rightarrow> seq_number \<Rightarrow> tcp_header \<Rightarrow> bytes \<Rightarrow> seq_number \<Rightarrow> seq_number \<Rightarrow> u32 \<Rightarrow> acceptance" where
  "cut_end E after_receive_window header data seg_start seg_end seg_len =
     (if seg_len > 0 \<and> seq_ge seg_end after_receive_window
      then
        let excess = seq_sub seg_end after_receive_window + 1;
            seg_end = seq_sub seg_end excess;
            seg_len = seg_len - excess;
            excess = (if tcp_fin header then excess - 1 else excess);
            header = header\<lparr>tcp_fin := False\<rparr>
        in Acceptable header (buf_trim E data (unat excess)) seg_start seg_end seg_len
      else Acceptable header data seg_start seg_end seg_len)"

definition cb_accept :: "ext \<Rightarrow> tcp_header \<Rightarrow> bytes \<Rightarrow> ('f, 'cc) control_block \<Rightarrow> acceptance" where
  "cb_accept E header data cb =
     (let seg_start = tcp_seq_num header;
          seg_len = (of_nat (length data) :: u32);
          seg_len = (if tcp_syn header then seg_len + 1 else seg_len);
          seg_len = (if tcp_fin header then seg_len + 1 else seg_len);
          seg_end = (if seg_len > 0 then seq_add seg_start (seg_len - 1) else seg_start);
          recv_next = receive_next (cb_receiver cb);
          after_receive_window = seq_add recv_next (get_receive_window_size cb)
      in case cut_front E recv_next after_receive_window header data seg_start seg_end seg_len of
           Unacceptable \<Rightarrow> Unacceptable
         | Acceptable header data seg_start seg_end seg_len \<Rightarrow>
             cut_end E after_receive_window header data seg_start seg_end seg_len)"

section \<open>The acknowledgement\<close>

definition state_after_ack_of_all :: "tcp_state \<Rightarrow> tcp_state" where
  "state_after_ack_of_all s =
     (case s of FinWait1 \<Rightarrow> FinWait2 | Closing \<Rightarrow> TimeWait | LastAck \<Rightarrow> Closed | _ \<Rightarrow> s)"

text \<open>The boolean says whether the segment is processed further.\<close>

definition cb_process_ack ::
    "('f, 'cc) tcp_env \<Rightarrow> tcp_header \<Rightarrow> ('f, 'cc) control_block \<Rightarrow> (('f, 'cc) control_block \<times> bool) res option" where
  "cb_process_ack env header cb =
     (let send_unacknowledged = send_unacked (cb_sender cb);
          next = send_next (cb_sender cb);
          ack_num = tcp_ack_num header
      in case rto_estimate (te_fl env) (cb_rto cb) of
           Err e \<Rightarrow> Some (Err e) | Panic s \<Rightarrow> Some (Panic s)
         | Ok rto \<Rightarrow>
      let cb = cb\<lparr>cb_cc := cc_on_ack_received (te_cc env) (te_inow env) rto send_unacknowledged next ack_num (cb_cc cb)\<rparr>
      in if seq_lt send_unacknowledged ack_num then
           (if seq_le ack_num next then
              let bytes_acknowledged = seq_sub ack_num send_unacknowledged
              in case remove_acked (te_ext env) (te_fl env) (te_now env) (unat bytes_acknowledged)
                        (unacked_queue (cb_sender cb)) (cb_rto cb) of
                   None \<Rightarrow> None
                 | Some (Err e) \<Rightarrow> Some (Err e) | Some (Panic s) \<Rightarrow> Some (Panic s)
                 | Some (Ok (q, rto_calc)) \<Rightarrow>
                     let s = (cb_sender cb)\<lparr>unacked_queue := q, send_unacked := ack_num\<rparr>;
                         cb = cb\<lparr>cb_sender := update_send_window header s, cb_rto := rto_calc\<rparr>
                     in if ack_num = next
                        then Some (Ok (cb\<lparr>cb_retransmit_deadline := None,
                                          cb_state := state_after_ack_of_all (cb_state cb)\<rparr>, True))
                        else Some (res_bind (rto_estimate (te_fl env) (cb_rto cb)) (\<lambda>rto.
                               Ok (cb\<lparr>cb_retransmit_deadline := Some (te_now env + rto)\<rparr>, True)))
            else Some (res_bind (cb_send_ack env cb) (\<lambda>cb. Ok (cb, False))))
         else Some (Ok (cb, True)))"

section \<open>Segment text and FIN\<close>

definition receives_data :: "tcp_state \<Rightarrow> bool" where
  "receives_data s \<longleftrightarrow> s \<in> {Established, FinWait1, FinWait2}"

definition cb_receive_out_of_order ::
    "('f, 'cc) tcp_env \<Rightarrow> tcp_header \<Rightarrow> bytes \<Rightarrow> seq_number \<Rightarrow> seq_number \<Rightarrow> u32 \<Rightarrow>
     ('f, 'cc) control_block \<Rightarrow> ('f, 'cc) control_block res" where
  "cb_receive_out_of_order env header data seg_start seg_end seg_len cb =
     (if seg_len > 0 \<and> receives_data (cb_state cb)
      then
        let (seg_len, seg_end, cb) =
              (if tcp_fin header
               then (seg_len - 1, seq_sub seg_end 1, cb\<lparr>cb_out_of_order_fin := Some seg_end\<rparr>)
               else (seg_len, seg_end, cb));
            cb = (if seg_len > 0
                  then cb\<lparr>cb_out_of_order :=
                         store_out_of_order_segment (te_ext env) seg_start seg_end data (cb_out_of_order cb)\<rparr>
                  else cb)
        in cb_send_ack env cb
      else Ok cb)"

definition state_after_peer_fin :: "tcp_state \<Rightarrow> tcp_state res" where
  "state_after_peer_fin s =
     (case s of
        Established \<Rightarrow> Ok CloseWait
      | FinWait1 \<Rightarrow> Ok Closing
      | FinWait2 \<Rightarrow> Ok TimeWait
      | CloseWait \<Rightarrow> Ok s | Closing \<Rightarrow> Ok s | LastAck \<Rightarrow> Ok s
      | TimeWait \<Rightarrow> Ok s
      | Closed \<Rightarrow> Panic ''Bad TCP state'')"

definition cb_receive_in_order ::
    "('f, 'cc) tcp_env \<Rightarrow> tcp_header \<Rightarrow> bytes \<Rightarrow> ('f, 'cc) control_block \<Rightarrow> ('f, 'cc) control_block res" where
  "cb_receive_in_order env header data cb =
     (let (cb, fin, should_schedule_ack) =
            (if data \<noteq> [] \<and> receives_data (cb_state cb)
             then (let (cb, f) = receive_data data cb in (cb, tcp_fin header \<or> f, True))
             else (cb, tcp_fin header, False))
      in if fin
         then
           let r = cb_receiver cb;
               cb = cb\<lparr>cb_receiver := r\<lparr>receive_next := seq_add (receive_next r) 1\<rparr>\<rparr>
           in res_bind (state_after_peer_fin (cb_state cb)) (\<lambda>s. cb_send_ack env (cb\<lparr>cb_state := s\<rparr>))
         else if should_schedule_ack
         then (if cb_ack_deadline cb = None
               then Ok (cb\<lparr>cb_ack_deadline := Some (te_now env + cb_ack_delay_timeout cb)\<rparr>)
               else cb_send_ack env (cb\<lparr>cb_ack_deadline := None\<rparr>))
         else Ok cb)"

section \<open>The routine\<close>

definition cb_receive ::
    "('f, 'cc) tcp_env \<Rightarrow> tcp_header \<Rightarrow> bytes \<Rightarrow> ('f, 'cc) control_block \<Rightarrow> ('f, 'cc) control_block res option" where
  "cb_receive env header data cb =
     (let recv_next = receive_next (cb_receiver cb)
      in case cb_accept (te_ext env) header data cb of
           Unacceptable \<Rightarrow> Some (if \<not> tcp_rst header then cb_send_ack env cb else Ok cb)
         | Acceptable header data seg_start seg_end seg_len \<Rightarrow>
      if tcp_rst header then
        Some (if cb_state cb = Closed then Panic ''Bad TCP state'' else Ok (cb\<lparr>cb_state := Closed\<rparr>))
      else if tcp_syn header then Some (Ok (cb\<lparr>cb_state := Closed\<rparr>))
      else if \<not> tcp_ack header then Some (Ok cb)
      else case cb_process_ack env header cb of
             None \<Rightarrow> None
           | Some (Err e) \<Rightarrow> Some (Err e) | Some (Panic s) \<Rightarrow> Some (Panic s)
           | Some (Ok (cb, go_on)) \<Rightarrow>
               Some (if \<not> go_on then Ok cb
                     else if seg_start \<noteq> recv_next
                     then cb_receive_out_of_order env header data seg_start seg_end seg_len cb
                     else cb_receive_in_order env header data cb))"

end
