(* ===== verification/Tcp_Stream.thy ===== *)
theory Tcp_Stream
  imports Tcp_Receive
begin

text \<open>
  What the receive path delivers, related to the stream the peer sends.  The peer's stream is a
  function \<open>f\<close> from offsets to bytes, of length \<open>n\<close>; the byte at offset \<open>i\<close> has the
  sequence number \<open>seq_at s i\<close>, the FIN the number \<open>seq_at s n\<close>.  Segments may arrive in any
  order, overlap, be repeated, or fall outside the window.
\<close>

definition chunk :: "(nat \<Rightarrow> 'a) \<Rightarrow> nat \<Rightarrow> nat \<Rightarrow> 'a list" where
  "chunk f i n = map f [i..<i + n]"

lemma length_chunk [simp]: "length (chunk f i n) = n"
  by (simp add: chunk_def)

lemma drop_chunk [simp]: "drop k (chunk f i n) = chunk f (i + k) (n - k)"
  by (cases "k \<le> n") (simp_all add: chunk_def drop_map)

lemma take_chunk [simp]: "take k (chunk f i n) = chunk f i (min k n)"
  by (simp add: chunk_def take_map min_def)

lemma chunk_append: "chunk f i m @ chunk f (i + m) n = chunk f i (m + n)"
  by (simp add: chunk_def upt_add_eq_append [symmetric] flip: map_append add.assoc)

lemma chunk_0 [simp]: "chunk f i 0 = []"
  by (simp add: chunk_def)

definition stored_ok :: "seq_number \<Rightarrow> (nat \<Rightarrow> u8) \<Rightarrow> nat \<Rightarrow> seq_number \<times> bytes \<Rightarrow> bool" where
  "stored_ok s f hi e \<longleftrightarrow>
     (\<exists>i. fst e = seq_at s i \<and> snd e = chunk f i (length (snd e)) \<and> snd e \<noteq> [] \<and> i + length (snd e) \<le> hi)"

lemma stored_ok_mono: "stored_ok s f hi e \<Longrightarrow> hi \<le> hi' \<Longrightarrow> stored_ok s f hi' e"
  by (auto simp: stored_ok_def)

definition scan_ok :: "seq_number \<Rightarrow> (nat \<Rightarrow> u8) \<Rightarrow> nat \<Rightarrow> ooo_scan \<Rightarrow> bool" where
  "scan_ok s f hi r = (case r of
     Duplicate \<Rightarrow> True
   | Encompasses k ns ne b \<Rightarrow> stored_ok s f hi (ns, b) \<and> ne = seq_add ns (of_nat (length b) - 1)
   | InsertAt k ns b \<Rightarrow> stored_ok s f hi (ns, b))"

lemma scan_ok_Duplicate [simp]: "scan_ok s f hi Duplicate"
  by (simp add: scan_ok_def)

context buffer_ops
begin

lemma ooo_pass_ok:
  assumes "hi < 2 ^ 31" "\<forall>e \<in> set rest. stored_ok s f hi e"
    and "stored_ok s f hi (ns, b)" "ne = seq_add ns (of_nat (length b) - 1)"
  shows "scan_ok s f hi (ooo_pass E len k rest ns ne b)"
  using assms(2-4)
proof (induction rest arbitrary: k ns b)
  case Nil
  then show ?case by (simp add: scan_ok_def)
next
  case (Cons e rest)
  obtain ss sb where e: "e = (ss, sb)" by (cases e)
  from Cons.prems(1) e obtain i where i: "ss = seq_at s i" "sb \<noteq> []" "i + length sb \<le> hi"
    by (auto simp: stored_ok_def)
  from Cons.prems(2) obtain j where
    j: "ns = seq_at s j" "b = chunk f j (length b)" "b \<noteq> []" "j + length b \<le> hi"
    by (auto simp: stored_ok_def)
  have lens: "0 < length sb" "0 < length b" using i j by auto
  have se: "seq_add ss (of_nat (length sb) - 1) = seq_at s (i + length sb - 1)"
    using lens(1) by (simp add: i(1) seq_at_last)
  have ne: "ne = seq_at s (j + length b - 1)"
    using lens(2) Cons.prems(3) by (simp add: j(1) seq_at_last)
  have cmp: "seq_lt (seq_at s x) (seq_at s y) \<longleftrightarrow> x < y" "seq_le (seq_at s x) (seq_at s y) \<longleftrightarrow> x \<le> y"
    if "x \<le> hi" "y \<le> hi" for x y
    using that assms(1) by (intro seq_at_lt seq_at_le; simp)+
  have bounds: "i \<le> hi" "j \<le> hi" "i + length sb - 1 \<le> hi" "j + length b - 1 \<le> hi" using i j by auto
  have c: "seq_lt ns ss \<longleftrightarrow> j < i" "seq_lt ne ss \<longleftrightarrow> j + length b - 1 < i"
      "seq_lt (seq_at s (i + length sb - 1)) ne \<longleftrightarrow> i + length sb - 1 < j + length b - 1"
      "seq_le ne (seq_at s (i + length sb - 1)) \<longleftrightarrow> j + length b - 1 \<le> i + length sb - 1"
      "seq_lt (seq_at s (i + length sb - 1)) ns \<longleftrightarrow> i + length sb - 1 < j"
    unfolding i(1) j(1) ne by (rule cmp; rule bounds)+
  let ?d = "i + length sb - 1 - j" and ?x = "j + length b - 1 - i + 1"
  have step: "ooo_pass E len k (e # rest) ns ne b =
     (if j < i then
        if j + length b - 1 < i then InsertAt k ns b
        else if i + length sb - 1 < j + length b - 1 then Encompasses k ns ne b
        else InsertAt len ns (buf_trim E b (unat (seq_sub ne ss + 1)))
      else if j + length b - 1 \<le> i + length sb - 1 then Duplicate
      else if i + length sb - 1 < j then ooo_pass E len (Suc k) rest ns ne b
      else ooo_pass E len (Suc k) rest (seq_add ns (seq_sub (seq_at s (i + length sb - 1)) ns)) ne
             (buf_adjust E b (unat (seq_sub (seq_at s (i + length sb - 1)) ns))))"
    by (simp only: e ooo_pass.simps Let_def se c)
  have rest: "\<forall>e \<in> set rest. stored_ok s f hi e" using Cons.prems(1) by simp
  consider (before) "j < i" "j + length b - 1 < i \<or> i + length sb - 1 < j + length b - 1"
    | (front) "j < i" "i \<le> j + length b - 1" "j + length b - 1 \<le> i + length sb - 1"
    | (dup) "i \<le> j" "j + length b - 1 \<le> i + length sb - 1"
    | (after) "i \<le> j" "i + length sb - 1 < j"
    | (tail) "i \<le> j" "i + length sb - 1 < j + length b - 1" "j \<le> i + length sb - 1" by linarith
  then show ?case
  proof cases
    case before
    with Cons.prems(2,3) show ?thesis unfolding step by (auto simp: scan_ok_def)
  next
    case front
    have "seq_sub ne ss + 1 = (of_nat ?x :: u32)" using front by (simp add: ne i(1) seq_at_dist)
    moreover have "unat (of_nat ?x :: u32) = ?x" using j assms(1) by (intro unat_of_nat_u32) simp
    ultimately have x: "unat (seq_sub ne ss + 1) = ?x" by metis
    have xb: "?x \<le> length b" "length b - ?x = i - j" "i - j \<le> length b" using front lens by linarith+
    then have "buf_trim E b ?x = take (i - j) (chunk f j (length b))" using trim_take [of ?x b] j(2) by simp
    also have "\<dots> = chunk f j (i - j)" using xb(3) by (simp only: take_chunk min_absorb1)
    finally have "stored_ok s f hi (ns, buf_trim E b ?x)"
      using front(1) j(1) bounds(1) by (auto simp: stored_ok_def intro!: exI [of _ j] simp flip: length_greater_0_conv)
    with front show ?thesis unfolding step x by (simp add: scan_ok_def)
  next
    case dup
    then show ?thesis unfolding step by (simp add: scan_ok_def)
  next
    case after
    with Cons.IH [OF rest Cons.prems(2,3)] lens show ?thesis unfolding step by simp
  next
    case tail
    have d: "seq_sub (seq_at s (i + length sb - 1)) ns = of_nat ?d" "unat (of_nat ?d :: u32) = ?d"
      using tail i(3) assms(1) by (auto simp: j(1) seq_at_dist intro!: unat_of_nat_u32)
    have "?d \<le> length b" using tail by linarith
    then have b': "buf_adjust E b ?d = chunk f (j + ?d) (length b - ?d)"
      using adjust_drop [of ?d b] j(2) by (metis drop_chunk)
    have ns': "seq_add ns (of_nat ?d) = seq_at s (j + ?d)" by (simp add: j(1))
    have "stored_ok s f hi (seq_at s (j + ?d), chunk f (j + ?d) (length b - ?d))"
      using tail j(4) by (auto simp: stored_ok_def intro!: exI [of _ "j + ?d"] simp flip: length_greater_0_conv)
    moreover have "ne = seq_add (seq_at s (j + ?d)) (of_nat (length (chunk f (j + ?d) (length b - ?d))) - 1)"
    proof -
      have "0 < length b - ?d" "j + ?d + (length b - ?d) - 1 = j + length b - 1" using tail by linarith+
      then show ?thesis using seq_at_last [of "length b - ?d" s "j + ?d"] by (simp only: ne length_chunk)
    qed
    ultimately have "scan_ok s f hi (ooo_pass E len (Suc k) rest (seq_at s (j + ?d)) ne
        (chunk f (j + ?d) (length b - ?d)))" by (intro Cons.IH [OF rest])
    then show ?thesis using tail unfolding step d ns' b' by auto
  qed
qed

lemma store_ok:
  assumes "hi < 2 ^ 31" "\<forall>e \<in> set q. stored_ok s f hi e"
    and "stored_ok s f hi (ns, b)" "ne = seq_add ns (of_nat (length b) - 1)"
  shows "\<forall>e \<in> set (store_out_of_order_segment E ns ne b q). stored_ok s f hi e"
  using assms(2-4)
proof (induction q arbitrary: ns ne b rule: measure_induct_rule [of length])
  case (less q)
  have pass: "scan_ok s f hi (ooo_pass E (length q) 0 q ns ne b)"
    by (rule ooo_pass_ok [OF assms(1) less.prems])
  show ?case
  proof (cases "ooo_pass E (length q) 0 q ns ne b")
    case Duplicate
    with less.prems show ?thesis by (subst store_out_of_order_segment.simps) simp
  next
    case (Encompasses k ns' ne' b')
    let ?q = "take k q @ drop (Suc k) q"
    have "length ?q < length q" using ooo_pass_index [OF Encompasses] by simp
    moreover have "\<forall>e \<in> set ?q. stored_ok s f hi e"
      using less.prems(1) by (auto dest: in_set_takeD in_set_dropD)
    ultimately have "\<forall>e \<in> set (store_out_of_order_segment E ns' ne' b' ?q). stored_ok s f hi e"
      using pass Encompasses by (intro less.IH) (simp_all add: scan_ok_def)
    with Encompasses show ?thesis by (subst store_out_of_order_segment.simps) simp
  next
    case (InsertAt k ns' b')
    with pass have "stored_ok s f hi (ns', b')" by (simp add: scan_ok_def)
    with InsertAt less.prems(1) show ?thesis
      by (subst store_out_of_order_segment.simps) (auto dest!: in_set_takeD in_set_dropD)
  qed
qed

end

lemma store_length: "length (store_out_of_order_segment E ns ne b q) \<le> max (length q) MAX_OUT_OF_ORDER"
proof (induction q arbitrary: ns ne b rule: measure_induct_rule [of length])
  case (less q)
  show ?case
  proof (cases "ooo_pass E (length q) 0 q ns ne b")
    case (Encompasses k ns' ne' b')
    let ?q = "take k q @ drop (Suc k) q"
    have k: "length ?q < length q" using ooo_pass_index [OF Encompasses] by simp
    from less.IH [OF this, of ns' ne' b'] k have
      "length (store_out_of_order_segment E ns' ne' b' ?q) \<le> max (length q) MAX_OUT_OF_ORDER"
      by (meson le_max_iff_disj order_trans less_imp_le)
    with Encompasses show ?thesis by (subst store_out_of_order_segment.simps) simp
  qed (subst store_out_of_order_segment.simps, simp)+
qed

lemma recover_stored_ok:
  assumes "\<forall>e \<in> set q. stored_ok s f hi e" "hi < 2 ^ 31" "u \<le> r" "r \<le> hi"
    and "receive_next rc = seq_at s r" "concat (recv_queue rc) = chunk f u (r - u)"
    and "recover_stored (seq_at s r) q rc added = (rn, q', rc', added')"
  shows "\<exists>r'. r \<le> r' \<and> r' \<le> hi \<and> rn = seq_at s r' \<and> receive_next rc' = seq_at s r' \<and>
    reader_next rc' = reader_next rc \<and>
    concat (recv_queue rc') = chunk f u (r' - u) \<and> set q' \<subseteq> set q \<and> (added' \<longrightarrow> added \<or> q \<noteq> [])"
  using assms
proof (induction q arbitrary: r rc added)
  case (Cons e q)
  obtain ss b where e: "e = (ss, b)" by (cases e)
  show ?case
  proof (cases "ss = seq_at s r")
    case True
    from Cons.prems(1) e obtain i where i: "ss = seq_at s i" "b = chunk f i (length b)" "i + length b \<le> hi"
      by (auto simp: stored_ok_def)
    with True Cons.prems(2,4) have ir: "i = r" by (simp add: seq_at_eq_iff)
    let ?rc = "receiver_push b rc"
    have rc: "receive_next ?rc = seq_at s (r + length b)"
        "concat (recv_queue ?rc) = chunk f u (r + length b - u)" "reader_next ?rc = reader_next rc"
      using Cons.prems(3,5,6) i ir chunk_append [of f u "r - u" "length b"]
      by (simp_all add: receiver_push_def)
    have "recover_stored (seq_at s (r + length b)) q ?rc True = (rn, q', rc', added')"
      using Cons.prems(7) e True by simp
    moreover have "\<forall>e \<in> set q. stored_ok s f hi e" "u \<le> r + length b" "r + length b \<le> hi"
      using Cons.prems(1,3) i ir by auto
    ultimately obtain r' where "r + length b \<le> r'" "r' \<le> hi" "rn = seq_at s r'" "receive_next rc' = seq_at s r'"
      "reader_next rc' = reader_next rc" "concat (recv_queue rc') = chunk f u (r' - u)" "set q' \<subseteq> set q"
      using Cons.IH [of "r + length b" ?rc True] Cons.prems(2) rc by auto
    then show ?thesis by (intro exI [of _ r']) auto
  next
    case False
    with Cons.prems e show ?thesis by auto
  qed
qed auto

text \<open>What is left of a segment after the trimming: the part of the stream from \<open>k\<close> on.\<close>

definition span_ok :: "seq_number \<Rightarrow> (nat \<Rightarrow> u8) \<Rightarrow> nat \<Rightarrow> bool \<Rightarrow> bytes \<Rightarrow> seq_number \<Rightarrow> seq_number \<Rightarrow> u32 \<Rightarrow> bool" where
  "span_ok s f k fin d seg_start seg_end seg_len \<longleftrightarrow>
     seg_start = seq_at s k \<and> d = chunk f k (length d) \<and> seg_len = of_nat (length d + of_bool fin) \<and>
     (0 < length d + of_bool fin \<longrightarrow> seg_end = seq_at s (k + length d + of_bool fin - 1))"

context buffer_ops
begin

lemma cut_front_ok:
  assumes seg: "d = chunk f (i + of_bool (tcp_syn h)) (length d)" "L = length d + of_bool (tcp_syn h) + of_bool (tcp_fin h)"
    and lim: "i + L < 2 ^ 31" "hi < 2 ^ 31" "R \<le> hi"
    and cut: "cut_front E (seq_at s R) (seq_at s hi) h d (seq_at s i)
        (if 0 < L then seq_at s (i + L - 1) else seq_at s i) (of_nat L) = Acceptable h' d' ss se sl"
    and syn: "\<not> tcp_syn h'"
  shows "\<exists>k. span_ok s f k (tcp_fin h) d' ss se sl \<and> R \<le> k \<and> k \<le> hi \<and>
     k + length d' = i + of_bool (tcp_syn h) + length d \<and> h' = h\<lparr>tcp_syn := False\<rparr>"
proof (cases "i < R")
  case True
  have lt: "seq_lt (seq_at s i) (seq_at s R)" "seq_at s i \<noteq> seq_at s R"
    using True lim by (simp_all add: seq_at_lt seq_at_eq_iff)
  let ?e = "if 0 < L then seq_at s (i + L - 1) else seq_at s i"
  have acc: "\<not> seq_lt ?e (seq_at s R)"
    using cut lt by (auto simp: cut_front_def split: if_splits)
  have iL: "R < i + L"
  proof (rule ccontr)
    assume "\<not> R < i + L"
    then have "seq_lt ?e (seq_at s R)" using True lim by (auto simp: seq_at_lt)
    with acc show False by simp
  qed
  then have L: "0 < L" using True by simp
  let ?dup = "R - i"
  have dup: "seq_sub (seq_at s R) (seq_at s i) = of_nat ?dup" using True by (simp add: seq_at_dist)
  have u: "unat (if tcp_syn h then of_nat ?dup - 1 else of_nat ?dup :: u32) = ?dup - of_bool (tcp_syn h)"
  proof -
    have "of_nat ?dup - 1 = (of_nat (?dup - 1) :: u32)" using True by (cases ?dup) simp_all
    then show ?thesis using lim(1) iL by (auto simp: unat_of_nat take_bit_nat_eq_self simp del: of_nat_diff)
  qed
  have le: "?dup - of_bool (tcp_syn h) \<le> length d"
    using iL seg(2) by (cases "tcp_syn h"; cases "tcp_fin h") simp_all
  have d': "d' = chunk f R (i + of_bool (tcp_syn h) + length d - R)"
  proof -
    have "d' = buf_adjust E d (?dup - of_bool (tcp_syn h))"
      using cut lt acc L by (simp add: cut_front_def Let_def dup u)
    also have "\<dots> = drop (?dup - of_bool (tcp_syn h)) (chunk f (i + of_bool (tcp_syn h)) (length d))"
      using adjust_drop [OF le] seg(1) by simp
    also have "\<dots> = chunk f R (i + of_bool (tcp_syn h) + length d - R)"
    proof -
      have "i + of_bool (tcp_syn h) + (?dup - of_bool (tcp_syn h)) = R"
        "length d - (?dup - of_bool (tcp_syn h)) = i + of_bool (tcp_syn h) + length d - R"
        using True by (cases "tcp_syn h"; simp)+
      then show ?thesis by (simp only: drop_chunk)
    qed
    finally show ?thesis .
  qed
  have "ss = seq_at s R" "se = seq_at s (i + L - 1)" "sl = of_nat L - of_nat ?dup" "h' = h\<lparr>tcp_syn := False\<rparr>"
    using cut lt acc L True by (simp_all add: cut_front_def Let_def dup del: of_nat_diff)
  moreover have "of_nat L - of_nat ?dup = (of_nat (i + L - R) :: u32)" using True iL by simp
  moreover have "i + L - R = length d' + of_bool (tcp_fin h)" using d' iL seg(2) by (auto split: if_splits)
  ultimately show ?thesis
    using d' iL seg(2) lim(3) by (intro exI [of _ R]) (auto simp: span_ok_def)
next
  case False
  then have "\<not> seq_lt (seq_at s i) (seq_at s R)" using lim by (simp add: seq_at_lt)
  moreover have "seq_ge (seq_at s i) (seq_at s hi) \<longleftrightarrow> hi \<le> i" using lim by (simp add: seq_at_ge)
  moreover have "seq_at s i = seq_at s R \<longleftrightarrow> i = R" using lim by (simp add: seq_at_eq_iff)
  ultimately have "h' = h" "d' = d" "ss = seq_at s i" "sl = of_nat L" "i = R \<or> i < hi"
      "se = (if 0 < L then seq_at s (i + L - 1) else seq_at s i)"
    using cut by (auto simp: cut_front_def split: if_splits)
  then show ?thesis
    using False seg syn lim(3) by (intro exI [of _ i]) (auto simp: span_ok_def)
qed

lemma cut_end_ok:
  assumes span: "span_ok s f k (tcp_fin h) d ss se sl"
    and lim: "k + length d + 1 < 2 ^ 31" "hi < 2 ^ 31" "k \<le> hi"
    and cut: "cut_end E (seq_at s hi) h d ss se sl = Acceptable h' d' ss' se' sl'"
  shows "span_ok s f k (tcp_fin h') d' ss' se' sl' \<and> k + length d' + of_bool (tcp_fin h') \<le> hi \<and>
     length d' \<le> length d \<and> (tcp_fin h' \<longrightarrow> tcp_fin h \<and> d' = d) \<and> h' = h\<lparr>tcp_fin := tcp_fin h'\<rparr>"
proof -
  let ?l = "length d + of_bool (tcp_fin h)"
  have sl: "sl = of_nat ?l" and "ss = seq_at s k" and d: "d = chunk f k (length d)"
    using span by (auto simp: span_ok_def)
  have pos: "sl > 0 \<longleftrightarrow> 0 < ?l" 
    using lim(1) unfolding sl by (simp add: word_less_nat_alt unat_of_nat_u32 del: of_nat_add) 
  show ?thesis
  proof (cases "hi < k + ?l")
    case True
    then have l: "0 < ?l" using lim(3) by linarith
    then have se: "se = seq_at s (k + ?l - 1)" using span by (simp add: span_ok_def add.assoc)
    have ge: "seq_ge se (seq_at s hi)" unfolding se using True lim by (subst seq_at_ge) auto
    let ?x = "k + ?l - hi"
    have x: "seq_sub se (seq_at s hi) + 1 = (of_nat ?x :: u32)"
    proof -
      have "seq_sub se (seq_at s hi) = of_nat (k + ?l - 1 - hi)" unfolding se using True by (intro seq_at_dist) simp
      moreover have "?x = Suc (k + ?l - 1 - hi)" using True by linarith
      ultimately show ?thesis by (simp only: of_nat_Suc add.commute)
    qed
    have u: "unat (if tcp_fin h then of_nat ?x - 1 else of_nat ?x :: u32) = ?x - of_bool (tcp_fin h)"
    proof -
      have "of_nat ?x - 1 = (of_nat (?x - 1) :: u32)" using True by (cases ?x) simp_all
      moreover have "?x \<le> k + length d + 1" by (cases "tcp_fin h") simp_all
      ultimately show ?thesis
        using lim(1) by (auto simp: unat_of_nat take_bit_nat_eq_self simp del: of_nat_diff)
    qed
    have le: "?x - of_bool (tcp_fin h) \<le> length d" using lim(3) by (auto split: if_splits)
    have le_len: "hi - k \<le> length d" using True by (cases "tcp_fin h") auto
    have d': "d' = chunk f k (hi - k)"
    proof -
      have "d' = buf_trim E d (?x - of_bool (tcp_fin h))"
        using cut l ge pos by (simp add: cut_end_def Let_def x u)
      also have "\<dots> = take (length d - (?x - of_bool (tcp_fin h))) (chunk f k (length d))"
        using trim_take [OF le] d by simp
      also have "length d - (?x - of_bool (tcp_fin h)) = hi - k"
        using True lim(3) by (cases "tcp_fin h"; simp only: of_bool_eq; linarith)
      finally show ?thesis using le_len by (simp only: take_chunk min_absorb1)
    qed
    have "ss' = ss" "se' = seq_sub se (of_nat ?x)" "sl' = sl - of_nat ?x" "h' = h\<lparr>tcp_fin := False\<rparr>"
      using cut l ge pos by (simp_all add: cut_end_def Let_def x)
    moreover have "sl - of_nat ?x = (of_nat (hi - k) :: u32)"
      unfolding sl using True lim(3) by simp
    moreover have "k < hi \<Longrightarrow> seq_sub se (of_nat ?x) = seq_at s (hi - 1)"
      unfolding se using True lim(3) seq_at_sub [of ?x "k + ?l - 1" s] by (simp add: )
    ultimately show ?thesis
      using d' lim(3) \<open>ss = seq_at s k\<close> True le_len by (auto simp: span_ok_def)
  next
    case False
    have "\<not> (sl > 0 \<and> seq_ge se (seq_at s hi))"
    proof
      assume a: "sl > 0 \<and> seq_ge se (seq_at s hi)"
      then have "0 < ?l" "se = seq_at s (k + ?l - 1)" using pos span by (auto simp: span_ok_def add.assoc)
      moreover have "k + ?l - 1 < hi + 2 ^ 31" "hi \<le> k + ?l - 1 + 2 ^ 31" using False lim(2) by linarith+
      ultimately have "hi \<le> k + ?l - 1" using a seq_at_ge [of "k + ?l - 1" hi s] by blast
      with \<open>0 < ?l\<close> False show False by linarith
    qed
    then have "h' = h" "d' = d" "ss' = ss" "se' = se" "sl' = sl" using cut by (auto simp: cut_end_def)
    with span False show ?thesis by simp
  qed
qed

lemma cb_accept_ok:
  assumes seg: "tcp_seq_num h = seq_at s i" "d = chunk f (i + of_bool (tcp_syn h)) (length d)"
    and lim: "i + length d + 3 < 2 ^ 31" "hi < 2 ^ 31" "R \<le> hi"
    and cb: "receive_next (cb_receiver cb) = seq_at s R" "get_receive_window_size cb = of_nat (hi - R)"
    and acc: "cb_accept E h d cb = Acceptable h' d' ss se sl" and syn: "\<not> tcp_syn h'"
  shows "\<exists>k. span_ok s f k (tcp_fin h') d' ss se sl \<and> R \<le> k \<and> k + length d' + of_bool (tcp_fin h') \<le> hi \<and>
     k + length d' \<le> i + of_bool (tcp_syn h) + length d \<and>
     (tcp_fin h' \<longrightarrow> tcp_fin h \<and> k + length d' = i + of_bool (tcp_syn h) + length d) \<and>
     h' = h\<lparr>tcp_syn := False, tcp_fin := tcp_fin h'\<rparr>"
proof -
  let ?L = "length d + of_bool (tcp_syn h) + of_bool (tcp_fin h)"
  have L: "(if tcp_fin h then (if tcp_syn h then of_nat (length d) + 1 else of_nat (length d)) + 1
      else if tcp_syn h then of_nat (length d) + 1 else of_nat (length d)) = (of_nat ?L :: u32)" by simp
  have pos: "0 < (of_nat ?L :: u32) \<longleftrightarrow> 0 < ?L"
    using lim(1) by (subst word_less_nat_alt, subst unat_of_nat_u32) (auto split: if_splits)
  have e: "(if 0 < (of_nat ?L :: u32) then seq_add (seq_at s i) (of_nat ?L - 1) else seq_at s i)
      = (if 0 < ?L then seq_at s (i + ?L - 1) else seq_at s i)"
    unfolding pos by (simp only: seq_at_last if_cancel cong: if_cong)
  have after: "seq_add (seq_at s R) (of_nat (hi - R)) = seq_at s hi" using lim(3) by (simp del: of_nat_diff)
  obtain h1 d1 s1 e1 l1 where
    front: "cut_front E (seq_at s R) (seq_at s hi) h d (seq_at s i)
        (if 0 < ?L then seq_at s (i + ?L - 1) else seq_at s i) (of_nat ?L) = Acceptable h1 d1 s1 e1 l1"
    and end_cut: "cut_end E (seq_at s hi) h1 d1 s1 e1 l1 = Acceptable h' d' ss se sl"
    using acc unfolding cb_accept_def Let_def seg(1) cb L e after by (auto split: acceptance.splits)
  have iL: "i + ?L < 2 ^ 31" using lim(1) by (cases "tcp_syn h"; cases "tcp_fin h") simp_all
  have h1: "tcp_syn h' = tcp_syn h1" using end_cut by (auto simp: cut_end_def Let_def split: if_splits)
  obtain k where k: "span_ok s f k (tcp_fin h) d1 s1 e1 l1" "R \<le> k" "k \<le> hi"
     "k + length d1 = i + of_bool (tcp_syn h) + length d" "h1 = h\<lparr>tcp_syn := False\<rparr>"
    using cut_front_ok [OF seg(2) refl iL lim(2,3) front] syn h1 by auto
  have "span_ok s f k (tcp_fin h') d' ss se sl \<and> k + length d' + of_bool (tcp_fin h') \<le> hi \<and>
     length d' \<le> length d1 \<and> (tcp_fin h' \<longrightarrow> tcp_fin h1 \<and> d' = d1) \<and> h' = h1\<lparr>tcp_fin := tcp_fin h'\<rparr>"
    using k lim by (intro cut_end_ok [OF _ _ lim(2) k(3) end_cut]) auto
  then show ?thesis using k by (intro exI [of _ k]) auto
qed

end

section \<open>The invariant of the receive side\<close>

text \<open>
  The application has read up to offset \<open>u\<close>, the connection has received up to \<open>r\<close>, and
  \<open>x\<close> counts FINs that were consumed.
\<close>

definition rcv_inv ::
    "seq_number \<Rightarrow> (nat \<Rightarrow> u8) \<Rightarrow> nat \<Rightarrow> nat \<Rightarrow> nat \<Rightarrow> nat \<Rightarrow> ('f, 'cc) control_block \<Rightarrow> bool" where
  "rcv_inv s f n u r x cb \<longleftrightarrow>
     (let hi = u + unat (cb_receive_buffer_size cb)
      in reader_next (cb_receiver cb) = seq_at s u \<and>
         receive_next (cb_receiver cb) = seq_at s (r + x) \<and>
         concat (recv_queue (cb_receiver cb)) = chunk f u (r - u) \<and> u \<le> r \<and> r \<le> n \<and> r + x \<le> hi \<and>
         (\<forall>e \<in> set (cb_out_of_order cb). stored_ok s f (min n hi) e) \<and>
         (cb_out_of_order_fin cb \<noteq> None \<longrightarrow> n + 1 \<le> hi) \<and>
         (0 < x \<longrightarrow> \<not> receives_data (cb_state cb)))"

definition seg_of :: "seq_number \<Rightarrow> (nat \<Rightarrow> u8) \<Rightarrow> nat \<Rightarrow> tcp_header \<Rightarrow> bytes \<Rightarrow> bool" where
  "seg_of s f n h d \<longleftrightarrow>
     (\<exists>i. tcp_seq_num h = seq_at s i \<and> d = chunk f (i + of_bool (tcp_syn h)) (length d) \<and>
          i + of_bool (tcp_syn h) + length d \<le> n \<and>
          (tcp_fin h \<longrightarrow> i + of_bool (tcp_syn h) + length d = n))"

definition rcv_view where
  "rcv_view cb = (cb_receiver cb, cb_out_of_order cb, cb_out_of_order_fin cb, cb_receive_buffer_size cb)"

lemma rcv_inv_cong:
  "rcv_inv s f n u r x cb \<Longrightarrow> rcv_view cb' = rcv_view cb \<Longrightarrow>
   (\<not> receives_data (cb_state cb) \<longrightarrow> \<not> receives_data (cb_state cb')) \<Longrightarrow> rcv_inv s f n u r x cb'"
  by (auto simp: rcv_inv_def rcv_view_def Let_def)

lemma cb_emit_view [simp]:
  "rcv_view (cb_emit env h d m cb) = rcv_view cb"
  "\<not> tcp_fin h \<Longrightarrow> cb_state (cb_emit env h d m cb) = cb_state cb"
  by (simp_all add: cb_emit_def rcv_view_def Let_def)

lemma cb_tcp_header_fin: "cb_tcp_header cb = Ok h \<Longrightarrow> \<not> tcp_fin h \<and> tcp_ack h"
  by (auto simp: cb_tcp_header_def res_bind_Ok_iff tcp_header_new_def)

lemma cb_send_ack_view:
  "cb_send_ack env cb = Ok cb' \<Longrightarrow> rcv_view cb' = rcv_view cb \<and> cb_state cb' = cb_state cb"
  by (auto simp: cb_send_ack_def res_bind_Ok_iff Let_def dest!: cb_tcp_header_fin split: option.splits)

lemma cb_process_ack_view:
  assumes "cb_process_ack env h cb = Some (Ok (cb', go_on))"
  shows "rcv_view cb' = rcv_view cb \<and> (\<not> receives_data (cb_state cb) \<longrightarrow> \<not> receives_data (cb_state cb'))"
  using assms
  by (auto simp: cb_process_ack_def Let_def res_bind_Ok_iff rcv_view_def receives_data_def state_after_ack_of_all_def
      dest!: cb_send_ack_view split: res.splits if_splits option.splits tcp_state.splits)

lemma rcv_inv_window:
  assumes "rcv_inv s f n u r x cb" "u + unat (cb_receive_buffer_size cb) < 2 ^ 31"
  shows "get_receive_window_size cb = of_nat (u + unat (cb_receive_buffer_size cb) - (r + x))"
proof -
  have i: "u \<le> r + x" "r + x \<le> u + unat (cb_receive_buffer_size cb)"
    "receive_next (cb_receiver cb) = seq_at s (r + x)" "reader_next (cb_receiver cb) = seq_at s u"
    using assms(1) by (auto simp: rcv_inv_def Let_def)
  then have "get_receive_window_size cb = cb_receive_buffer_size cb - of_nat (r + x - u)"
    by (simp add: get_receive_window_size_def seq_at_dist del: of_nat_add of_nat_diff)
  also have "\<dots> = of_nat (unat (cb_receive_buffer_size cb) - (r + x - u))"
    using i(1,2) by (simp add: of_nat_diff)
  finally show ?thesis using i by simp
qed

lemma state_after_peer_fin_closed: "state_after_peer_fin st = Ok st' \<Longrightarrow> \<not> receives_data st'"
  by (auto simp: state_after_peer_fin_def receives_data_def split: tcp_state.splits)

text \<open>Consuming a FIN.\<close>

lemma rcv_inv_fin:
  assumes "rcv_inv s f n u r x cb" "r + x + 1 \<le> u + unat (cb_receive_buffer_size cb)" "\<not> receives_data st"
  shows "rcv_inv s f n u r (x + 1) (cb\<lparr>cb_receiver := (cb_receiver cb)\<lparr>receive_next :=
     seq_add (receive_next (cb_receiver cb)) 1\<rparr>, cb_state := st\<rparr>)"
  using assms seq_at_add [of s "r + x" 1] by (simp add: rcv_inv_def Let_def)

lemma receive_data_inv:
  assumes inv: "rcv_inv s f n u r 0 cb" and lim: "u + unat (cb_receive_buffer_size cb) < 2 ^ 31"
    and d: "d = chunk f r (length d)" "r + length d \<le> n" "r + length d \<le> u + unat (cb_receive_buffer_size cb)"
    and rd: "receive_data d cb = (cb', fin)"
  shows "\<exists>r'. r + length d \<le> r' \<and> rcv_inv s f n u r' 0 cb' \<and> cb_state cb' = cb_state cb \<and>
     cb_receive_buffer_size cb' = cb_receive_buffer_size cb \<and> cb_ack_deadline cb' = cb_ack_deadline cb \<and>
     (fin \<longrightarrow> n + 1 \<le> u + unat (cb_receive_buffer_size cb))"
proof -
  let ?hi = "u + unat (cb_receive_buffer_size cb)"
  let ?rc = "receiver_push d (cb_receiver cb)"
  have i: "receive_next (cb_receiver cb) = seq_at s r" "u \<le> r" "concat (recv_queue (cb_receiver cb)) = chunk f u (r - u)"
    "\<forall>e \<in> set (cb_out_of_order cb). stored_ok s f (min n ?hi) e"
    using inv by (auto simp: rcv_inv_def Let_def)
  have rc: "receive_next ?rc = seq_at s (r + length d)" "concat (recv_queue ?rc) = chunk f u (r + length d - u)"
    "reader_next ?rc = reader_next (cb_receiver cb)"
    using i d(1) chunk_append [of f u "r - u" "length d"] by (simp_all add: receiver_push_def)
  obtain rn q' rc' added where rec: "recover_stored (seq_at s (r + length d)) (cb_out_of_order cb) ?rc False
      = (rn, q', rc', added)" by (metis prod_cases4)
  have "min n ?hi < 2 ^ 31" "u \<le> r + length d" "r + length d \<le> min n ?hi" using lim i(2) d by auto
  from recover_stored_ok [OF i(4) this rc(1,2) rec] obtain r' where
    r': "r + length d \<le> r'" "r' \<le> min n ?hi" "receive_next rc' = seq_at s r'"
    "reader_next rc' = reader_next ?rc" "concat (recv_queue rc') = chunk f u (r' - u)" "set q' \<subseteq> set (cb_out_of_order cb)"
    by blast
  have cb': "cb' = cb\<lparr>cb_receiver := rc', cb_out_of_order := q', cb_waker := False\<rparr>"
    "fin \<longleftrightarrow> added \<and> cb_out_of_order_fin cb \<noteq> None"
    using rd rec i(1) by (simp_all add: receive_data_def Let_def)
  with inv r' rc i show ?thesis by (intro exI [of _ r']) (auto simp: rcv_inv_def Let_def)
qed

lemma receive_in_order_inv:
  assumes inv: "rcv_inv s f n u r x cb" and lim: "u + unat (cb_receive_buffer_size cb) < 2 ^ 31"
    and d: "d = chunk f (r + x) (length d)" "r + x + length d \<le> n"
      "r + x + length d + of_bool (tcp_fin h) \<le> u + unat (cb_receive_buffer_size cb)"
      "tcp_fin h \<longrightarrow> r + x + length d = n"
    and rcv: "cb_receive_in_order env h d cb = Ok cb'"
  shows "\<exists>r' x'. r \<le> r' \<and> rcv_inv s f n u r' x' cb'"
proof -
  let ?hi = "u + unat (cb_receive_buffer_size cb)"
  define take_data where "take_data \<longleftrightarrow> d \<noteq> [] \<and> receives_data (cb_state cb)"
  obtain cb1 fin1 where cb1: "(if take_data then receive_data d cb else (cb, False)) = (cb1, fin1)" by fastforce
  let ?fin = "tcp_fin h \<or> fin1"
  have x0: "take_data \<Longrightarrow> x = 0" using inv by (auto simp: take_data_def rcv_inv_def Let_def)
  obtain r1 where r1: "r \<le> r1" "rcv_inv s f n u r1 x cb1" "cb_state cb1 = cb_state cb"
      "cb_receive_buffer_size cb1 = cb_receive_buffer_size cb"
      "?fin \<Longrightarrow> r1 + x + 1 \<le> ?hi"
  proof (cases take_data)
    case True
    with x0 have x: "x = 0" by simp
    from cb1 True have rd: "receive_data d cb = (cb1, fin1)" by simp
    from receive_data_inv [OF inv [unfolded x] lim _ _ _ rd] d x obtain r' where
      r': "r + length d \<le> r'" "rcv_inv s f n u r' 0 cb1" "cb_state cb1 = cb_state cb"
        "cb_receive_buffer_size cb1 = cb_receive_buffer_size cb" "fin1 \<longrightarrow> n + 1 \<le> ?hi" by auto
    moreover have "r' \<le> n" using r'(2) by (simp add: rcv_inv_def Let_def)
    moreover have "tcp_fin h \<Longrightarrow> n + 1 \<le> ?hi" using d(3,4) x by simp
    ultimately show ?thesis using x by (intro that [of r']) auto
  next
    case False
    with cb1 have "cb1 = cb" "\<not> fin1" by auto
    with inv d show ?thesis by (intro that [of r]) auto
  qed
  have rcv': "cb_receive_in_order env h d cb =
     (if ?fin then res_bind (state_after_peer_fin (cb_state cb1)) (\<lambda>st. cb_send_ack env
          (cb1\<lparr>cb_receiver := (cb_receiver cb1)\<lparr>receive_next := seq_add (receive_next (cb_receiver cb1)) 1\<rparr>, cb_state := st\<rparr>))
      else if take_data then
        (if cb_ack_deadline cb1 = None
         then Ok (cb1\<lparr>cb_ack_deadline := Some (te_now env + cb_ack_delay_timeout cb1)\<rparr>)
         else cb_send_ack env (cb1\<lparr>cb_ack_deadline := None\<rparr>))
      else Ok cb1)"
    using cb1 unfolding take_data_def by (auto simp: cb_receive_in_order_def Let_def)
  show ?thesis
  proof (cases ?fin)
    case True
    with rcv rcv' obtain st where st: "state_after_peer_fin (cb_state cb1) = Ok st"
      "cb_send_ack env (cb1\<lparr>cb_receiver := (cb_receiver cb1)\<lparr>receive_next :=
          seq_add (receive_next (cb_receiver cb1)) 1\<rparr>, cb_state := st\<rparr>) = Ok cb'"
      by (auto simp: res_bind_Ok_iff)
    have "rcv_inv s f n u r1 (x + 1) (cb1\<lparr>cb_receiver := (cb_receiver cb1)\<lparr>receive_next :=
          seq_add (receive_next (cb_receiver cb1)) 1\<rparr>, cb_state := st\<rparr>)"
      using r1(4,5) True state_after_peer_fin_closed [OF st(1)] by (intro rcv_inv_fin [OF r1(2)]) auto
    with cb_send_ack_view [OF st(2)] r1(1) show ?thesis
      by (intro exI [of _ r1] exI [of _ "x + 1"]) (auto elim!: rcv_inv_cong)
  next
    case False
    with rcv rcv' have "rcv_view cb' = rcv_view cb1 \<and> cb_state cb' = cb_state cb1"
      by (auto simp: rcv_view_def dest!: cb_send_ack_view split: if_splits)
    with r1(1,2) show ?thesis by (intro exI [of _ r1] exI [of _ x]) (auto elim!: rcv_inv_cong)
  qed
qed

context buffer_ops
begin

lemma receive_out_of_order_inv:
  assumes inv: "rcv_inv s f n u r x cb" and lim: "u + unat (cb_receive_buffer_size cb) < 2 ^ 31" "n + 3 < 2 ^ 31"
    and span: "span_ok s f k (tcp_fin h) d ss se sl" and env: "te_ext env = E"
    and d: "k + length d \<le> n" "k + length d + of_bool (tcp_fin h) \<le> u + unat (cb_receive_buffer_size cb)"
      "tcp_fin h \<longrightarrow> k + length d = n"
    and rcv: "cb_receive_out_of_order env h d ss se sl cb = Ok cb'"
  shows "rcv_inv s f n u r x cb'"
proof (cases "sl > 0 \<and> receives_data (cb_state cb)")
  case False
  then show ?thesis using inv rcv by (auto simp: cb_receive_out_of_order_def split: if_splits)
next
  case True
  let ?hi = "u + unat (cb_receive_buffer_size cb)"
  let ?se = "if tcp_fin h then seq_sub se 1 else se"
  let ?cb = "if tcp_fin h then cb\<lparr>cb_out_of_order_fin := Some se\<rparr> else cb"
  have sl: "sl = of_nat (length d + of_bool (tcp_fin h))" "ss = seq_at s k" using span by (auto simp: span_ok_def)
  have len: "length d < 2 ^ 31" using d(1) lim(2) by simp
  have sl': "(if tcp_fin h then sl - 1 else sl) = of_nat (length d)" by (simp add: sl)
  have pos: "(of_nat (length d) :: u32) > 0 \<longleftrightarrow> d \<noteq> []"
    using len by (simp add: word_less_nat_alt unat_of_nat_u32)
  have inv1: "rcv_inv s f n u r x ?cb" using inv d by (auto simp: rcv_inv_def Let_def)
  let ?q = "store_out_of_order_segment E ss ?se d (cb_out_of_order cb)"
  have "cb_send_ack env (if d \<noteq> [] then ?cb\<lparr>cb_out_of_order := ?q\<rparr> else ?cb) = Ok cb'"
    using rcv True sl' pos env by (auto simp: cb_receive_out_of_order_def Let_def split: if_splits)
  moreover have "rcv_inv s f n u r x (?cb\<lparr>cb_out_of_order := ?q\<rparr>)" if ne: "d \<noteq> []"
  proof -
    have "\<forall>e \<in> set (cb_out_of_order cb). stored_ok s f (min n ?hi) e"
      using inv by (simp add: rcv_inv_def Let_def)
    moreover have "stored_ok s f (min n ?hi) (ss, d)"
      using span ne d(1,2) by (auto simp: stored_ok_def span_ok_def intro!: exI [of _ k])
    moreover have "?se = seq_add ss (of_nat (length d) - 1)"
    proof -
      have "0 < length d" using ne by simp
      then have "seq_add ss (of_nat (length d) - 1) = seq_at s (k + length d - 1)"
        using sl(2) by (simp only: seq_at_last)
      moreover have "?se = seq_at s (k + length d - 1)"
        using span ne seq_at_sub [of 1 "k + length d" s, OF trans_le_add2] \<open>0 < length d\<close>
        by (auto simp: span_ok_def Suc_le_eq)
      ultimately show ?thesis by simp
    qed
    ultimately have "\<forall>e \<in> set ?q. stored_ok s f (min n ?hi) e"
      using lim by (intro store_ok) auto
    then show ?thesis using inv1 by (auto simp: rcv_inv_def Let_def)
  qed
  ultimately show ?thesis
    using inv1 cb_send_ack_view [of env "if d \<noteq> [] then ?cb\<lparr>cb_out_of_order := ?q\<rparr> else ?cb" cb']
    by (cases "d = []") (auto elim!: rcv_inv_cong)
qed

lemma cb_receive_inv:
  assumes inv: "rcv_inv s f n u r x cb" and seg: "seg_of s f n h d" and env: "te_ext env = E"
    and lim: "u + unat (cb_receive_buffer_size cb) < 2 ^ 31" "n + 3 < 2 ^ 31"
    and rcv: "cb_receive env h d cb = Some (Ok cb')"
  shows "\<exists>r' x'. r \<le> r' \<and> rcv_inv s f n u r' x' cb'"
proof (cases "cb_accept (te_ext env) h d cb")
  case Unacceptable
  then have "rcv_view cb' = rcv_view cb \<and> cb_state cb' = cb_state cb"
    using rcv by (auto simp: cb_receive_def dest!: cb_send_ack_view split: if_splits)
  then have "rcv_inv s f n u r x cb'" by (intro rcv_inv_cong [OF inv]) auto
  then show ?thesis by blast
next
  case (Acceptable h1 d1 ss se sl)
  let ?hi = "u + unat (cb_receive_buffer_size cb)"
  show ?thesis
  proof (cases "\<not> tcp_rst h1 \<and> \<not> tcp_syn h1 \<and> tcp_ack h1")
    case False
    then have "rcv_view cb' = rcv_view cb \<and> (\<not> receives_data (cb_state cb) \<longrightarrow> \<not> receives_data (cb_state cb'))"
      using rcv Acceptable by (auto simp: cb_receive_def rcv_view_def receives_data_def split: if_splits)
    with inv show ?thesis by (blast intro: rcv_inv_cong)
  next
    case True
    from rcv Acceptable True obtain cb1 go_on where ack: "cb_process_ack env h1 cb = Some (Ok (cb1, go_on))"
      and rest: "(if \<not> go_on then Ok cb1 else if ss \<noteq> receive_next (cb_receiver cb)
          then cb_receive_out_of_order env h1 d1 ss se sl cb1 else cb_receive_in_order env h1 d1 cb1) = Ok cb'"
      by (auto simp: cb_receive_def Let_def split: option.splits res.splits)
    have inv1: "rcv_inv s f n u r x cb1" and buf: "cb_receive_buffer_size cb1 = cb_receive_buffer_size cb"
      using cb_process_ack_view [OF ack] rcv_inv_cong [OF inv, of cb1] by (auto simp: rcv_view_def)
    from seg obtain i where i: "tcp_seq_num h = seq_at s i" "d = chunk f (i + of_bool (tcp_syn h)) (length d)"
      "i + of_bool (tcp_syn h) + length d \<le> n" "tcp_fin h \<longrightarrow> i + of_bool (tcp_syn h) + length d = n"
      by (auto simp: seg_of_def)
    have R: "receive_next (cb_receiver cb) = seq_at s (r + x)" "r + x \<le> ?hi"
      using inv by (auto simp: rcv_inv_def Let_def)
    obtain k where k: "span_ok s f k (tcp_fin h1) d1 ss se sl" "r + x \<le> k"
        "k + length d1 + of_bool (tcp_fin h1) \<le> ?hi" "k + length d1 \<le> n" "tcp_fin h1 \<longrightarrow> k + length d1 = n"
      using cb_accept_ok [OF i(1,2) _ lim(1) R(2,1) rcv_inv_window [OF inv lim(1)] Acceptable [unfolded env]] True i(3,4) lim(2)
      by fastforce
    have ss: "ss = seq_at s k" using k(1) by (simp add: span_ok_def)
    show ?thesis
    proof (cases "go_on")
      case go: True
      show ?thesis
      proof (cases "ss = receive_next (cb_receiver cb)")
        case True
        with ss R k(2) lim have "k = r + x" using seq_at_eq_iff [of k "r + x" s] k(3) by auto
        with k rest go True lim(1) buf show ?thesis
          by (intro receive_in_order_inv [OF inv1, of d1 h1 env]) (auto simp: span_ok_def)
      next
        case False
        with k rest go lim buf have "rcv_inv s f n u r x cb'"
          by (intro receive_out_of_order_inv [OF inv1 _ lim(2) k(1) env]) auto
        then show ?thesis by blast
      qed
    next
      case False
      with rest inv1 show ?thesis by auto
    qed
  qed
qed

end

section \<open>Segments and reads in any order\<close>

text \<open>What happens to a connection at the receiving side, and what the application has read.\<close>

datatype ('f, 'cc) rcv_event = Segment "('f, 'cc) tcp_env" tcp_header bytes | Read

text \<open>\<open>None\<close>: the run ended in a panic, an error or an endless loop.\<close>

fun rcv_run ::
    "('f, 'cc) rcv_event list \<Rightarrow> ('f, 'cc) control_block \<times> bytes \<Rightarrow> (('f, 'cc) control_block \<times> bytes) option" where
  "rcv_run [] (cb, out) = Some (cb, out)"
| "rcv_run (Segment env h d # es) (cb, out) =
     (case cb_receive env h d cb of
        Some (Ok cb) \<Rightarrow> rcv_run es (cb, out)
      | _ \<Rightarrow> None)"
| "rcv_run (Read # es) (cb, out) =
     (case cb_poll_recv cb of
        (cb, Some (Ok b)) \<Rightarrow> rcv_run es (cb, out @ b)
      | (cb, None) \<Rightarrow> rcv_run es (cb, out)
      | _ \<Rightarrow> None)"

lemma cb_poll_recv_inv:
  assumes inv: "rcv_inv s f n u r x cb" and poll: "cb_poll_recv cb = (cb', a)"
  shows "a = None \<and> rcv_inv s f n u r x cb' \<or>
         (\<exists>b. a = Some (Ok b) \<and> b = chunk f u (length b) \<and> rcv_inv s f n (u + length b) r x cb')"
proof (cases "recv_queue (cb_receiver cb)")
  case Nil
  with poll inv show ?thesis by (auto simp: cb_poll_recv_def rcv_inv_def Let_def)
next
  case (Cons b q)
  have app: "b @ concat q = chunk f u (r - u)" and ur: "u \<le> r" using inv Cons by (auto simp: rcv_inv_def Let_def)
  have "length (b @ concat q) = r - u" by (simp only: app length_chunk)
  then have len: "length b \<le> r - u" by simp
  have b: "b = chunk f u (length b)" using arg_cong [OF app, of "take (length b)"] len by (simp add: min_def)
  have q: "concat q = chunk f (u + length b) (r - (u + length b))"
    using arg_cong [OF app, of "drop (length b)"] by simp
  have cb': "cb' = cb\<lparr>cb_receiver := (cb_receiver cb)\<lparr>recv_queue := q, reader_next := seq_at s (u + length b)\<rparr>\<rparr>"
    "a = Some (Ok b)"
    using poll Cons inv by (auto simp: cb_poll_recv_def receiver_pop_def rcv_inv_def Let_def seq_at_add)
  have "rcv_inv s f n (u + length b) r x cb'"
    using inv q len ur unfolding cb'(1) by (auto simp: rcv_inv_def Let_def intro: stored_ok_mono)
  with b cb' show ?thesis by blast
qed

lemma rcv_inv_reader: "rcv_inv s f n u r x cb \<Longrightarrow> u \<le> n"
  by (simp add: rcv_inv_def Let_def)

definition cb_fixed where
  "cb_fixed cb = (cb_local cb, cb_remote cb, cb_receive_buffer_size cb, cb_window_scale cb,
     cb_ack_delay_timeout cb, cb_user_is_done_sending cb)"

lemma cb_send_ack_fixed: "cb_send_ack env cb = Ok cb' \<Longrightarrow> cb_fixed cb' = cb_fixed cb"
  by (auto simp: cb_send_ack_def res_bind_Ok_iff Let_def cb_emit_def cb_fixed_def split: option.splits if_splits)

lemma cb_process_ack_fixed: "cb_process_ack env h cb = Some (Ok (cb', g)) \<Longrightarrow> cb_fixed cb' = cb_fixed cb"
  by (auto simp: cb_process_ack_def Let_def res_bind_Ok_iff dest!: cb_send_ack_fixed
      split: res.splits if_splits option.splits) (simp_all add: cb_fixed_def)

lemma receive_data_fixed: "receive_data b cb = (cb', g) \<Longrightarrow> cb_fixed cb' = cb_fixed cb"
  by (auto simp: receive_data_def Let_def cb_fixed_def split: prod.splits)

lemma cb_receive_out_of_order_fixed:
  "cb_receive_out_of_order env h d ss se sl cb = Ok cb' \<Longrightarrow> cb_fixed cb' = cb_fixed cb"
  by (auto simp: cb_receive_out_of_order_def Let_def dest!: cb_send_ack_fixed split: if_splits)
    (simp_all add: cb_fixed_def)

lemma cb_receive_in_order_fixed:
  "cb_receive_in_order env h d cb = Ok cb' \<Longrightarrow> cb_fixed cb' = cb_fixed cb"
  by (auto simp: cb_receive_in_order_def Let_def res_bind_Ok_iff dest!: cb_send_ack_fixed receive_data_fixed
      split: if_splits prod.splits) (simp_all add: cb_fixed_def)

lemma cb_receive_fixed: "cb_receive env h d cb = Some (Ok cb') \<Longrightarrow> cb_fixed cb' = cb_fixed cb"
  by (auto simp: cb_receive_def Let_def dest!: cb_send_ack_fixed cb_process_ack_fixed cb_receive_out_of_order_fixed
      cb_receive_in_order_fixed split: acceptance.splits if_splits option.splits res.splits)
    (simp_all add: cb_fixed_def)

lemma rcv_run_buffer_size:
  "rcv_run es (cb, out) = Some (cb', out') \<Longrightarrow> cb_receive_buffer_size cb' = cb_receive_buffer_size cb"
proof (induction es arbitrary: cb out)
  case (Cons e es)
  show ?case
  proof (cases e)
    case (Segment env h d)
    with Cons.prems obtain cb1 where cb1: "cb_receive env h d cb = Some (Ok cb1)" "rcv_run es (cb1, out) = Some (cb', out')"
      by (auto split: option.splits res.splits)
    from Cons.IH [OF cb1(2)] cb_receive_fixed [OF cb1(1)] show ?thesis by (simp add: cb_fixed_def)
  next
    case Read
    obtain cb1 a where poll: "cb_poll_recv cb = (cb1, a)" by fastforce
    with Cons.prems Read obtain out1 where "rcv_run es (cb1, out1) = Some (cb', out')"
      by (auto split: option.splits res.splits)
    from Cons.IH [OF this] poll show ?thesis
      by (auto simp: cb_poll_recv_def receiver_pop_def Let_def split: if_splits list.splits)
  qed
qed simp

context buffer_ops
begin

lemma rcv_run_inv:
  assumes "rcv_run es (cb, out) = Some (cb', out')" "rcv_inv s f n u r x cb" "out = chunk f 0 u"
    and "n + unat (cb_receive_buffer_size cb) + 3 < 2 ^ 31"
    and "\<forall>env h d. Segment env h d \<in> set es \<longrightarrow> te_ext env = E \<and> seg_of s f n h d"
  shows "\<exists>u' r' x'. u \<le> u' \<and> r \<le> r' \<and> out' = chunk f 0 u' \<and> rcv_inv s f n u' r' x' cb'"
  using assms
proof (induction es arbitrary: cb out u r x)
  case Nil
  then show ?case by auto
next
  case (Cons e es)
  show ?case
  proof (cases e)
    case (Segment env h d)
    with Cons.prems(1) obtain cb1 where cb1: "cb_receive env h d cb = Some (Ok cb1)" "rcv_run es (cb1, out) = Some (cb', out')"
      by (auto split: option.splits res.splits)
    have lim: "u + unat (cb_receive_buffer_size cb) < 2 ^ 31" "n + 3 < 2 ^ 31"
      using Cons.prems(4) rcv_inv_reader [OF Cons.prems(2)] by auto
    have seg: "seg_of s f n h d" "te_ext env = E" using Cons.prems(5) Segment by auto
    from cb_receive_inv [OF Cons.prems(2) seg lim cb1(1)] obtain r1 x1 where
      r1: "r \<le> r1" "rcv_inv s f n u r1 x1 cb1" by auto
    have "cb_receive_buffer_size cb1 = cb_receive_buffer_size cb"
      using cb_receive_fixed [OF cb1(1)] by (simp add: cb_fixed_def)
    then have "\<exists>u' r' x'. u \<le> u' \<and> r1 \<le> r' \<and> out' = chunk f 0 u' \<and> rcv_inv s f n u' r' x' cb'"
      using Cons.prems by (intro Cons.IH [OF cb1(2) r1(2)]) auto
    with r1(1) show ?thesis using le_trans by blast
  next
    case Read
    obtain cb1 a where poll: "cb_poll_recv cb = (cb1, a)" by fastforce
    have buf: "cb_receive_buffer_size cb1 = cb_receive_buffer_size cb"
      using poll by (auto simp: cb_poll_recv_def receiver_pop_def Let_def split: if_splits list.splits)
    from cb_poll_recv_inv [OF Cons.prems(2) poll] show ?thesis
    proof (elim disjE conjE exE)
      assume a: "a = None" and inv: "rcv_inv s f n u r x cb1"
      with Cons.prems Read poll have "rcv_run es (cb1, out) = Some (cb', out')" by simp
      from Cons.IH [OF this inv] Cons.prems buf show ?thesis by simp
    next
      fix b assume b: "a = Some (Ok b)" "b = chunk f u (length b)" "rcv_inv s f n (u + length b) r x cb1"
      with Cons.prems Read poll have run: "rcv_run es (cb1, out @ b) = Some (cb', out')" by simp
      have "out @ b = chunk f 0 (u + length b)" using Cons.prems(3) b(2) chunk_append [of f 0 u "length b"] by simp
      then have "\<exists>u' r' x'. u + length b \<le> u' \<and> r \<le> r' \<and> out' = chunk f 0 u' \<and> rcv_inv s f n u' r' x' cb'"
        using Cons.prems buf by (intro Cons.IH [OF run b(3)]) auto
      then show ?thesis using add_leD1 by blast
    qed
  qed
qed

end

section \<open>In-order delivery\<close>

lemma hdr_window_size_total:
  assumes "unat (drop_bit (unat (cb_window_scale cb) mod 32) (cb_receive_buffer_size cb)) < 2 ^ 16"
    and "get_receive_window_size cb \<le> cb_receive_buffer_size cb"
  shows "\<exists>w. hdr_window_size cb = Ok w"
proof -
  have "unat (drop_bit k (get_receive_window_size cb)) \<le> unat (drop_bit k (cb_receive_buffer_size cb))" for k
    using assms(2) by (simp add: unat_drop_bit_eq word_le_nat_alt drop_bit_nat_def div_le_mono)
  from le_less_trans [OF this assms(1)] show ?thesis by (simp add: hdr_window_size_def Let_def)
qed

text \<open>A segment that starts at \<^verbatim>\<open>receive_next\<close>, fits in the window and acknowledges nothing new.\<close>

definition next_segment :: "tcp_header \<Rightarrow> bytes \<Rightarrow> ('f, 'cc) control_block \<Rightarrow> bool" where
  "next_segment h d cb \<longleftrightarrow>
     tcp_seq_num h = receive_next (cb_receiver cb) \<and> tcp_ack h \<and> \<not> tcp_rst h \<and> \<not> tcp_syn h \<and> \<not> tcp_fin h \<and>
     \<not> seq_lt (send_unacked (cb_sender cb)) (tcp_ack_num h) \<and>
     d \<noteq> [] \<and> length d \<le> unat (get_receive_window_size cb) \<and> length d < 2 ^ 31"

definition snd_view where
  "snd_view cb = (cb_sender cb, cb_rto cb)"

lemma cb_send_ack_snd: "cb_send_ack env cb = Ok cb' \<Longrightarrow> snd_view cb' = snd_view cb"
  by (auto simp: cb_send_ack_def res_bind_Ok_iff Let_def cb_emit_def snd_view_def split: option.splits if_splits)

lemma cb_accept_next_segment:
  assumes "next_segment h d cb" "get_receive_window_size cb < 2 ^ 31"
  shows "cb_accept E h d cb =
    Acceptable h d (tcp_seq_num h) (seq_add (tcp_seq_num h) (of_nat (length d) - 1)) (of_nat (length d))"
proof -
  let ?w = "get_receive_window_size cb" and ?s = "receive_next (cb_receiver cb)"
  have len: "0 < length d" "length d \<le> unat ?w" "length d < 2 ^ 31" and h: "tcp_seq_num h = ?s" "\<not> tcp_syn h" "\<not> tcp_fin h"
    using assms(1) by (auto simp: next_segment_def)
  have pos: "(of_nat (length d) :: u32) > 0" using len by (simp add: word_less_nat_alt unat_of_nat_u32)
  have w: "?w = of_nat (unat ?w)" "unat ?w < 2 ^ 31" using assms(2) by (simp_all add: word_less_nat_alt)
  have "\<not> seq_ge (seq_at ?s (length d - 1)) (seq_at ?s (unat ?w))"
    using len w(2) seq_at_ge [of "length d - 1" "unat ?w" ?s] by auto
  moreover have "seq_add ?s (of_nat (length d) - 1) = seq_at ?s (length d - 1)"
    using len seq_at_last [of "length d" ?s 0] by (simp add: seq_at_def seq_add_def)
  moreover have "seq_add ?s ?w = seq_at ?s (unat ?w)" by (simp add: seq_at_def seq_add_def)
  ultimately show ?thesis using pos h
    by (simp add: cb_accept_def cut_front_def cut_end_def Let_def)
qed

lemma cb_accept_bare_ack:
  assumes "tcp_seq_num h = receive_next (cb_receiver cb)" "\<not> tcp_syn h" "\<not> tcp_fin h"
  shows "cb_accept E h [] cb = Acceptable h [] (tcp_seq_num h) (tcp_seq_num h) 0"
  using assms by (simp add: cb_accept_def cut_front_def cut_end_def Let_def)

lemma cb_send_ack_total: "hdr_window_size cb = Ok w \<Longrightarrow> \<exists>cb'. cb_send_ack env cb = Ok cb'"
  by (simp add: cb_send_ack_def cb_tcp_header_def Let_def split: option.split)

lemma hdr_window_size_cong: "rcv_view cb' = rcv_view cb \<Longrightarrow> cb_fixed cb' = cb_fixed cb \<Longrightarrow> hdr_window_size cb' = hdr_window_size cb"
  by (simp add: hdr_window_size_def get_receive_window_size_def rcv_view_def cb_fixed_def)

definition window_fits :: "('f, 'cc) control_block \<Rightarrow> bool" where
  "window_fits cb \<longleftrightarrow>
     unat (drop_bit (unat (cb_window_scale cb) mod 32) (cb_receive_buffer_size cb)) < 2 ^ 16 \<and>
     get_receive_window_size cb \<le> cb_receive_buffer_size cb \<and> get_receive_window_size cb < 2 ^ 31"

lemma receive_data_nothing_stored:
  "cb_out_of_order cb = [] \<Longrightarrow>
   receive_data d cb = (cb\<lparr>cb_receiver := receiver_push d (cb_receiver cb), cb_out_of_order := [], cb_waker := False\<rparr>, False)"
  by (simp add: receive_data_def Let_def)

lemma cb_process_ack_nothing_new:
  assumes "rto_estimate (te_fl env) (cb_rto cb) = Ok rto" "\<not> seq_lt (send_unacked (cb_sender cb)) (tcp_ack_num h)"
  shows "\<exists>c. cb_process_ack env h cb = Some (Ok (cb\<lparr>cb_cc := c\<rparr>, True))"
  using assms by (auto simp: cb_process_ack_def Let_def)

lemma cb_receive_next_segment:
  assumes seg: "next_segment h d cb" and fits: "window_fits cb" and store: "cb_out_of_order cb = []"
    and rto: "rto_estimate (te_fl env) (cb_rto cb) = Ok rto" and st: "receives_data (cb_state cb)"
  shows "\<exists>cb'. cb_receive env h d cb = Some (Ok cb') \<and> cb_receiver cb' = receiver_push d (cb_receiver cb) \<and>
     cb_state cb' = cb_state cb \<and> cb_out_of_order cb' = [] \<and> snd_view cb' = snd_view cb"
proof -
  obtain c where ack: "cb_process_ack env h cb = Some (Ok (cb\<lparr>cb_cc := c\<rparr>, True))"
    using cb_process_ack_nothing_new [OF rto] seg by (auto simp: next_segment_def)
  let ?cb = "cb\<lparr>cb_cc := c, cb_receiver := receiver_push d (cb_receiver cb), cb_out_of_order := [], cb_waker := False\<rparr>"
  let ?ack = "?cb\<lparr>cb_ack_deadline := None\<rparr>"
  have w: "get_receive_window_size ?ack = get_receive_window_size cb - of_nat (length d)"
    by (simp add: get_receive_window_size_def receiver_push_def seq_sub_def seq_add_def)
  have "of_nat (length d) \<le> get_receive_window_size cb"
    using seg by (simp add: next_segment_def word_le_nat_alt unat_of_nat_u32)
  then have "get_receive_window_size ?ack \<le> cb_receive_buffer_size ?ack"
    using fits unfolding w by (simp add: window_fits_def) (meson order_trans word_sub_le)
  then obtain win where "hdr_window_size ?ack = Ok win"
    using hdr_window_size_total [of ?ack] fits by (auto simp: window_fits_def)
  then obtain cb2 where cb2: "cb_send_ack env ?ack = Ok cb2" using cb_send_ack_total by blast
  have inord: "cb_receive_in_order env h d (cb\<lparr>cb_cc := c\<rparr>) =
      (if cb_ack_deadline cb = None then Ok (?cb\<lparr>cb_ack_deadline := Some (te_now env + cb_ack_delay_timeout cb)\<rparr>)
       else Ok cb2)"
    using seg st store cb2 by (simp add: cb_receive_in_order_def receive_data_nothing_stored next_segment_def Let_def)
  have "cb_receive env h d cb = Some (cb_receive_in_order env h d (cb\<lparr>cb_cc := c\<rparr>))"
    using cb_accept_next_segment [OF seg] fits ack seg
    by (simp add: cb_receive_def next_segment_def window_fits_def Let_def)
  with inord cb_send_ack_view [OF cb2] cb_send_ack_snd [OF cb2] show ?thesis
    by (cases "cb_ack_deadline cb") (simp_all add: rcv_view_def snd_view_def)
qed

text \<open>Segments that carry consecutive parts of a stream from the number \<open>s\<close> on.\<close>

fun in_sequence :: "u32 \<Rightarrow> seq_number \<Rightarrow> seq_number \<Rightarrow> (tcp_header \<times> bytes) list \<Rightarrow> bool" where
  "in_sequence bufsize una s [] \<longleftrightarrow> True"
| "in_sequence bufsize una s ((h, d) # segs) \<longleftrightarrow>
     tcp_seq_num h = s \<and> tcp_ack h \<and> \<not> tcp_rst h \<and> \<not> tcp_syn h \<and> \<not> tcp_fin h \<and>
     \<not> seq_lt una (tcp_ack_num h) \<and> d \<noteq> [] \<and> length d \<le> unat bufsize \<and>
     in_sequence bufsize una (seq_add s (of_nat (length d))) segs"

definition idle_receiver :: "u32 \<Rightarrow> seq_number \<Rightarrow> seq_number \<Rightarrow> ('f, 'cc) control_block \<Rightarrow> bool" where
  "idle_receiver bufsize una s cb \<longleftrightarrow>
     cb_receiver cb = \<lparr>reader_next = s, receive_next = s, recv_queue = []\<rparr> \<and> cb_out_of_order cb = [] \<and>
     receives_data (cb_state cb) \<and> send_unacked (cb_sender cb) = una \<and> cb_receive_buffer_size cb = bufsize \<and>
     bufsize < 2 ^ 31 \<and> unat (drop_bit (unat (cb_window_scale cb) mod 32) bufsize) < 2 ^ 16"

lemma idle_receiver_step:
  assumes idle: "idle_receiver bufsize una s cb" and seq: "in_sequence bufsize una s ((h, d) # segs)"
    and rto: "rto_estimate (te_fl env) (cb_rto cb) = Ok rto"
  shows "\<exists>cb1 cb2. cb_receive env h d cb = Some (Ok cb1) \<and> cb_poll_recv cb1 = (cb2, Some (Ok d)) \<and>
     idle_receiver bufsize una (seq_add s (of_nat (length d))) cb2 \<and> cb_rto cb2 = cb_rto cb"
proof -
  have win: "get_receive_window_size cb = bufsize"
    using idle by (simp add: idle_receiver_def get_receive_window_size_def seq_sub_def)
  have "unat bufsize < 2 ^ 31" using idle by (simp add: idle_receiver_def word_less_nat_alt)
  then have "next_segment h d cb" "window_fits cb" "cb_out_of_order cb = []" "receives_data (cb_state cb)"
    using idle seq by (auto simp: win next_segment_def window_fits_def idle_receiver_def)
  from cb_receive_next_segment [OF this(1-3) rto this(4)] obtain cb1 where
    cb1: "cb_receive env h d cb = Some (Ok cb1)" "cb_receiver cb1 = receiver_push d (cb_receiver cb)"
      "cb_state cb1 = cb_state cb" "cb_out_of_order cb1 = []" "snd_view cb1 = snd_view cb" by blast
  have "cb_fixed cb1 = cb_fixed cb" by (rule cb_receive_fixed [OF cb1(1)])
  with cb1 idle show ?thesis
    by (intro exI [of _ cb1] exI [of _ "cb1\<lparr>cb_receiver := receiver_new (seq_add s (of_nat (length d))) (seq_add s (of_nat (length d)))\<rparr>"])
      (simp add: cb_poll_recv_def receiver_pop_def receiver_push_def idle_receiver_def snd_view_def cb_fixed_def receiver_new_def)
qed

lemma rcv_run_in_sequence:
  assumes "idle_receiver bufsize una s cb" "in_sequence bufsize una s segs"
    and "rto_estimate (te_fl env) (cb_rto cb) = Ok rto"
  shows "\<exists>cb'. rcv_run (concat (map (\<lambda>(h, d). [Segment env h d, Read]) segs)) (cb, out) =
     Some (cb', out @ concat (map snd segs)) \<and> idle_receiver bufsize una (seq_at s (length (concat (map snd segs)))) cb'"
  using assms
proof (induction segs arbitrary: s cb out)
  case Nil
  then show ?case by (simp add: seq_at_def)
next
  case (Cons hd segs)
  obtain h d where hd: "hd = (h, d)" by fastforce
  from idle_receiver_step [OF Cons.prems(1) _ Cons.prems(3)] Cons.prems(2) hd obtain cb1 cb2 where
    step: "cb_receive env h d cb = Some (Ok cb1)" "cb_poll_recv cb1 = (cb2, Some (Ok d))"
      "idle_receiver bufsize una (seq_add s (of_nat (length d))) cb2" "cb_rto cb2 = cb_rto cb" by blast
  from Cons.IH [OF step(3), of "out @ d"] Cons.prems(2,3) hd step
  show ?case by (simp add: seq_at_def seq_add_def add.assoc)
qed

lemma idle_receiver_new:
  "unat bufsize < 2 ^ 31 \<Longrightarrow> unat (drop_bit (unat scale mod 32) bufsize) < 2 ^ 16 \<Longrightarrow>
   idle_receiver bufsize sseq s (control_block_new F l r s adt bufsize scale sseq win sscale mss cc)"
  by (simp add: idle_receiver_def control_block_new_def receiver_new_def receives_data_def sender_new_def word_less_nat_alt)

lemma rcv_inv_new: "rcv_inv s f n 0 0 0 (control_block_new F l r s adt bufsize scale sseq win sscale mss cc)"
  by (simp add: rcv_inv_def Let_def control_block_new_def receiver_new_def seq_at_def)

end
