(* ===== verification/Tcp_Background.thy ===== *)
theory Tcp_Background
  imports Tcp_Receive
begin

text \<open>
  The background tasks of an established connection: \<^verbatim>\<open>background/sender.rs\<close>,
  \<^verbatim>\<open>background/retransmitter.rs\<close> and \<^verbatim>\<open>background/acknowledger.rs\<close> under
  \<^verbatim>\<open>src/src/protocols/tcp/established/\<close>.  Each task is cut at its suspension points; the value that
  a task carries over one is the datatype of its states.  While a task waits, any other operation on
  the connection may run.
\<close>

section \<open>Sender\<close>

text \<open>
  \<open>BsTop\<close>: at the head of the loop or waiting for a change that leads there.
  \<open>BsProbeArp\<close>, \<open>BsSendArp\<close>: waiting for the link address before a window probe and before a
  segment.  \<open>BsProbing\<close>: repeating the window probe.
\<close>

datatype bg_sender =
    BsTop
  | BsProbeArp seq_number
  | BsProbing seq_number bytes mac_address nat
  | BsSendArp seq_number u32 u32 u32

definition bg_sender_top ::
    "('f, 'cc) tcp_env \<Rightarrow> ('f, 'cc) control_block \<Rightarrow> (('f, 'cc) control_block \<times> bg_sender) res" where
  "bg_sender_top env cb =
     (let unsent_seq = unsent_seq_no (cb_sender cb);
          next = send_next (cb_sender cb);
          win_sz = send_window (cb_sender cb)
      in if next = unsent_seq then Ok (cb, BsTop)
         else if win_sz = 0 then Ok (cb, BsProbeArp next)
         else
           let cb = cb\<lparr>cb_cc := cc_on_cwnd_check_before_send (te_cc env) (te_inow env) (cb_cc cb)\<rparr>;
               effective_cwnd = cc_get_cwnd (te_cc env) (cb_cc cb)
                 + cc_get_limited_transmit_cwnd_increase (te_cc env) (cb_cc cb)
           in case top_size_unsent (cb_sender cb) of
                None \<Rightarrow> Panic ''no buffer in unsent queue''
              | Some next_buf_size \<Rightarrow>
                  let sent_data = seq_sub next (send_unacked (cb_sender cb))
                  in if win_sz \<le> sent_data + of_nat next_buf_size
                        \<or> effective_cwnd \<le> sent_data
                        \<or> effective_cwnd - sent_data \<le> of_nat (snd_mss (cb_sender cb))
                     then Ok (cb, BsTop)
                     else Ok (cb, BsSendArp next win_sz sent_data effective_cwnd))"

definition bg_probe_header ::
    "seq_number \<Rightarrow> ('f, 'cc) control_block \<Rightarrow> tcp_header res" where
  "bg_probe_header next cb = res_bind (cb_tcp_header cb) (\<lambda>header. Ok (header\<lparr>tcp_seq_num := next\<rparr>))"

definition bg_sender_probe ::
    "('f, 'cc) tcp_env \<Rightarrow> seq_number \<Rightarrow> mac_address \<Rightarrow> ('f, 'cc) control_block \<Rightarrow>
     (('f, 'cc) control_block \<times> bg_sender) res" where
  "bg_sender_probe env next remote_link_addr cb =
     (case pop_one_unsent_byte (te_ext env) (cb_sender cb) of
        (s, None) \<Rightarrow> Panic ''No unsent data?''
      | (s, Some buf) \<Rightarrow>
          let s = s\<lparr>send_next := seq_add (send_next s) 1\<rparr>;
              s = push_unacked_segment \<lparr>us_bytes = buf, us_initial_tx = Some (te_now env)\<rparr> s;
              cb = cb\<lparr>cb_sender := s\<rparr>
          in res_bind (bg_probe_header next cb) (\<lambda>header.
             Ok (cb_emit env header buf remote_link_addr cb, BsProbing next buf remote_link_addr 1000000000)))"

definition bg_sender_probe_timeout ::
    "('f, 'cc) tcp_env \<Rightarrow> seq_number \<Rightarrow> bytes \<Rightarrow> mac_address \<Rightarrow> nat \<Rightarrow> ('f, 'cc) control_block \<Rightarrow>
     (('f, 'cc) control_block \<times> bg_sender) res" where
  "bg_sender_probe_timeout env next buf remote_link_addr timeout cb =
     res_bind (bg_probe_header next cb) (\<lambda>header.
       Ok (cb_emit env header buf remote_link_addr cb, BsProbing next buf remote_link_addr (2 * timeout)))"

definition bg_sender_send ::
    "('f, 'cc) tcp_env \<Rightarrow> seq_number \<Rightarrow> u32 \<Rightarrow> u32 \<Rightarrow> u32 \<Rightarrow> mac_address \<Rightarrow> ('f, 'cc) control_block \<Rightarrow>
     (('f, 'cc) control_block \<times> bg_sender) res" where
  "bg_sender_send env next win_sz sent_data effective_cwnd remote_link_addr cb =
     (let max_size = min (min (unat (win_sz - sent_data)) (snd_mss (cb_sender cb)))
                       (unat (effective_cwnd - sent_data))
      in case pop_unsent (te_ext env) max_size (cb_sender cb) of
           (s, None) \<Rightarrow> Panic ''No unsent data with sequence number gap?''
         | (s, Some segment_data) \<Rightarrow>
             let cb = cb\<lparr>cb_sender := s\<rparr>;
                 segment_data_len = (of_nat (length segment_data) :: u32)
             in res_bind (rto_estimate (te_fl env) (cb_rto cb)) (\<lambda>rto.
                let cb = cb\<lparr>cb_cc := cc_on_send (te_cc env) (te_inow env) rto sent_data (cb_cc cb)\<rparr>
                in res_bind (cb_tcp_header cb) (\<lambda>header.
                let header = header\<lparr>tcp_seq_num := next\<rparr>;
                    header = (if segment_data_len = 0 then header\<lparr>tcp_fin := True\<rparr> else header);
                    segment_data_len = (if segment_data_len = 0 then 1 else segment_data_len);
                    cb = cb_emit env header segment_data remote_link_addr cb;
                    s = cb_sender cb;
                    s = s\<lparr>send_next := seq_add (send_next s) segment_data_len\<rparr>;
                    s = push_unacked_segment \<lparr>us_bytes = segment_data, us_initial_tx = Some (te_now env)\<rparr> s;
                    cb = cb\<lparr>cb_sender := s\<rparr>
                in if cb_retransmit_deadline cb = None
                   then Ok (cb\<lparr>cb_retransmit_deadline := Some (te_now env + rto)\<rparr>, BsTop)
                   else Ok (cb, BsTop))))"

text \<open>An iteration of the loop when the link address is in the ARP cache, so that \<^verbatim>\<open>query\<close> does not wait.\<close>

definition bg_sender_iter ::
    "('f, 'cc) tcp_env \<Rightarrow> ('f, 'cc) control_block \<Rightarrow> (('f, 'cc) control_block \<times> bg_sender) res" where
  "bg_sender_iter env cb =
     res_bind (bg_sender_top env cb) (\<lambda>(cb, st).
       case (st, te_arp env (fst (cb_remote cb))) of
         (BsSendArp next win_sz sent_data effective_cwnd, Some mac) \<Rightarrow>
           bg_sender_send env next win_sz sent_data effective_cwnd mac cb
       | (BsProbeArp next, Some mac) \<Rightarrow> bg_sender_probe env next mac cb
       | _ \<Rightarrow> Ok (cb, st))"

section \<open>Retransmitter\<close>

datatype retransmit_cause = TimeOut | FastRetransmit

text \<open>\<open>RtArp\<close>: a segment has been taken off the queue and its task waits for the link address.\<close>

datatype bg_retransmitter = RtTop | RtArp unacked_segment

definition retransmit_start ::
    "'f flops \<Rightarrow> retransmit_cause \<Rightarrow> ('f, 'cc) control_block \<Rightarrow> (('f, 'cc) control_block \<times> bg_retransmitter) res" where
  "retransmit_start F cause cb =
     (case pop_unacked_segment (cb_sender cb) of
        (s, None) \<Rightarrow>
          Ok (if cause = TimeOut then cb\<lparr>cb_retransmit_deadline := None\<rparr> else cb, RtTop)
      | (s, Some segment) \<Rightarrow>
          let cb = cb\<lparr>cb_sender := s\<rparr>
          in (case cause of
                TimeOut \<Rightarrow> res_bind (rto_record_failure F (cb_rto cb)) (\<lambda>c. Ok (cb\<lparr>cb_rto := c\<rparr>, RtArp segment))
              | FastRetransmit \<Rightarrow> Ok (cb, RtArp segment)))"

definition retransmit_finish ::
    "('f, 'cc) tcp_env \<Rightarrow> unacked_segment \<Rightarrow> mac_address \<Rightarrow> ('f, 'cc) control_block \<Rightarrow>
     (('f, 'cc) control_block \<times> bg_retransmitter) res" where
  "retransmit_finish env segment remote_link_addr cb =
     res_bind (cb_tcp_header cb) (\<lambda>header.
       let header = header\<lparr>tcp_seq_num := send_unacked (cb_sender cb)\<rparr>;
           cb = cb_emit env header (us_bytes segment) remote_link_addr cb
       in res_bind (rto_estimate (te_fl env) (cb_rto cb)) (\<lambda>rto.
            Ok (cb\<lparr>cb_retransmit_deadline := Some (te_now env + rto)\<rparr>, RtTop)))"

text \<open>The head of the loop when the congestion control asks for a fast retransmit, and when the timer fires.\<close>

definition retransmitter_top ::
    "('f, 'cc) tcp_env \<Rightarrow> ('f, 'cc) control_block \<Rightarrow> (('f, 'cc) control_block \<times> bg_retransmitter) res" where
  "retransmitter_top env cb =
     (if cc_get_retransmit_now_flag (te_cc env) (cb_cc cb)
      then retransmit_start (te_fl env) FastRetransmit (cb\<lparr>cb_cc := cc_on_fast_retransmit (te_cc env) (cb_cc cb)\<rparr>)
      else Ok (cb, RtTop))"

definition retransmitter_timer ::
    "('f, 'cc) tcp_env \<Rightarrow> ('f, 'cc) control_block \<Rightarrow> ('f, 'cc) control_block" where
  "retransmitter_timer env cb =
     (case cb_retransmit_deadline cb of
        Some t \<Rightarrow>
          if t \<le> te_now env
          then cb\<lparr>cb_cc := cc_on_rto (te_cc env) (send_unacked (cb_sender cb)) (cb_cc cb), cb_retransmit_deadline := None\<rparr>
          else cb
      | None \<Rightarrow> cb)"

section \<open>Acknowledger\<close>

definition acknowledger_timer ::
    "('f, 'cc) tcp_env \<Rightarrow> ('f, 'cc) control_block \<Rightarrow> ('f, 'cc) control_block res" where
  "acknowledger_timer env cb =
     (case cb_ack_deadline cb of
        Some t \<Rightarrow> if t \<le> te_now env then cb_send_ack env cb else Ok cb
      | None \<Rightarrow> Ok cb)"

end
