(* ===== verification/Tcp_Sender.thy ===== *)
theory Tcp_Sender
  imports Tcp_Stream Tcp_Background
begin

text \<open>
  The sender's accounting: the retransmission queue holds what lies between \<^verbatim>\<open>send_unacked\<close> and
  \<^verbatim>\<open>send_next\<close>, the unsent queue what lies between \<^verbatim>\<open>send_next\<close> and \<^verbatim>\<open>unsent_seq_no\<close>.  The
  end-of-send marker is an empty buffer; on the retransmission queue it stands for one number.
\<close>

definition us_weight :: "unacked_segment \<Rightarrow> nat" where
  "us_weight u = (if us_bytes u = [] then 1 else length (us_bytes u))"

definition unacked_weight :: "unacked_segment list \<Rightarrow> nat" where
  "unacked_weight q = sum_list (map us_weight q)"

definition unacked_bytes :: "unacked_segment list \<Rightarrow> bytes" where
  "unacked_bytes q = concat (map us_bytes q)"

definition fin_last :: "unacked_segment list \<Rightarrow> bool" where
  "fin_last q \<longleftrightarrow> (\<forall>u \<in> set (butlast q). us_bytes u \<noteq> [])"

lemma unacked_weight_simps [simp]:
  "unacked_weight [] = 0" "unacked_weight (u # q) = us_weight u + unacked_weight q"
  "unacked_weight (q @ q') = unacked_weight q + unacked_weight q'"
  by (simp_all add: unacked_weight_def)

lemma unacked_bytes_simps [simp]:
  "unacked_bytes [] = []" "unacked_bytes (u # q) = us_bytes u @ unacked_bytes q"
  by (simp_all add: unacked_bytes_def)

lemma fin_last_Cons: "fin_last (u # q) \<longleftrightarrow> (q = [] \<or> us_bytes u \<noteq> [] \<and> fin_last q)"
  by (auto simp: fin_last_def)

lemma fin_last_snoc: "fin_last (q @ [u]) \<longleftrightarrow> (\<forall>v \<in> set q. us_bytes v \<noteq> [])"
  by (simp add: fin_last_def)

lemma fin_last_all: "\<forall>v \<in> set q. us_bytes v \<noteq> [] \<Longrightarrow> fin_last q"
  by (auto simp: fin_last_def dest: in_set_butlastD)

section \<open>Removing acknowledged data\<close>

declare remove_acked.simps [simp del]

lemma remove_acked_empty: "remove_acked E F now n q rto = Some y \<Longrightarrow> q = [] \<longrightarrow> n = 0"
proof (induction rule: remove_acked.raw_induct [rotated, consumes 1])
  fix f E F now n q rto y
  assume IH: "\<And>E F now n q rto y. f E F now n q rto = Some y \<Longrightarrow> q = [] \<longrightarrow> n = 0"
    and eq: "(if n = 0 then Some (Ok (q, rto)) else case q of
        [] \<Rightarrow> f E F now n [] rto
      | segment # rest \<Rightarrow>
          (case (case us_initial_tx segment of
                   Some t \<Rightarrow> rto_add_sample F (now - t) rto
                 | None \<Rightarrow> Ok rto) of
             Err e \<Rightarrow> Some (Err e)
           | Panic s \<Rightarrow> Some (Panic s)
           | Ok rto \<Rightarrow>
               if length (us_bytes segment) > n
               then Some (Ok (segment\<lparr>us_bytes := buf_adjust E (us_bytes segment) n,
                                      us_initial_tx := None\<rparr> # rest, rto))
               else
                 let n = (if length (us_bytes segment) = 0 then 0 else n)
                 in f E F now (n - length (us_bytes segment)) rest rto)) = Some y"
  show "q = [] \<longrightarrow> n = 0" using IH [of E F now n "[]" rto y] eq by (auto split: if_splits)
qed

lemma remove_acked_stuck: "n \<noteq> 0 \<Longrightarrow> remove_acked E F now n [] rto = None"
  using remove_acked_empty [of E F now n "[]" rto] by (cases "remove_acked E F now n [] rto") auto

lemma remove_acked_zero: "remove_acked E F now 0 q rto = Some (Ok (q, rto))"
  by (simp add: remove_acked.simps)

context buffer_ops
begin

lemma remove_acked_removes:
  assumes "fin_last q" "n \<le> unacked_weight q"
  shows "\<exists>r. remove_acked E F now n q rto = Some r \<and> (\<forall>e. r \<noteq> Err e) \<and>
     (\<forall>q' c. r = Ok (q', c) \<longrightarrow> unacked_weight q' = unacked_weight q - n \<and> fin_last q' \<and>
        unacked_bytes q' = drop n (unacked_bytes q) \<and>
        ((\<forall>u \<in> set q. us_bytes u \<noteq> []) \<longrightarrow> (\<forall>u \<in> set q'. us_bytes u \<noteq> [])) \<and>
        ((\<exists>u \<in> set q'. us_bytes u = []) \<longrightarrow> (\<exists>u \<in> set q. us_bytes u = [])))"
  using assms
proof (induction q arbitrary: n rto)
  case Nil
  then show ?case by (simp add: remove_acked_zero)
next
  case (Cons u q)
  show ?case
  proof (cases "n = 0")
    case True
    with Cons.prems show ?thesis by (simp add: remove_acked_zero)
  next
    case n: False
    obtain s where s: "(case us_initial_tx u of Some t \<Rightarrow> rto_add_sample F (now - t) rto | None \<Rightarrow> Ok rto) = s" by simp
    have s_err: "s \<noteq> Err e" for e
      using s by (auto simp: rto_add_sample_def update_rto_def Let_def split: option.splits ordering.splits if_splits)
    note step = remove_acked.simps [of E F now n "u # q" rto]
    show ?thesis
    proof (cases s)
      case (Err e)
      with s_err show ?thesis by blast
    next
      case (Panic m)
      with step n s show ?thesis by simp
    next
      case (Ok c)
      have run: "remove_acked E F now n (u # q) rto =
        (if length (us_bytes u) > n
         then Some (Ok (u\<lparr>us_bytes := buf_adjust E (us_bytes u) n, us_initial_tx := None\<rparr> # q, c))
         else remove_acked E F now ((if length (us_bytes u) = 0 then 0 else n) - length (us_bytes u)) q c)"
        using step n s Ok by (simp add: Let_def)
      consider "length (us_bytes u) > n" | "us_bytes u = []" | "us_bytes u \<noteq> []" "length (us_bytes u) \<le> n"
        by fastforce
      then show ?thesis
      proof cases
        case 1
        with run Cons.prems show ?thesis
          by (auto simp: adjust_drop us_weight_def fin_last_Cons)
      next
        case 2
        then have "q = []" using Cons.prems(1) by (simp add: fin_last_Cons)
        with 2 run n Cons.prems show ?thesis by (simp add: remove_acked_zero us_weight_def fin_last_def)
      next
        case 3
        have "fin_last q" using Cons.prems(1) 3 by (cases q) (auto simp: fin_last_Cons fin_last_def)
        moreover have "n - length (us_bytes u) \<le> unacked_weight q" using Cons.prems(2) 3 by (simp add: us_weight_def)
        moreover have "remove_acked E F now n (u # q) rto = remove_acked E F now (n - length (us_bytes u)) q c"
          using run 3 by simp
        ultimately show ?thesis using Cons.IH [of "n - length (us_bytes u)" c] 3 Cons.prems(2)
          by (auto simp: us_weight_def)
      qed
    qed
  qed
qed

end

section \<open>The invariant\<close>

definition snd_inv :: "sender \<Rightarrow> bool" where
  "snd_inv s \<longleftrightarrow>
     send_next s = seq_at (send_unacked s) (unacked_weight (unacked_queue s)) \<and>
     unacked_weight (unacked_queue s) \<le> 2 ^ 30 \<and>
     fin_last (unacked_queue s) \<and>
     unsent_seq_no s = seq_at (send_next s) (length (concat (unsent_queue s))) \<and>
     ((\<exists>u \<in> set (unacked_queue s). us_bytes u = []) \<longrightarrow> unsent_queue s = []) \<and>
     (\<forall>b \<in> set (unsent_queue s). length b < 2 ^ 31) \<and>
     (\<forall>b \<in> set (butlast (unsent_queue s)). b \<noteq> []) \<and>
     unat (send_window s) < 2 ^ 30 \<and> snd_window_scale s \<le> 14 \<and> 0 < snd_mss s"

definition no_fin :: "sender \<Rightarrow> bool" where
  "no_fin s \<longleftrightarrow> (\<forall>u \<in> set (unacked_queue s). us_bytes u \<noteq> []) \<and> (\<forall>b \<in> set (unsent_queue s). b \<noteq> [])"

definition cb_snd_inv :: "('f, 'cc) control_block \<Rightarrow> bool" where
  "cb_snd_inv cb \<longleftrightarrow> snd_inv (cb_sender cb) \<and> (\<not> cb_user_is_done_sending cb \<longrightarrow> no_fin (cb_sender cb))"

lemma snd_inv_sent_data:
  assumes "snd_inv s"
  shows "seq_sub (send_next s) (send_unacked s) = of_nat (unacked_weight (unacked_queue s))"
    "unat (seq_sub (send_next s) (send_unacked s)) = unacked_weight (unacked_queue s)"
  using assms by (simp_all add: snd_inv_def seq_sub_def seq_at_def unat_of_nat_u32)

lemma snd_inv_push:
  assumes "snd_inv s" "unacked_weight (unacked_queue s) + us_weight u \<le> 2 ^ 30"
    and "\<forall>v \<in> set (unacked_queue s). us_bytes v \<noteq> []" "unsent_queue s = []"
  shows "snd_inv (push_unacked_segment u (s\<lparr>send_next := seq_add (send_next s) (of_nat (us_weight u)),
     unsent_seq_no := seq_add (unsent_seq_no s) (of_nat (us_weight u))\<rparr>))"
  using assms by (auto simp: snd_inv_def push_unacked_segment_def fin_last_snoc seq_at_def seq_add_def)

lemma cb_emit_snd [simp]: "cb_sender (cb_emit env h d m cb) = cb_sender cb"
  "cb_user_is_done_sending (cb_emit env h d m cb) = cb_user_is_done_sending cb"
  by (simp_all add: cb_emit_def Let_def)

lemma send_immediate_sender:
  assumes "send_immediate env buf mac n cb = Ok cb'" "length buf < 2 ^ 31"
  shows "cb_sender cb' = push_unacked_segment \<lparr>us_bytes = buf, us_initial_tx = Some (te_now env)\<rparr>
     ((cb_sender cb)\<lparr>send_next := seq_add (send_next (cb_sender cb)) (of_nat (if buf = [] then 1 else length buf)),
        unsent_seq_no := seq_add (unsent_seq_no (cb_sender cb)) (of_nat (if buf = [] then 1 else length buf))\<rparr>)
     \<and> cb_user_is_done_sending cb' = cb_user_is_done_sending cb"
proof -
  have z: "(of_nat (length buf) :: u32) = 0 \<longleftrightarrow> buf = []"
    using assms(2) by (auto simp: word_of_nat_eq_0_iff dest: dvd_imp_le)
  have w: "(if buf = [] then 1 else of_nat (length buf) :: u32) = of_nat (if buf = [] then 1 else length buf)" by simp
  from assms(1) obtain rto h where "rto_estimate (te_fl env) (cb_rto cb) = Ok rto"
    "cb_tcp_header (cb\<lparr>cb_cc := cc_on_send (te_cc env) (te_inow env) rto n (cb_cc cb)\<rparr>) = Ok h"
    unfolding send_immediate_def res_bind_Ok_iff Let_def by blast
  with assms(1) show ?thesis unfolding send_immediate_def z Let_def
    by (cases "buf = []") (simp_all split: if_split_asm, auto)
qed

lemma send_queued_inv:
  assumes inv: "snd_inv (cb_sender cb)" "no_fin (cb_sender cb)" and len: "length buf < 2 ^ 31"
    and send: "send_queued buf cb = (cb', r)"
  shows "snd_inv (cb_sender cb') \<and> (buf \<noteq> [] \<longrightarrow> no_fin (cb_sender cb')) \<and>
    cb_user_is_done_sending cb' = cb_user_is_done_sending cb"
proof (cases "length (unsent_queue (cb_sender cb)) > UNSENT_QUEUE_CUTOFF")
  case True
  with inv send show ?thesis by (simp add: send_queued_def Let_def)
next
  case False
  let ?s = "(cb_sender cb)\<lparr>unsent_queue := unsent_queue (cb_sender cb) @ [buf],
    unsent_seq_no := seq_add (unsent_seq_no (cb_sender cb)) (of_nat (length buf))\<rparr>"
  have "snd_inv ?s" using inv len by (auto simp: snd_inv_def no_fin_def seq_at_def seq_add_def add.assoc)
  moreover have "buf \<noteq> [] \<longrightarrow> no_fin ?s" using inv(2) by (simp add: no_fin_def)
  ultimately show ?thesis using send False by (auto simp: send_queued_def Let_def)
qed

lemma cb_send_inv:
  assumes inv: "cb_snd_inv cb" and len: "length buf < 2 ^ 31" and send: "cb_send env buf cb = Ok (cb', r)"
  shows "snd_inv (cb_sender cb') \<and> (buf \<noteq> [] \<or> cb_user_is_done_sending cb \<longrightarrow> cb_snd_inv cb') \<and>
    cb_user_is_done_sending cb' = cb_user_is_done_sending cb"
proof -
  let ?s = "cb_sender cb"
  let ?cb = "cb\<lparr>cb_cc := cc_on_cwnd_check_before_send (te_cc env) (te_inow env) (cb_cc cb)\<rparr>"
  consider "cb_user_is_done_sending cb" "cb' = cb"
    | "\<not> cb_user_is_done_sending cb" "cb' = cb \<or> cb' = ?cb"
    | "\<not> cb_user_is_done_sending cb" "(cb', r) = send_queued buf cb \<or> (cb', r) = send_queued buf ?cb"
    | mac where "\<not> cb_user_is_done_sending cb" "unsent_queue ?s = []"
        "seq_sub (send_next ?s) (send_unacked ?s) + of_nat (length buf) \<le> send_window ?s"
        "send_immediate env buf mac (seq_sub (send_next ?s) (send_unacked ?s)) ?cb = Ok cb'"
    using send by (auto simp: cb_send_def Let_def res_bind_Ok_iff split: if_splits option.splits)
  then show ?thesis
  proof cases
    case 1
    with inv show ?thesis by (simp add: cb_snd_inv_def)
  next
    case 2
    with inv show ?thesis by (auto simp: cb_snd_inv_def)
  next
    case 3
    have "snd_inv ?s" "no_fin ?s" using inv 3(1) by (auto simp: cb_snd_inv_def)
    with send_queued_inv [OF _ _ len, of cb cb' r] send_queued_inv [OF _ _ len, of ?cb cb' r] 3
    show ?thesis by (auto simp: cb_snd_inv_def)
  next
    case 4
    have s: "snd_inv ?s" "no_fin ?s" using inv 4(1) by (auto simp: cb_snd_inv_def)
    have w: "unacked_weight (unacked_queue ?s) + length buf \<le> unat (send_window ?s)"
    proof -
      have "unacked_weight (unacked_queue ?s) + length buf < 2 ^ 32" using s(1) len by (simp add: snd_inv_def)
      then have "unat (of_nat (unacked_weight (unacked_queue ?s) + length buf) :: u32) =
          unacked_weight (unacked_queue ?s) + length buf" by (rule unat_of_nat_u32)
      with 4(3) snd_inv_sent_data [OF s(1)] show ?thesis by (simp add: word_le_nat_alt)
    qed
    let ?u = "\<lparr>us_bytes = buf, us_initial_tx = Some (te_now env)\<rparr>"
    have "us_weight ?u = (if buf = [] then 1 else length buf)" by (simp add: us_weight_def)
    with send_immediate_sender [OF 4(4) len] have cb': "cb_sender cb' = push_unacked_segment ?u
       (?s\<lparr>send_next := seq_add (send_next ?s) (of_nat (us_weight ?u)),
          unsent_seq_no := seq_add (unsent_seq_no ?s) (of_nat (us_weight ?u))\<rparr>)"
      "cb_user_is_done_sending cb' = cb_user_is_done_sending cb" by auto
    have "snd_inv (cb_sender cb')"
      unfolding cb'(1) using w s 4(2) by (intro snd_inv_push) (auto simp: us_weight_def snd_inv_def no_fin_def)
    moreover have "buf \<noteq> [] \<longrightarrow> no_fin (cb_sender cb')"
      using s 4(2) unfolding cb'(1) by (auto simp: no_fin_def push_unacked_segment_def)
    ultimately show ?thesis using cb'(2) 4(1) by (simp add: cb_snd_inv_def)
  qed
qed

lemma cb_close_inv:
  assumes "cb_snd_inv cb" "cb_close env cb = Ok (cb', r)"
  shows "cb_snd_inv cb'"
proof (cases "cb_user_is_done_sending cb")
  case True
  with assms show ?thesis by (simp add: cb_close_def)
next
  case False
  with assms(2) obtain cb1 r1 where r1: "cb_send env [] cb = Ok (cb1, r1)"
    "(case r1 of Ok u \<Rightarrow> Ok (cb1\<lparr>cb_user_is_done_sending := True\<rparr>, Ok ()) | _ \<Rightarrow> Panic ''send failed'') = Ok (cb', r)"
    by (auto simp: cb_close_def res_bind_Ok_iff)
  then have "cb' = cb1\<lparr>cb_user_is_done_sending := True\<rparr>" by (cases r1) auto
  with r1(1) cb_send_inv [OF assms(1), of "[]" env cb1 r1] show ?thesis by (simp add: cb_snd_inv_def)
qed

section \<open>Acknowledgements\<close>

lemma update_send_window_fields [simp]:
  "send_next (update_send_window h s) = send_next s" "send_unacked (update_send_window h s) = send_unacked s"
  "unacked_queue (update_send_window h s) = unacked_queue s" "unsent_queue (update_send_window h s) = unsent_queue s"
  "unsent_seq_no (update_send_window h s) = unsent_seq_no s" "snd_window_scale (update_send_window h s) = snd_window_scale s"
  "snd_mss (update_send_window h s) = snd_mss s"
  by (simp_all add: update_send_window_def)

lemma scaled_window_bound:
  assumes "k \<le> (14 :: u8)"
  shows "unat (push_bit (unat k mod 32) (ucast (w :: u16)) :: u32) < 2 ^ 30"
proof -
  have k: "unat k \<le> 14" using assms by (simp add: word_le_nat_alt)
  have "(push_bit (unat k mod 32) (ucast w) :: u32) = of_nat (2 ^ unat k * unat w)"
    using k by (simp add: push_bit_eq_mult mult.commute)
  then have "unat (push_bit (unat k mod 32) (ucast w) :: u32) \<le> 2 ^ unat k * unat w"
    by (simp only: unat_of_nat mod_less_eq_dividend)
  also have "\<dots> \<le> 2 ^ 14 * unat w" using k by (intro mult_right_mono power_increasing) auto
  also have "\<dots> < 2 ^ 14 * 2 ^ 16" using unsigned_less [of w] by (intro mult_strict_left_mono) auto
  finally show ?thesis by simp
qed

lemma update_send_window_bound:
  "unat (send_window s) < 2 ^ 30 \<Longrightarrow> snd_window_scale s \<le> 14 \<Longrightarrow> unat (send_window (update_send_window h s)) < 2 ^ 30"
  using scaled_window_bound by (simp add: update_send_window_def)

text \<open>
  A new acknowledgement is at an offset on the retransmission queue, unless the number exactly half the
  sequence space ahead arrives when nothing is outstanding: it compares as both after \<^verbatim>\<open>send_unacked\<close>
  and before \<^verbatim>\<open>send_next\<close>.
\<close>

lemma snd_inv_ack_offset:
  assumes "snd_inv s" "seq_lt (send_unacked s) a" "seq_le a (send_next s)"
    and half: "unacked_queue s = [] \<Longrightarrow> a \<noteq> send_unacked s + 2 ^ 31"
  shows "\<exists>n. a = seq_at (send_unacked s) n \<and> unat (seq_sub a (send_unacked s)) = n \<and> n \<le> unacked_weight (unacked_queue s)"
proof -
  let ?n = "unat (a - send_unacked s)" and ?w = "unacked_weight (unacked_queue s)"
  have a: "a = seq_at (send_unacked s) ?n" by (simp add: seq_at_def)
  have w: "send_next s = seq_at (send_unacked s) ?w" "?w \<le> 2 ^ 30" using assms(1) by (auto simp: snd_inv_def)
  have "?n \<le> 2 ^ 31" using assms(2) unat_minus_swap [of "send_unacked s" a] unsigned_less [of "send_unacked s - a"]
    by (cases "a = send_unacked s") (auto simp: seq_lt_dist)
  moreover have "?w = 0 \<longleftrightarrow> unacked_queue s = []" by (cases "unacked_queue s") (auto simp: us_weight_def)
  moreover have "?n = 2 ^ 31 \<Longrightarrow> a = send_unacked s + 2 ^ 31"
    by (metis a seq_at_def of_nat_numeral of_nat_power)
  ultimately have "?n < ?w + 2 ^ 31" using half by force
  then have "?n \<le> ?w" using assms(3) a w seq_at_le [of ?n ?w "send_unacked s"] by auto
  with a show ?thesis by (auto simp: seq_sub_def)
qed

lemma seq_at_seq_at: "seq_at (seq_at s i) j = seq_at s (i + j)"
  by (simp add: seq_at_def)

lemma snd_inv_acked:
  assumes s: "snd_inv s" and n: "n \<le> unacked_weight (unacked_queue s)" "a = seq_at (send_unacked s) n"
    and q: "unacked_weight q = unacked_weight (unacked_queue s) - n" "fin_last q"
      "(\<exists>u \<in> set q. us_bytes u = []) \<longrightarrow> (\<exists>u \<in> set (unacked_queue s). us_bytes u = [])"
  shows "snd_inv (update_send_window h (s\<lparr>unacked_queue := q, send_unacked := a\<rparr>))"
proof -
  have "unat (send_window s) < 2 ^ 30" "snd_window_scale s \<le> 14" using s by (simp_all add: snd_inv_def)
  then have "unat (send_window (update_send_window h (s\<lparr>unacked_queue := q, send_unacked := a\<rparr>))) < 2 ^ 30"
    by (intro update_send_window_bound) simp_all
  moreover have "send_next s = seq_at a (unacked_weight q)"
    using s n by (simp add: snd_inv_def seq_at_seq_at q(1))
  moreover have "unacked_weight q \<le> unacked_weight (unacked_queue s)" by (simp add: q(1))
  ultimately show ?thesis using s q(2,3) by (simp add: snd_inv_def)
qed

lemma cb_snd_inv_cong:
  "cb_snd_inv cb \<Longrightarrow> cb_sender cb' = cb_sender cb \<Longrightarrow> cb_user_is_done_sending cb' = cb_user_is_done_sending cb \<Longrightarrow> cb_snd_inv cb'"
  by (simp add: cb_snd_inv_def)

lemma cb_send_ack_keeps: "cb_snd_inv cb \<Longrightarrow> cb_send_ack env cb = Ok cb' \<Longrightarrow> cb_snd_inv cb'"
  using cb_send_ack_snd [of env cb cb'] cb_send_ack_fixed [of env cb cb']
  by (auto simp: snd_view_def cb_fixed_def elim: cb_snd_inv_cong)

lemma cb_receive_out_of_order_keeps:
  "cb_snd_inv cb \<Longrightarrow> cb_receive_out_of_order env h d ss se sl cb = Ok cb' \<Longrightarrow> cb_snd_inv cb'"
  by (auto simp: cb_receive_out_of_order_def Let_def split: if_splits
      elim!: cb_send_ack_keeps [rotated] elim: cb_snd_inv_cong)

lemma receive_data_snd: "receive_data d cb = (cb', f) \<Longrightarrow> cb_snd_inv cb \<Longrightarrow> cb_snd_inv cb'"
  by (auto simp: receive_data_def Let_def cb_snd_inv_def split: prod.splits)

lemma cb_receive_in_order_keeps:
  assumes "cb_snd_inv cb" "cb_receive_in_order env h d cb = Ok cb'"
  shows "cb_snd_inv cb'"
proof -
  obtain cb1 fin ack where p: "(if d \<noteq> [] \<and> receives_data (cb_state cb)
     then (let (cb, f) = receive_data d cb in (cb, tcp_fin h \<or> f, True)) else (cb, tcp_fin h, False)) = (cb1, fin, ack)"
    by (metis prod_cases3)
  then have "cb_snd_inv cb1" using assms(1) receive_data_snd by (auto split: if_splits prod.splits)
  then have "cb_snd_inv (cb1\<lparr>cb_receiver := v, cb_state := st\<rparr>)" "cb_snd_inv (cb1\<lparr>cb_ack_deadline := t\<rparr>)" for v st t
    by (auto elim: cb_snd_inv_cong)
  with assms(2) p \<open>cb_snd_inv cb1\<close> show ?thesis
    unfolding cb_receive_in_order_def
    by (auto simp: Let_def res_bind_Ok_iff split: if_splits elim!: cb_send_ack_keeps [rotated])
qed

lemma cb_accept_ack_num: "cb_accept E h d cb = Acceptable h' d' ss se sl \<Longrightarrow> tcp_ack_num h' = tcp_ack_num h"
  by (auto simp: cb_accept_def cut_front_def cut_end_def Let_def split: if_splits acceptance.splits)

context buffer_ops
begin

lemma cb_process_ack_inv:
  assumes inv: "cb_snd_inv cb" and env: "te_ext env = E"
    and half: "unacked_queue (cb_sender cb) = [] \<Longrightarrow> tcp_ack_num h \<noteq> send_unacked (cb_sender cb) + 2 ^ 31"
  shows "\<exists>r. cb_process_ack env h cb = Some r \<and> (\<forall>cb' g. r = Ok (cb', g) \<longrightarrow> cb_snd_inv cb')"
proof -
  let ?s = "cb_sender cb" and ?a = "tcp_ack_num h"
  have s: "snd_inv ?s" using inv by (simp add: cb_snd_inv_def)
  have ack: "cb_snd_inv cb'" if "cb_send_ack env (cb\<lparr>cb_cc := c\<rparr>) = Ok cb'" for c cb'
    using inv cb_send_ack_snd [OF that] cb_send_ack_fixed [OF that] by (simp add: cb_snd_inv_def snd_view_def cb_fixed_def)
  show ?thesis
  proof (cases "seq_lt (send_unacked ?s) ?a \<and> seq_le ?a (send_next ?s)")
    case False
    with inv ack show ?thesis
      by (auto simp: cb_process_ack_def Let_def cb_snd_inv_def res_bind_Ok_iff split: res.splits)
  next
    case True
    then obtain n where n: "?a = seq_at (send_unacked ?s) n" "unat (seq_sub ?a (send_unacked ?s)) = n"
        "n \<le> unacked_weight (unacked_queue ?s)"
      using snd_inv_ack_offset [OF s _ _ half] by blast
    have "fin_last (unacked_queue ?s)" using s by (simp add: snd_inv_def)
    from remove_acked_removes [OF this n(3)] obtain r where
      r: "remove_acked E (te_fl env) (te_now env) n (unacked_queue ?s) (cb_rto cb) = Some r" "\<forall>e. r \<noteq> Err e"
        "\<And>q c. r = Ok (q, c) \<Longrightarrow> unacked_weight q = unacked_weight (unacked_queue ?s) - n \<and> fin_last q \<and>
          ((\<forall>u \<in> set (unacked_queue ?s). us_bytes u \<noteq> []) \<longrightarrow> (\<forall>u \<in> set q. us_bytes u \<noteq> [])) \<and>
          ((\<exists>u \<in> set q. us_bytes u = []) \<longrightarrow> (\<exists>u \<in> set (unacked_queue ?s). us_bytes u = []))"
      by blast
    have new: "snd_inv (update_send_window h (?s\<lparr>unacked_queue := q, send_unacked := ?a\<rparr>))"
      "no_fin ?s \<Longrightarrow> no_fin (update_send_window h (?s\<lparr>unacked_queue := q, send_unacked := ?a\<rparr>))"
      if "r = Ok (q, c)" for q c
      using r(3) [OF that] snd_inv_acked [OF s n(3,1), of q h] by (auto simp: no_fin_def)
    show ?thesis
    proof (cases "rto_estimate (te_fl env) (cb_rto cb)")
      case (Ok rto)
      have nofin: "\<not> cb_user_is_done_sending cb \<Longrightarrow> no_fin ?s" using inv by (simp add: cb_snd_inv_def)
      show ?thesis using Ok True r(1,2) n(2) env new nofin
        by (cases r) (auto simp: cb_process_ack_def Let_def cb_snd_inv_def res_bind_Ok_iff)
    qed (auto simp: cb_process_ack_def Let_def)
  qed
qed

lemma cb_receive_snd_inv:
  assumes inv: "cb_snd_inv cb" and env: "te_ext env = E"
    and half: "unacked_queue (cb_sender cb) = [] \<Longrightarrow> tcp_ack_num h \<noteq> send_unacked (cb_sender cb) + 2 ^ 31"
  shows "\<exists>r. cb_receive env h d cb = Some r \<and> (\<forall>cb'. r = Ok cb' \<longrightarrow> cb_snd_inv cb')"
proof (cases "cb_accept (te_ext env) h d cb")
  case Unacceptable
  then show ?thesis using inv cb_send_ack_keeps by (auto simp: cb_receive_def)
next
  case (Acceptable h1 d1 ss se sl)
  have a: "tcp_ack_num h1 = tcp_ack_num h" using cb_accept_ack_num [OF Acceptable] by simp
  have half1: "unacked_queue (cb_sender cb) = [] \<Longrightarrow> tcp_ack_num h1 \<noteq> send_unacked (cb_sender cb) + 2 ^ 31"
    using half a by simp
  have state: "cb_snd_inv (cb\<lparr>cb_state := st\<rparr>)" for st using inv by (simp add: cb_snd_inv_def)
  from cb_process_ack_inv [where h = h1, OF inv env half1] obtain r where
    r: "cb_process_ack env h1 cb = Some r" "\<And>cb' g. r = Ok (cb', g) \<Longrightarrow> cb_snd_inv cb'" by blast
  have "cb_snd_inv cb'" if rcv: "cb_receive env h d cb = Some (Ok cb')" for cb'
  proof (cases "tcp_rst h1 \<or> tcp_syn h1 \<or> \<not> tcp_ack h1")
    case True
    with rcv Acceptable have "cb_sender cb' = cb_sender cb" "cb_user_is_done_sending cb' = cb_user_is_done_sending cb"
      by (auto simp: cb_receive_def split: if_splits)
    then show ?thesis using inv by (rule cb_snd_inv_cong [rotated])
  next
    case False
    with rcv Acceptable r(1) obtain cb1 g where "r = Ok (cb1, g)"
      and rest: "cb' = cb1 \<or> cb_receive_out_of_order env h1 d1 ss se sl cb1 = Ok cb' \<or> cb_receive_in_order env h1 d1 cb1 = Ok cb'"
      by (auto simp: cb_receive_def Let_def split: res.splits if_splits)
    then have "cb_snd_inv cb1" using r(2) by blast
    with rest show ?thesis using cb_receive_out_of_order_keeps cb_receive_in_order_keeps by blast
  qed
  moreover have "cb_receive env h d cb \<noteq> None"
    using Acceptable r(1) by (auto simp: cb_receive_def Let_def split: res.splits)
  ultimately show ?thesis by auto
qed

lemma pop_unsent_spec:
  assumes "unsent_queue s = buf # q" "pop_unsent E m s = (s', x)" "0 < m" "buf \<noteq> []"
  obtains b q' where "x = Some b" "s' = s\<lparr>unsent_queue := q'\<rparr>" "b \<noteq> []" "b @ concat q' = buf @ concat q"
    "length b \<le> length buf" "length b \<le> m" "q' = q \<or> (\<exists>b'. b' \<noteq> [] \<and> length b' \<le> length buf \<and> q' = b' # q)"
proof (cases "length buf > m")
  case True
  then have "x = Some (take m buf)" "s' = s\<lparr>unsent_queue := drop m buf # q\<rparr>"
    using assms(1,2) by (auto simp: pop_unsent_def trim_take adjust_drop)
  with True assms(3) show ?thesis by (intro that [of "take m buf" "drop m buf # q"]) auto
next
  case False
  with assms show ?thesis by (intro that [of buf q]) (auto simp: pop_unsent_def)
qed

end

lemma snd_inv_unsent_front:
  assumes "snd_inv s" "send_next s \<noteq> unsent_seq_no s"
  obtains buf q where "unsent_queue s = buf # q" "buf \<noteq> []" "length buf < 2 ^ 31"
    "\<forall>u \<in> set (unacked_queue s). us_bytes u \<noteq> []"
proof (cases "unsent_queue s")
  case Nil
  with assms show ?thesis by (simp add: snd_inv_def seq_at_def)
next
  case (Cons buf q)
  have "buf \<noteq> []"
  proof
    assume "buf = []"
    with Cons assms(1) have "q = []" by (cases q) (auto simp: snd_inv_def)
    with Cons \<open>buf = []\<close> assms show False by (simp add: snd_inv_def seq_at_def)
  qed
  with Cons assms(1) show ?thesis by (intro that [of buf q]) (auto simp: snd_inv_def)
qed

lemma snd_inv_transmit:
  assumes s: "snd_inv s" and q: "unsent_queue s = buf # q" "us_bytes u @ concat q' = buf @ concat q" "us_bytes u \<noteq> []"
    and q': "q' = q \<or> (\<exists>b'. b' \<noteq> [] \<and> length b' \<le> length buf \<and> q' = b' # q)"
    and w: "unacked_weight (unacked_queue s) + length (us_bytes u) \<le> 2 ^ 30"
    and nofin: "\<forall>v \<in> set (unacked_queue s). us_bytes v \<noteq> []"
  shows "snd_inv (push_unacked_segment u (s\<lparr>unsent_queue := q',
     send_next := seq_add (send_next s) (of_nat (length (us_bytes u)))\<rparr>))"
proof -
  have "length (concat (unsent_queue s)) = length (us_bytes u) + length (concat q')"
    using arg_cong [OF q(2), of length] by (simp add: q(1))
  then have "unsent_seq_no s = seq_at (seq_at (send_next s) (length (us_bytes u))) (length (concat q'))"
    using s by (simp add: snd_inv_def seq_at_seq_at add.assoc)
  moreover have "send_next s = seq_at (send_unacked s) (unacked_weight (unacked_queue s))" using s by (simp add: snd_inv_def)
  moreover have "(\<forall>b \<in> set q'. length b < 2 ^ 31) \<and> (\<forall>b \<in> set (butlast q'). b \<noteq> [])"
    using s q(1) q' by (auto simp: snd_inv_def split: if_splits)
  moreover have "(\<exists>v \<in> set (unacked_queue s @ [u]). us_bytes v = []) \<longrightarrow> q' = []" using nofin q(3) by auto
  ultimately show ?thesis using s w nofin q(3)
    by (simp add: snd_inv_def push_unacked_segment_def fin_last_snoc us_weight_def seq_at_seq_at)
qed

text \<open>What the loop of the sender has checked when it goes on to send.\<close>

lemma bg_sender_top_sends:
  assumes "snd_inv (cb_sender cb)" "bg_sender_top env cb = Ok (cb1, BsSendArp nxt w sent eff)"
  shows "cb_sender cb1 = cb_sender cb \<and> cb_user_is_done_sending cb1 = cb_user_is_done_sending cb \<and>
    nxt = send_next (cb_sender cb) \<and> nxt \<noteq> unsent_seq_no (cb_sender cb) \<and> w = send_window (cb_sender cb) \<and>
    (\<forall>buf q. unsent_queue (cb_sender cb) = buf # q \<longrightarrow>
       unacked_weight (unacked_queue (cb_sender cb)) + length buf < unat w) \<and>
    0 < min (min (unat (w - sent)) (snd_mss (cb_sender cb))) (unat (eff - sent))"
proof -
  let ?s = "cb_sender cb"
  have basic: "cb_sender cb1 = ?s" "cb_user_is_done_sending cb1 = cb_user_is_done_sending cb" "nxt = send_next ?s"
      "nxt \<noteq> unsent_seq_no ?s" "w = send_window ?s" "sent = seq_sub nxt (send_unacked ?s)" "sent < eff"
    and top: "\<exists>size. top_size_unsent ?s = Some size \<and> \<not> w \<le> sent + of_nat size"
    using assms(2) by (auto simp: bg_sender_top_def Let_def not_le split: if_splits option.splits)
  obtain buf q where q: "unsent_queue ?s = buf # q" "length buf < 2 ^ 31"
    using snd_inv_unsent_front [OF assms(1)] basic by metis
  have sent: "sent = of_nat (unacked_weight (unacked_queue ?s))" using snd_inv_sent_data(1) [OF assms(1)] basic by simp
  have le: "unacked_weight (unacked_queue ?s) + length buf < 2 ^ 32" using assms(1) q by (simp add: snd_inv_def)
  have "\<not> w \<le> of_nat (unacked_weight (unacked_queue ?s) + length buf)"
    using top q sent by (simp add: top_size_unsent_def)
  then have fits: "unacked_weight (unacked_queue ?s) + length buf < unat w"
    using unat_of_nat_u32 [OF le] by (simp add: word_le_nat_alt del: of_nat_add)
  have "unat sent < unat w" using fits le by (simp add: sent unat_of_nat_u32)
  then have "w - sent \<noteq> 0" by auto
  moreover have "eff - sent \<noteq> 0" using basic by auto
  moreover have "0 < snd_mss ?s" using assms(1) by (simp add: snd_inv_def)
  ultimately have "0 < min (min (unat (w - sent)) (snd_mss ?s)) (unat (eff - sent))"
    by (simp add: unat_gt_0 del: unat_sub_if')
  with basic fits q(1) show ?thesis by simp
qed

lemma bg_sender_send_sender:
  assumes send: "bg_sender_send env nxt w sent eff mac cb = Ok (cb', st)"
    and pop: "pop_unsent (te_ext env) (min (min (unat (w - sent)) (snd_mss (cb_sender cb))) (unat (eff - sent))) (cb_sender cb) = (s, Some b)"
    and b: "(of_nat (length b) :: u32) \<noteq> 0"
  shows "cb_sender cb' = push_unacked_segment \<lparr>us_bytes = b, us_initial_tx = Some (te_now env)\<rparr>
      (s\<lparr>send_next := seq_add (send_next s) (of_nat (length b))\<rparr>) \<and>
    cb_user_is_done_sending cb' = cb_user_is_done_sending cb"
proof -
  from send pop obtain rto h where "rto_estimate (te_fl env) (cb_rto cb) = Ok rto"
    "cb_tcp_header (cb\<lparr>cb_sender := s, cb_cc := cc_on_send (te_cc env) (te_inow env) rto sent (cb_cc cb)\<rparr>) = Ok h"
    unfolding bg_sender_send_def Let_def by (auto simp: res_bind_Ok_iff simp del: word_of_nat_eq_0_iff)
  with send pop show ?thesis unfolding bg_sender_send_def Let_def
    by (simp add: b split: if_split_asm del: word_of_nat_eq_0_iff, auto)
qed

context buffer_ops
begin

text \<open>The part \<open>b\<close> of the unsent data that the background sender takes off the queue and sends.\<close>

lemma bg_sender_send_effect:
  assumes s: "snd_inv (cb_sender cb)" and env: "te_ext env = E"
    and top: "bg_sender_top env cb = Ok (cb1, BsSendArp nxt w sent eff)"
    and send: "bg_sender_send env nxt w sent eff mac cb1 = Ok (cb', st)"
  obtains buf q b q' where "unsent_queue (cb_sender cb) = buf # q" "buf \<noteq> []" "\<forall>u \<in> set (unacked_queue (cb_sender cb)). us_bytes u \<noteq> []"
    "b @ concat q' = buf @ concat q" "b \<noteq> []" "length b \<le> length buf" "q' = q \<or> (\<exists>b'. b' \<noteq> [] \<and> length b' \<le> length buf \<and> q' = b' # q)"
    "pop_unsent E (min (min (unat (w - sent)) (snd_mss (cb_sender cb1))) (unat (eff - sent))) (cb_sender cb1) = ((cb_sender cb)\<lparr>unsent_queue := q'\<rparr>, Some b)"
    "cb_sender cb' = push_unacked_segment \<lparr>us_bytes = b, us_initial_tx = Some (te_now env)\<rparr> ((cb_sender cb)\<lparr>unsent_queue := q',
      send_next := seq_add (send_next (cb_sender cb)) (of_nat (length b))\<rparr>)"
    "cb_user_is_done_sending cb' = cb_user_is_done_sending cb" "unacked_weight (unacked_queue (cb_sender cb)) + length b \<le> 2 ^ 30"
proof -
  let ?s = "cb_sender cb"
  note t = bg_sender_top_sends [OF s top]
  obtain buf q where q: "unsent_queue ?s = buf # q" "buf \<noteq> []" "length buf < 2 ^ 31"
      "\<forall>u \<in> set (unacked_queue ?s). us_bytes u \<noteq> []"
    using snd_inv_unsent_front [OF s] t by metis
  let ?m = "min (min (unat (w - sent)) (snd_mss ?s)) (unat (eff - sent))"
  obtain s1 b q' where pop: "pop_unsent E ?m ?s = (s1, Some b)" "s1 = ?s\<lparr>unsent_queue := q'\<rparr>" "b \<noteq> []"
    "b @ concat q' = buf @ concat q" "length b \<le> length buf"
    "q' = q \<or> (\<exists>b'. b' \<noteq> [] \<and> length b' \<le> length buf \<and> q' = b' # q)"
    using pop_unsent_spec [OF q(1) _ _ q(2), of ?m] t by (metis surj_pair)
  have z: "(of_nat (length b) :: u32) \<noteq> 0"
    using pop(3,5) q(3) by (auto simp: word_of_nat_eq_0_iff dest: dvd_imp_le)
  have cb': "cb_sender cb' = push_unacked_segment \<lparr>us_bytes = b, us_initial_tx = Some (te_now env)\<rparr> (?s\<lparr>unsent_queue := q',
      send_next := seq_add (send_next ?s) (of_nat (length b))\<rparr>)"
    "cb_user_is_done_sending cb' = cb_user_is_done_sending cb"
    using bg_sender_send_sender [OF send _ z] pop(1,2) t env by simp_all
  have w: "unacked_weight (unacked_queue ?s) + length b \<le> 2 ^ 30"
    using t q(1) pop(5) s by (auto simp: snd_inv_def)
  show thesis using that [OF q(1,2,4) pop(4,3,5,6) _ cb' w] pop(1,2) t by simp
qed

lemma bg_sender_send_inv:
  assumes inv: "cb_snd_inv cb" and env: "te_ext env = E"
    and top: "bg_sender_top env cb = Ok (cb1, BsSendArp nxt w sent eff)"
    and send: "bg_sender_send env nxt w sent eff mac cb1 = Ok (cb', st)"
  shows "cb_snd_inv cb'"
proof -
  have s: "snd_inv (cb_sender cb)" using inv by (simp add: cb_snd_inv_def)
  obtain buf q b q' where
    q: "unsent_queue (cb_sender cb) = buf # q" "buf \<noteq> []" "\<forall>u \<in> set (unacked_queue (cb_sender cb)). us_bytes u \<noteq> []"
      "b @ concat q' = buf @ concat q" "b \<noteq> []" "length b \<le> length buf" "q' = q \<or> (\<exists>b'. b' \<noteq> [] \<and> length b' \<le> length buf \<and> q' = b' # q)"
    and "pop_unsent E (min (min (unat (w - sent)) (snd_mss (cb_sender cb1))) (unat (eff - sent))) (cb_sender cb1) = ((cb_sender cb)\<lparr>unsent_queue := q'\<rparr>, Some b)"
    and cb': "cb_sender cb' = push_unacked_segment \<lparr>us_bytes = b, us_initial_tx = Some (te_now env)\<rparr> ((cb_sender cb)\<lparr>unsent_queue := q',
      send_next := seq_add (send_next (cb_sender cb)) (of_nat (length b))\<rparr>)"
      "cb_user_is_done_sending cb' = cb_user_is_done_sending cb" "unacked_weight (unacked_queue (cb_sender cb)) + length b \<le> 2 ^ 30"
    by (rule bg_sender_send_effect [OF s env top send])
  have "snd_inv (cb_sender cb')"
    unfolding cb'(1) using snd_inv_transmit [OF s q(1), of "\<lparr>us_bytes = b, us_initial_tx = Some (te_now env)\<rparr>" q'] q(3-5,7) cb'(3) by simp
  moreover have "no_fin (cb_sender cb) \<Longrightarrow> no_fin (cb_sender cb')"
    using q unfolding cb'(1) by (auto simp: no_fin_def push_unacked_segment_def)
  ultimately show ?thesis using inv cb'(2) by (simp add: cb_snd_inv_def)
qed

lemma bg_sender_iter_inv:
  assumes inv: "cb_snd_inv cb" and env: "te_ext env = E" and win: "send_window (cb_sender cb) \<noteq> 0"
    and iter: "bg_sender_iter env cb = Ok (cb', st)"
  shows "cb_snd_inv cb'"
proof -
  from iter obtain cb1 st1 where top: "bg_sender_top env cb = Ok (cb1, st1)"
    by (auto simp: bg_sender_iter_def res_bind_Ok_iff)
  then have keep: "cb_snd_inv cb1" using inv
    by (auto simp: bg_sender_top_def Let_def split: if_splits option.splits elim!: cb_snd_inv_cong)
  have np: "st1 \<noteq> BsProbeArp n" "st1 \<noteq> BsProbing n b m t" for n b m t
    using top win by (auto simp: bg_sender_top_def Let_def split: if_splits option.splits)
  from iter top np consider "cb' = cb1" | nxt w sent eff mac where "st1 = BsSendArp nxt w sent eff"
      "bg_sender_send env nxt w sent eff mac cb1 = Ok (cb', st)"
    by (cases st1) (auto simp: bg_sender_iter_def split: option.splits)
  then show ?thesis using keep bg_sender_send_inv [OF inv env] top by cases auto
qed

end

section \<open>Connections\<close>

text \<open>
  What can happen to an established connection: calls of the application, segments from the network,
  timers and the background sender.  A segment is any, but for the acknowledgement number that is exactly half the
  sequence space ahead of a connection with nothing outstanding.  The background sender runs with a
  window open, the fast retransmit is left out: both are treated below.
\<close>

inductive conn_step :: "ext \<Rightarrow> ('f, 'cc) control_block \<Rightarrow> ('f, 'cc) control_block \<Rightarrow> bool" for E where
  conn_send: "te_ext env = E \<Longrightarrow> cb_send env buf cb = Ok (cb', r) \<Longrightarrow> buf \<noteq> [] \<Longrightarrow> length buf < 2 ^ 31 \<Longrightarrow> conn_step E cb cb'"
| conn_close: "te_ext env = E \<Longrightarrow> cb_close env cb = Ok (cb', r) \<Longrightarrow> conn_step E cb cb'"
| conn_receive: "te_ext env = E \<Longrightarrow> cb_receive env h d cb = Some (Ok cb') \<Longrightarrow>
    (unacked_queue (cb_sender cb) = [] \<longrightarrow> tcp_ack_num h \<noteq> send_unacked (cb_sender cb) + 2 ^ 31) \<Longrightarrow> conn_step E cb cb'"
| conn_read: "cb_poll_recv cb = (cb', r) \<Longrightarrow> conn_step E cb cb'"
| conn_background: "te_ext env = E \<Longrightarrow> bg_sender_iter env cb = Ok (cb', st) \<Longrightarrow> send_window (cb_sender cb) \<noteq> 0 \<Longrightarrow> conn_step E cb cb'"
| conn_retransmit_timer: "te_ext env = E \<Longrightarrow> conn_step E cb (retransmitter_timer env cb)"
| conn_ack_timer: "te_ext env = E \<Longrightarrow> acknowledger_timer env cb = Ok cb' \<Longrightarrow> conn_step E cb cb'"

inductive conn_reach :: "ext \<Rightarrow> ('f, 'cc) control_block \<Rightarrow> ('f, 'cc) control_block \<Rightarrow> bool" for E cb0 where
  conn_start: "conn_reach E cb0 cb0"
| conn_next: "conn_reach E cb0 cb \<Longrightarrow> conn_step E cb cb' \<Longrightarrow> conn_reach E cb0 cb'"

context buffer_ops
begin

lemma conn_step_inv: "conn_step E cb cb' \<Longrightarrow> cb_snd_inv cb \<Longrightarrow> cb_snd_inv cb'"
proof (induction rule: conn_step.induct)
  case (conn_send env buf cb cb' r)
  then show ?case using cb_send_inv by blast
next
  case (conn_close env cb cb' r)
  then show ?case using cb_close_inv by blast
next
  case (conn_receive env h d cb cb')
  then show ?case using cb_receive_snd_inv [of cb env h d] by auto
next
  case (conn_read cb cb' r)
  then show ?case
    by (auto simp: cb_poll_recv_def Let_def split: if_splits prod.splits elim!: cb_snd_inv_cong)
next
  case (conn_background env cb cb' st)
  then show ?case using bg_sender_iter_inv by blast
next
  case (conn_retransmit_timer env cb)
  then show ?case by (auto simp: retransmitter_timer_def split: option.splits elim!: cb_snd_inv_cong)
next
  case (conn_ack_timer env cb cb')
  then show ?case by (auto simp: acknowledger_timer_def split: option.splits if_splits elim: cb_send_ack_keeps)
qed

lemma conn_reach_inv: "conn_reach E cb0 cb \<Longrightarrow> cb_snd_inv cb0 \<Longrightarrow> cb_snd_inv cb"
  by (induction rule: conn_reach.induct) (auto intro: conn_step_inv)

end

lemma cb_snd_inv_new:
  "unat win < 2 ^ 30 \<Longrightarrow> sscale \<le> 14 \<Longrightarrow> 0 < mss \<Longrightarrow>
   cb_snd_inv (control_block_new F l r s adt bufsize scale sseq win sscale mss cc)"
  by (simp add: cb_snd_inv_def snd_inv_def no_fin_def control_block_new_def sender_new_def seq_at_def fin_last_def)

section \<open>What the exceptions lead to\<close>

text \<open>An acknowledgement with nothing on the retransmission queue never ends.\<close>

lemma cb_process_ack_diverges:
  assumes "rto_estimate (te_fl env) (cb_rto cb) = Ok rto" "unacked_queue (cb_sender cb) = []"
    and "seq_lt (send_unacked (cb_sender cb)) (tcp_ack_num h)" "seq_le (tcp_ack_num h) (send_next (cb_sender cb))"
  shows "cb_process_ack env h cb = None"
proof -
  have "unat (seq_sub (tcp_ack_num h) (send_unacked (cb_sender cb))) \<noteq> 0"
    using assms(3) by (auto simp: seq_sub_def seq_lt_dist unat_eq_0)
  with assms show ?thesis by (simp add: cb_process_ack_def Let_def remove_acked_stuck)
qed

lemma cb_receive_diverges:
  assumes "cb_accept (te_ext env) h d cb = Acceptable h' d' ss se sl" "\<not> tcp_rst h'" "\<not> tcp_syn h'" "tcp_ack h'"
    and "cb_process_ack env h' cb = None"
  shows "cb_receive env h d cb = None"
  using assms by (simp add: cb_receive_def)

text \<open>A fast retransmit takes the segment off the queue; the acknowledgement of it finds the queue empty.\<close>

lemma retransmit_fast_pops:
  "retransmit_start F FastRetransmit cb = Ok (cb', st) \<Longrightarrow> unacked_queue (cb_sender cb) = [u] \<Longrightarrow>
   st = RtArp u \<and> cb' = cb\<lparr>cb_sender := (cb_sender cb)\<lparr>unacked_queue := []\<rparr>\<rparr>"
  by (simp add: retransmit_start_def pop_unacked_segment_def)

end
