(* ===== verification/Tcp_States.thy ===== *)
theory Tcp_States
  imports Tcp_Sender
begin

text \<open>
  The states of a connection.  \<open>peer_moves\<close> are the moves a segment can cause, \<open>tcp_moves\<close> those
  of RFC 793 from an established connection on, with the moves of a segment that acknowledges the local FIN and
  carries the peer's as one.
\<close>

definition peer_moves :: "tcp_state \<Rightarrow> tcp_state set" where
  "peer_moves st = insert st (insert Closed
     (case st of
        Established \<Rightarrow> {CloseWait}
      | FinWait1 \<Rightarrow> {FinWait2, Closing, TimeWait}
      | FinWait2 \<Rightarrow> {TimeWait}
      | Closing \<Rightarrow> {TimeWait}
      | _ \<Rightarrow> {}))"

definition tcp_moves :: "tcp_state \<Rightarrow> tcp_state set" where
  "tcp_moves st = insert (state_after_fin st) (peer_moves st)"

lemma cb_process_ack_state:
  "cb_process_ack env h cb = Some (Ok (cb', g)) \<Longrightarrow>
   cb_state cb' = cb_state cb \<or> cb_state cb' = state_after_ack_of_all (cb_state cb)"
  by (auto simp: cb_process_ack_def Let_def res_bind_Ok_iff dest!: cb_send_ack_view
      split: res.splits if_splits option.splits)

lemma receive_data_state: "receive_data d cb = (cb', f) \<Longrightarrow> cb_state cb' = cb_state cb"
  by (auto simp: receive_data_def Let_def split: prod.splits)

lemma cb_receive_out_of_order_state:
  "cb_receive_out_of_order env h d ss se sl cb = Ok cb' \<Longrightarrow> cb_state cb' = cb_state cb"
  by (auto simp: cb_receive_out_of_order_def Let_def dest!: cb_send_ack_view split: if_splits)

lemma cb_receive_in_order_state:
  "cb_receive_in_order env h d cb = Ok cb' \<Longrightarrow>
   cb_state cb' = cb_state cb \<or> state_after_peer_fin (cb_state cb) = Ok (cb_state cb')"
  by (auto simp: cb_receive_in_order_def Let_def res_bind_Ok_iff dest!: cb_send_ack_view receive_data_state
      split: if_splits prod.splits)

lemma cb_receive_moves:
  assumes "cb_receive env h d cb = Some (Ok cb')"
  shows "cb_state cb' \<in> peer_moves (cb_state cb)"
proof (cases "cb_accept (te_ext env) h d cb")
  case Unacceptable
  with assms show ?thesis
    by (auto simp: cb_receive_def peer_moves_def dest!: cb_send_ack_view split: if_splits)
next
  case (Acceptable h1 d1 ss se sl)
  show ?thesis
  proof (cases "tcp_rst h1 \<or> tcp_syn h1 \<or> \<not> tcp_ack h1")
    case True
    with assms Acceptable show ?thesis by (auto simp: cb_receive_def peer_moves_def split: if_splits)
  next
    case False
    with assms Acceptable obtain cb1 g where ack: "cb_process_ack env h1 cb = Some (Ok (cb1, g))"
      and rest: "cb' = cb1 \<or> cb_receive_out_of_order env h1 d1 ss se sl cb1 = Ok cb' \<or> cb_receive_in_order env h1 d1 cb1 = Ok cb'"
      by (auto simp: cb_receive_def Let_def split: option.splits res.splits if_splits)
    from cb_process_ack_state [OF ack] rest show ?thesis
      by (auto simp: peer_moves_def state_after_ack_of_all_def state_after_peer_fin_def
          dest!: cb_receive_out_of_order_state cb_receive_in_order_state split: tcp_state.splits)
  qed
qed

lemma cb_emit_state: "cb_state (cb_emit env h d m cb) \<in> {cb_state cb, state_after_fin (cb_state cb)}"
  by (simp add: cb_emit_def Let_def)

lemma send_immediate_state:
  assumes "send_immediate env buf mac n cb = Ok cb'"
  shows "cb_state cb' \<in> {cb_state cb, state_after_fin (cb_state cb)}"
proof -
  from assms obtain rto h where "rto_estimate (te_fl env) (cb_rto cb) = Ok rto"
    "cb_tcp_header (cb\<lparr>cb_cc := cc_on_send (te_cc env) (te_inow env) rto n (cb_cc cb)\<rparr>) = Ok h"
    unfolding send_immediate_def res_bind_Ok_iff Let_def by blast
  with assms show ?thesis unfolding send_immediate_def Let_def
    by (simp add: cb_emit_def Let_def split: if_split_asm) auto
qed

lemma cb_send_state:
  assumes "cb_send env buf cb = Ok (cb', r)"
  shows "cb_state cb' \<in> {cb_state cb, state_after_fin (cb_state cb)}"
  using assms send_immediate_state
  by (fastforce simp: cb_send_def send_queued_def Let_def res_bind_Ok_iff split: if_splits option.splits)

lemma cb_close_state:
  assumes "cb_close env cb = Ok (cb', r)"
  shows "cb_state cb' \<in> {cb_state cb, state_after_fin (cb_state cb)}"
proof (cases "cb_user_is_done_sending cb")
  case False
  with assms obtain cb1 r1 where r1: "cb_send env [] cb = Ok (cb1, r1)"
    "(case r1 of Ok u \<Rightarrow> Ok (cb1\<lparr>cb_user_is_done_sending := True\<rparr>, Ok ()) | _ \<Rightarrow> Panic ''send failed'') = Ok (cb', r)"
    by (auto simp: cb_close_def res_bind_Ok_iff)
  then have "cb_state cb' = cb_state cb1" by (cases r1) auto
  with cb_send_state [OF r1(1)] show ?thesis by simp
qed (use assms in \<open>simp add: cb_close_def\<close>)

lemma bg_sender_send_state:
  assumes "bg_sender_send env nxt w sent eff mac cb = Ok (cb', st)"
  shows "cb_state cb' \<in> {cb_state cb, state_after_fin (cb_state cb)}"
proof -
  from assms obtain s b where pop: "pop_unsent (te_ext env) (min (min (unat (w - sent)) (snd_mss (cb_sender cb))) (unat (eff - sent))) (cb_sender cb) = (s, Some b)"
    by (auto simp: bg_sender_send_def Let_def split: option.splits prod.splits)
  with assms obtain rto h where "rto_estimate (te_fl env) (cb_rto cb) = Ok rto"
    "cb_tcp_header (cb\<lparr>cb_sender := s, cb_cc := cc_on_send (te_cc env) (te_inow env) rto sent (cb_cc cb)\<rparr>) = Ok h"
    unfolding bg_sender_send_def Let_def by (auto simp: res_bind_Ok_iff simp del: word_of_nat_eq_0_iff)
  with assms pop show ?thesis unfolding bg_sender_send_def Let_def
    by (simp add: cb_emit_def Let_def split: if_split_asm del: word_of_nat_eq_0_iff) auto
qed

lemma bg_sender_top_state: "bg_sender_top env cb = Ok (cb', st) \<Longrightarrow> cb_state cb' = cb_state cb"
  by (auto simp: bg_sender_top_def Let_def split: if_splits option.splits)

lemma bg_sender_probe_state: "bg_sender_probe env nxt mac cb = Ok (cb', st) \<Longrightarrow> cb_state cb' = cb_state cb"
  by (auto simp: bg_sender_probe_def bg_probe_header_def Let_def res_bind_Ok_iff cb_emit_def dest!: cb_tcp_header_fin
      split: prod.splits option.splits if_splits)

lemma bg_sender_iter_state:
  assumes "bg_sender_iter env cb = Ok (cb', st)"
  shows "cb_state cb' \<in> {cb_state cb, state_after_fin (cb_state cb)}"
proof -
  from assms obtain cb1 st1 where top: "bg_sender_top env cb = Ok (cb1, st1)"
    by (auto simp: bg_sender_iter_def res_bind_Ok_iff)
  with assms bg_sender_top_state [OF top] bg_sender_send_state [of env _ _ _ _ _ cb1 cb' st]
    bg_sender_probe_state [of env _ _ cb1 cb' st] show ?thesis
    by (cases st1) (auto simp: bg_sender_iter_def split: option.splits)
qed

lemma conn_step_moves: "conn_step E cb cb' \<Longrightarrow> cb_state cb' \<in> tcp_moves (cb_state cb)"
proof (induction rule: conn_step.induct)
  case (conn_send env buf cb cb' r)
  then show ?case using cb_send_state [of env buf cb cb' r] by (auto simp: tcp_moves_def peer_moves_def)
next
  case (conn_close env cb cb' r)
  then show ?case using cb_close_state [of env cb cb' r] by (auto simp: tcp_moves_def peer_moves_def)
next
  case (conn_receive env h d cb cb')
  then show ?case using cb_receive_moves [of env h d cb cb'] by (simp add: tcp_moves_def)
next
  case (conn_read cb cb' r)
  then show ?case by (auto simp: cb_poll_recv_def Let_def tcp_moves_def peer_moves_def split: if_splits prod.splits)
next
  case (conn_background env cb cb' st)
  then show ?case using bg_sender_iter_state [of env cb cb' st] by (auto simp: tcp_moves_def peer_moves_def)
next
  case (conn_retransmit_timer env cb)
  then show ?case by (auto simp: retransmitter_timer_def tcp_moves_def peer_moves_def split: option.splits)
next
  case (conn_ack_timer env cb cb')
  then show ?case
    by (auto simp: acknowledger_timer_def tcp_moves_def peer_moves_def dest!: cb_send_ack_view
        split: option.splits if_splits)
qed

end
