(* ===== verification/Tcp_Properties.thy ===== *)
theory Tcp_Properties
  imports Tcp_States
begin

text \<open>
  What an established TCP connection promises to the application and to its peer, and where the
  code does not keep it.
\<close>

section \<open>A connection to evaluate on\<close>

definition sample_env :: "(rat, unit) tcp_env" where
  "sample_env = \<lparr>te_ext = documented_ext, te_fl = exact_flops, te_cc = none_ops, te_arp = (\<lambda>_. Some [2, 0, 0, 0, 0, 2]),
     te_rt = \<lparr>rt_local_link_addr = [2, 0, 0, 0, 0, 1], rt_local_ipv4_addr = 1\<rparr>, te_tx_offload = False,
     te_now = 5000000000, te_inow = 5000000000\<rparr>"

definition sample_cb :: "(rat, unit) control_block" where
  "sample_cb = control_block_new exact_flops (1, 80) (2, 49152) 1000 1000 65535 0 7000 65535 0 1450 ()"

definition sample_header :: "u32 \<Rightarrow> tcp_header" where
  "sample_header n = (tcp_header_new 49152 80)\<lparr>tcp_ack := True, tcp_seq_num := n, tcp_ack_num := 7000\<rparr>"

definition sample_stream :: "nat \<Rightarrow> u8" where
  "sample_stream i = of_nat (97 + i)"

section \<open>The received stream\<close>

text \<open>C3: Whatever segments of the peer's stream arrive, in whatever order, overlapping, repeated, cut short by the window or outside it, and
  whenever the application reads in between: what the application has read is a prefix of the stream.  The stream is below 2 GiB less the
  receive buffer, so that sequence numbers do not come round.\<close>

theorem tcp_stream_integrity:
  assumes "buffer_ops E" "n + unat bufsize + 3 < 2 ^ 31"
    and "\<forall>env h d. Segment env h d \<in> set es \<longrightarrow> te_ext env = E \<and> seg_of s f n h d"
    and "rcv_run es (control_block_new F l r s adt bufsize scale sseq win sscale mss cc, []) = Some (cb, out)"
  shows "\<exists>u \<le> n. out = map f [0..<u]"
proof -
  have "unat (cb_receive_buffer_size (control_block_new F l r s adt bufsize scale sseq win sscale mss cc)) = unat bufsize"
    by (simp add: control_block_new_def)
  with buffer_ops.rcv_run_inv [OF assms(1,4) rcv_inv_new, of f n] assms(2,3) obtain u r' x where
    "out = chunk f 0 u" "rcv_inv s f n u r' x cb" by auto
  then show ?thesis using rcv_inv_reader [of s f n u r' x cb] by (auto simp: chunk_def)
qed

lemma sample_segments:
  "seg_of 1000 sample_stream 6 (sample_header 1000) [97, 98]"
  "seg_of 1000 sample_stream 6 (sample_header 1002) [99, 100]"
proof -
  have "[97, 98] = chunk sample_stream 0 2" "[99, 100] = chunk sample_stream 2 2" by code_simp+
  then show "seg_of 1000 sample_stream 6 (sample_header 1000) [97, 98]" "seg_of 1000 sample_stream 6 (sample_header 1002) [99, 100]"
    unfolding seg_of_def by (auto simp: sample_header_def tcp_header_new_def seq_at_def intro: exI [of _ 0] exI [of _ 2])
qed

definition sample_events :: "(rat, unit) rcv_event list" where
  "sample_events = [Segment sample_env (sample_header 1002) [99, 100], Segment sample_env (sample_header 1000) [97, 98], Read, Read]"

lemmas rcv_eval = sample_env_def sample_cb_def sample_header_def control_block_new_def sender_new_def receiver_new_def tcp_header_new_def
  cb_receive_def cb_accept_def cut_front_def cut_end_def get_receive_window_size_def seq_sub_def seq_add_def seq_lt_dist seq_le_dist seq_ge_dist
  cb_process_ack_def rto_estimate_def rto_new_def exact_flops_def none_ops_def cb_receive_out_of_order_def cb_receive_in_order_def
  receives_data_def store_out_of_order_segment.simps MAX_OUT_OF_ORDER_def cb_send_ack_def cb_tcp_header_def hdr_window_size_def cb_emit_def
  receive_data_def receiver_push_def receiver_pop_def cb_poll_recv_def state_after_peer_fin_def documented_ext_def

lemma sample_run: "\<exists>cb. rcv_run sample_events (sample_cb, []) = Some (cb, [97, 98, 99, 100])"
  by (simp add: sample_events_def rcv_eval)

theorem tcp_stream_integrity_witness: "\<exists>u \<le> 6. [97, 98, 99, 100] = map sample_stream [0..<u]"
proof -
  obtain cb where run: "rcv_run sample_events (sample_cb, []) = Some (cb, [97, 98, 99, 100])" using sample_run by blast
  show ?thesis
    by (rule tcp_stream_integrity [OF docs.buffer_ops_axioms _ _ run [unfolded sample_cb_def], where n = 6 and f = sample_stream])
      (use sample_segments in \<open>auto simp: sample_events_def sample_env_def\<close>)
qed

text \<open>C12: The receive buffer bounds what is held: whatever arrives, the data that waits for the application and the advertised window together
  never exceed the buffer, and the window computation does not wrap.\<close>

theorem tcp_receive_window_bound:
  assumes "buffer_ops E" "n + unat bufsize + 3 < 2 ^ 31"
    and "\<forall>env h d. Segment env h d \<in> set es \<longrightarrow> te_ext env = E \<and> seg_of s f n h d"
    and "rcv_run es (control_block_new F l r s adt bufsize scale sseq win sscale mss cc, []) = Some (cb, out)"
  shows "length (concat (recv_queue (cb_receiver cb))) + unat (get_receive_window_size cb) \<le> unat bufsize"
proof -
  have run: "rcv_run es (control_block_new F l r s adt bufsize scale sseq win sscale mss cc, []) = Some (cb, out)" by fact
  have b0: "unat (cb_receive_buffer_size (control_block_new F l r s adt bufsize scale sseq win sscale mss cc)) = unat bufsize"
    by (simp add: control_block_new_def)
  with buffer_ops.rcv_run_inv [OF assms(1) run rcv_inv_new, of f n] assms(2,3) obtain u r' x where
    inv: "rcv_inv s f n u r' x cb" by auto
  have b: "cb_receive_buffer_size cb = bufsize" using rcv_run_buffer_size [OF run] by (simp add: control_block_new_def)
  have lim: "u + unat (cb_receive_buffer_size cb) < 2 ^ 31" using assms(2) rcv_inv_reader [OF inv] b by simp
  have i: "length (concat (recv_queue (cb_receiver cb))) = r' - u" "u \<le> r'" "r' + x \<le> u + unat bufsize"
    using inv b by (auto simp: rcv_inv_def Let_def simp del: length_concat)
  have "unat (get_receive_window_size cb) = u + unat bufsize - (r' + x)"
    using rcv_inv_window [OF inv lim] lim b unat_of_nat_u32 [of "u + unat bufsize - (r' + x)"] by simp
  with i show ?thesis by simp
qed

theorem tcp_receive_window_bound_witness:
  "\<exists>cb. rcv_run (butlast sample_events) (sample_cb, []) = Some (cb, [97, 98]) \<and>
     length (concat (recv_queue (cb_receiver cb))) + unat (get_receive_window_size cb) \<le> 65535"
proof -
  obtain cb where run: "rcv_run (butlast sample_events) (sample_cb, []) = Some (cb, [97, 98])"
    by (simp add: sample_events_def rcv_eval)
  have "length (concat (recv_queue (cb_receiver cb))) + unat (get_receive_window_size cb) \<le> unat (65535 :: u32)"
    by (rule tcp_receive_window_bound [OF docs.buffer_ops_axioms _ _ run [unfolded sample_cb_def], where n = 6 and f = sample_stream])
      (use sample_segments in \<open>auto simp: sample_events_def sample_env_def\<close>)
  with run show ?thesis by auto
qed

text \<open>C11: Segments that arrive in order, each within the buffer, and are read one by one are all delivered: the connection accepts them, and
  the application reads exactly their data, whatever the initial sequence number and however long the stream.\<close>

theorem tcp_in_order_delivery:
  assumes "unat bufsize < 2 ^ 31" "unat (drop_bit (unat scale mod 32) bufsize) < 2 ^ 16"
    and "rto_estimate (te_fl env) (rto_new F) = Ok rto" "in_sequence bufsize sseq s segs"
  shows "\<exists>cb. rcv_run (concat (map (\<lambda>(h, d). [Segment env h d, Read]) segs))
       (control_block_new F l r s adt bufsize scale sseq win sscale mss cc, []) = Some (cb, concat (map snd segs))"
proof -
  let ?cb = "control_block_new F l r s adt bufsize scale sseq win sscale mss cc"
  have "idle_receiver bufsize sseq s ?cb" by (rule idle_receiver_new [OF assms(1,2)])
  from rcv_run_in_sequence [OF this assms(4), of env rto "[]"] assms(3) show ?thesis
    by (auto simp: control_block_new_def)
qed

theorem tcp_in_order_delivery_witness:
  "\<exists>cb. rcv_run [Segment sample_env (sample_header 1000) [97, 98], Read, Segment sample_env (sample_header 1002) [99, 100], Read]
     (sample_cb, []) = Some (cb, [97, 98, 99, 100])"
  using tcp_in_order_delivery [of 65535 0 sample_env exact_flops 1000000000 7000 1000
      "[(sample_header 1000, [97, 98]), (sample_header 1002, [99, 100])]" "(1, 80)" "(2, 49152)" 1000 65535 0 1450 "()"]
  by (simp add: sample_cb_def sample_env_def sample_header_def tcp_header_new_def rto_estimate_def rto_new_def exact_flops_def
      seq_lt_dist seq_add_def)

section \<open>The sender's accounts\<close>






text \<open>An acknowledgement of \<open>n\<close> outstanding numbers ends and takes exactly these off the retransmission queue: what stays is the rest of
  the bytes, whether the cut is within a segment, between segments or at the FIN.\<close>

lemma remove_acked_exact:
  assumes "buffer_ops E" "fin_last q" "n \<le> unacked_weight q"
  shows "\<exists>r. remove_acked E F now n q rto = Some r \<and> (\<forall>e. r \<noteq> Err e) \<and>
     (\<forall>q' c. r = Ok (q', c) \<longrightarrow> unacked_bytes q' = drop n (unacked_bytes q) \<and> unacked_weight q' = unacked_weight q - n)"
  using buffer_ops.remove_acked_removes [OF assms, of F now rto] by blast

section \<open>Where it goes wrong\<close>

lemma bare_ack_diverges:
  assumes "unacked_queue (cb_sender cb) = []" "rto_estimate (te_fl env) (cb_rto cb) = Ok rto"
    and "tcp_seq_num h = receive_next (cb_receiver cb)" "tcp_ack h" "\<not> tcp_rst h" "\<not> tcp_syn h" "\<not> tcp_fin h"
    and "seq_lt (send_unacked (cb_sender cb)) (tcp_ack_num h)" "seq_le (tcp_ack_num h) (send_next (cb_sender cb))"
  shows "cb_receive env h [] cb = None"
  by (rule cb_receive_diverges [OF cb_accept_bare_ack])
    (use assms cb_process_ack_diverges [OF assms(2,1,8,9)] in auto)

text \<open>C32: On a connection with nothing outstanding, a bare in-sequence ACK whose number is exactly half the sequence space ahead makes the receive
  routine loop forever in a release build: the number compares as new and as sent, and the loop over the empty retransmission queue never
  reaches zero.\<close>

theorem tcp_forged_ack_hangs:
  assumes "unacked_queue (cb_sender cb) = []" "send_next (cb_sender cb) = send_unacked (cb_sender cb)"
    and "rto_estimate (te_fl env) (cb_rto cb) = Ok rto"
    and "tcp_seq_num h = receive_next (cb_receiver cb)" "tcp_ack h" "\<not> tcp_rst h" "\<not> tcp_syn h" "\<not> tcp_fin h"
    and "tcp_ack_num h = send_unacked (cb_sender cb) + 2 ^ 31"
  shows "cb_receive env h [] cb = None"
  by (rule bare_ack_diverges [OF assms(1,3-8)]) (simp_all add: assms(2,9) seq_lt_dist seq_le_dist)

theorem tcp_forged_ack_hangs_witness:
  "cb_receive sample_env ((sample_header 1000)\<lparr>tcp_ack_num := 7000 + 2 ^ 31\<rparr>) [] sample_cb = None"
  by (rule tcp_forged_ack_hangs [where rto = 1000000000]) (simp_all add: rcv_eval)

text \<open>C33: A fast retransmit takes the segment off the retransmission queue and does not put it back: when the peer then acknowledges it, the
  receive routine loops forever.\<close>

theorem fast_retransmit_then_ack_hangs:
  assumes "unacked_queue (cb_sender cb) = [u]" "seq_lt (send_unacked (cb_sender cb)) (send_next (cb_sender cb))"
    and "retransmit_start (te_fl env) FastRetransmit cb = Ok (cb1, st)"
    and "retransmit_finish env u mac cb1 = Ok (cb2, st')"
    and "tcp_seq_num h = receive_next (cb_receiver cb)" "tcp_ack h" "\<not> tcp_rst h" "\<not> tcp_syn h" "\<not> tcp_fin h"
    and "tcp_ack_num h = send_next (cb_sender cb)"
  shows "cb_receive env h [] cb2 = None"
proof -
  have cb1: "cb1 = cb\<lparr>cb_sender := (cb_sender cb)\<lparr>unacked_queue := []\<rparr>\<rparr>" using retransmit_fast_pops [OF assms(3,1)] by simp
  from assms(4) obtain hd rto where hd: "cb_tcp_header cb1 = Ok hd" and rto: "rto_estimate (te_fl env) (cb_rto cb1) = Ok rto"
    by (auto simp: retransmit_finish_def res_bind_Ok_iff Let_def cb_emit_def split: if_splits)
  have cb2: "cb_sender cb2 = cb_sender cb1" "cb_rto cb2 = cb_rto cb1" "cb_receiver cb2 = cb_receiver cb1"
    using assms(4) hd rto by (auto simp: retransmit_finish_def Let_def cb_emit_def split: if_splits)
  show ?thesis
    by (rule bare_ack_diverges) (use cb1 cb2 rto assms in \<open>auto simp: seq_le_dist\<close>)
qed

definition sent_cb :: "(rat, unit) control_block" where
  "sent_cb = sample_cb\<lparr>cb_sender := (cb_sender sample_cb)\<lparr>unacked_queue := [\<lparr>us_bytes = [1, 2, 3], us_initial_tx = Some 5000000000\<rparr>],
     send_next := 7003, unsent_seq_no := 7003\<rparr>\<rparr>"

theorem fast_retransmit_then_ack_hangs_witness:
  "\<exists>cb1 cb2 st'. retransmit_start exact_flops FastRetransmit sent_cb = Ok (cb1, RtArp \<lparr>us_bytes = [1, 2, 3], us_initial_tx = Some 5000000000\<rparr>) \<and>
     retransmit_finish sample_env \<lparr>us_bytes = [1, 2, 3], us_initial_tx = Some 5000000000\<rparr> [2, 0, 0, 0, 0, 2] cb1 = Ok (cb2, st') \<and>
     cb_receive sample_env ((sample_header 1000)\<lparr>tcp_ack_num := 7003\<rparr>) [] cb2 = None"
proof -
  let ?u = "\<lparr>us_bytes = [1, 2, 3], us_initial_tx = Some 5000000000\<rparr>"
  obtain cb1 where cb1: "retransmit_start exact_flops FastRetransmit sent_cb = Ok (cb1, RtArp ?u)"
    by (simp add: retransmit_start_def pop_unacked_segment_def sent_cb_def)
  then obtain cb2 st' where cb2: "retransmit_finish sample_env ?u [2, 0, 0, 0, 0, 2] cb1 = Ok (cb2, st')"
    by (auto simp: retransmit_start_def pop_unacked_segment_def sent_cb_def retransmit_finish_def rcv_eval)
  have "cb_receive sample_env ((sample_header 1000)\<lparr>tcp_ack_num := 7003\<rparr>) [] cb2 = None"
    by (rule fast_retransmit_then_ack_hangs [OF _ _ _ cb2, where cb = sent_cb])
      (use cb1 in \<open>simp_all add: sent_cb_def rcv_eval\<close>)
  with cb1 cb2 show ?thesis by blast
qed




lemma bg_sender_probe_leaves:
  assumes "buffer_ops E" "te_ext env = E" "unsent_queue (cb_sender cb) = [b] # q" "bg_sender_probe env nxt mac cb = Ok (cb', st)"
  shows "unsent_queue (cb_sender cb') = [] # q \<and> cb_state cb' = cb_state cb"
  using assms(3,4) bg_sender_probe_state [OF assms(4)] buffer_ops.adjust_drop [OF assms(1), of 1 "[b]"]
  by (auto simp: bg_sender_probe_def pop_one_unsent_byte_def Let_def res_bind_Ok_iff push_unacked_segment_def assms(2))

text \<open>A window probe takes one byte off the first buffer of the unsent queue and leaves the buffer there, even when it is empty then.  The next buffer
  the background sender takes is that empty one, which it mistakes for the end-of-send marker: it sends a FIN although the application
  has not closed and data follows.\<close>

lemma window_probe_sends_fin:
  assumes "buffer_ops E" "te_ext env = E" "unsent_queue (cb_sender cb) = [b] # q" "cb_state cb = Established"
    and "bg_sender_probe env nxt mac cb = Ok (cb1, st1)"
    and "bg_sender_send env nxt' w sent eff mac (cb1\<lparr>cb_sender := (cb_sender cb1)\<lparr>send_window := w\<rparr>\<rparr>) = Ok (cb2, st2)"
  shows "tcp_fin (ts_tcp_hdr (last (cb_tx cb2))) \<and> cb_state cb2 = FinWait1 \<and> unsent_queue (cb_sender cb2) = q"
proof -
  have q: "unsent_queue (cb_sender cb1) = [] # q" "cb_state cb1 = Established"
    using bg_sender_probe_leaves [OF assms(1-3,5)] assms(4) by auto
  let ?cb = "cb1\<lparr>cb_sender := (cb_sender cb1)\<lparr>send_window := w\<rparr>\<rparr>"
  have pop: "pop_unsent E m (cb_sender ?cb) = ((cb_sender ?cb)\<lparr>unsent_queue := q\<rparr>, Some [])" for m
    using q by (simp add: pop_unsent_def)
  from assms(2,6) pop obtain rto h where "rto_estimate (te_fl env) (cb_rto ?cb) = Ok rto"
    "cb_tcp_header (?cb\<lparr>cb_sender := (cb_sender ?cb)\<lparr>unsent_queue := q\<rparr>, cb_cc := cc_on_send (te_cc env) (te_inow env) rto sent (cb_cc ?cb)\<rparr>) = Ok h"
    unfolding bg_sender_send_def Let_def by (auto simp: res_bind_Ok_iff)
  with assms(2,6) pop q(2) show ?thesis unfolding bg_sender_send_def Let_def
    by (auto simp: cb_emit_def push_unacked_segment_def state_after_fin_def Let_def split: if_split_asm)
qed

text \<open>A new out-of-order segment that overlaps the front of the first stored one is put at the end of the store, behind every other segment: the
  store, from whose front alone data is recovered, is no longer sorted.\<close>

lemma ooo_front_overlap_unsorted:
  assumes "seq_lt new_start stored_start" "\<not> seq_lt new_end stored_start"
    and "\<not> seq_lt (seq_add stored_start (of_nat (length stored) - 1)) new_end" "length q < 15"
  shows "store_out_of_order_segment E new_start new_end buf ((stored_start, stored) # q) =
    (stored_start, stored) # q @ [(new_start, buf_trim E buf (unat (seq_sub new_end stored_start + 1)))]"
  using assms by (simp add: store_out_of_order_segment.simps MAX_OUT_OF_ORDER_def Let_def)



section \<open>States\<close>



section \<open>Timeouts and congestion control\<close>

text \<open>C27: However samples and failures follow one another, the retransmission timeout is between its bounds of 0.1 and 60 seconds after each of them, for
  any arithmetic whose comparison orders the two bounds.\<close>

theorem rto_within_bounds:
  assumes "float_bounds F" "rto_add_sample F rtt c = Ok c' \<or> rto_record_failure F c = Ok c'"
  shows "rto_in_bounds F c'"
  using assms float_bounds.add_sample_bounds float_bounds.record_failure_bounds by blast

theorem rto_within_bounds_witness:
  "\<exists>c'. rto_record_failure exact_flops ((rto_new exact_flops)\<lparr>rc_rto := 50\<rparr>) = Ok c' \<and> rc_rto c' = 60 \<and> rto_in_bounds exact_flops c'"
proof -
  obtain c' where c': "rto_record_failure exact_flops ((rto_new exact_flops)\<lparr>rc_rto := 50\<rparr>) = Ok c'" "rc_rto c' = 60"
    by (simp add: rto_record_failure_def update_rto_def rto_new_def exact_flops_def rat_cmp_def LBOUND_SEC_def UBOUND_SEC_def Let_def)
  with rto_within_bounds [OF float_bounds_exact, of 0 "(rto_new exact_flops)\<lparr>rc_rto := 50\<rparr>" c'] show ?thesis by blast
qed

text \<open>With exact arithmetic, the first round-trip sample \<open>R\<close> sets the timeout to 1.5 \<open>R\<close> (clamped), where RFC 6298 has 3 \<open>R\<close>: the code adds the variance
  once and not four times.\<close>

lemma rto_first_sample:
  assumes "R = of_nat rtt / 1000000000" "1 / 10 \<le> 3 / 2 * R" "3 / 2 * R \<le> 60"
  shows "\<exists>c. rto_add_sample exact_flops rtt (rto_new exact_flops) = Ok c \<and> rc_srtt c = R \<and> rc_rttvar c = R / 2 \<and> rc_rto c = 3 / 2 * R"
  using assms by (simp add: rto_add_sample_def rto_new_def exact_flops_def rat_cmp_def update_rto_def LBOUND_SEC_def UBOUND_SEC_def
      GRANULARITY_def Let_def)

text \<open>C28: Cubic keeps its slow start threshold at two segments or more through every sequence of notifications, whatever the floating point
  operations return.\<close>

theorem cubic_ssthresh_bound:
  assumes "cubic_new t mss s options = Ok c" "mss < 2 ^ 31"
  shows "2 * of_nat mss \<le> cu_ssthresh (fold (cc_notify (cubic_ops F)) es c) \<and> cu_mss (fold (cc_notify (cubic_ops F)) es c) = of_nat mss"
  using cubic_cc.notify_all_ok [OF cubic_new_ok(1) [OF assms], of F es] by (simp add: cubic_ok_def)

definition sample_cubic :: cubic where
  "sample_cubic = (case cubic_new 0 1000 7000 (None :: rat cc_options option) of Ok c \<Rightarrow> c)"

lemma sample_cubic_new: "cubic_new 0 1000 7000 (None :: rat cc_options option) = Ok sample_cubic"
  by (simp add: sample_cubic_def cubic_new_def bool_option.get_default Let_def)

theorem cubic_ssthresh_bound_witness:
  "2000 \<le> cu_ssthresh (fold (cc_notify (cubic_ops exact_flops)) [RtoFired 7000, RtoFired 7000] sample_cubic)"
  using cubic_ssthresh_bound [OF sample_cubic_new, of exact_flops "[RtoFired 7000, RtoFired 7000]"] by simp

text \<open>The limited transmit algorithm may raise the congestion window by four segments, not two as the comments in the senders say: the increase is not
  reset by a new acknowledgement.\<close>

lemma limited_transmit_four_segments:
  "cu_limited_transmit_cwnd_increase (fold (cc_notify (cubic_ops exact_flops))
     [AckReceived 1 1 7000 9000 7000, AckReceived 2 1 7000 9000 7000, AckReceived 3 1 7000 9000 8000,
      AckReceived 4 1 8000 9000 8000, AckReceived 5 1 8000 9000 8000] sample_cubic) = 4 * cu_mss sample_cubic"
  by (simp add: sample_cubic_def cubic_new_def bool_option.get_default Let_def cubic_ops_def cubic_on_ack_received_def cubic_on_dup_ack_received_def
      cubic_increment_dup_ack_count_def DUP_ACK_THRESHOLD_def seq_sub_def cubic_on_ack_received_ss_ca_def)

end
