(* ===== verification/Tcp_Send_Spec.thy ===== *)
theory Tcp_Send_Spec
  imports Tcp_Sender
begin

text \<open>
  What a connection promises the application that sends: a stream of bytes of which a prefix is acknowledged and a longer
  prefix has been sent.  The detailed sender, with its two queues, its sequence numbers and the log of its segments, refines it.
\<close>

section \<open>Forward simulation\<close>

locale forward_simulation =
  fixes cstep :: "'c \<Rightarrow> 'c \<Rightarrow> bool" and astep :: "'a \<Rightarrow> 'a \<Rightarrow> bool" and abs :: "'c \<Rightarrow> 'a" and inv :: "'c \<Rightarrow> bool"
  assumes keeps: "cstep c c' \<Longrightarrow> inv c \<Longrightarrow> inv c'"
    and simulates: "cstep c c' \<Longrightarrow> inv c \<Longrightarrow> astep\<^sup>=\<^sup>= (abs c) (abs c')"
begin

lemma run_simulates: "cstep\<^sup>*\<^sup>* c c' \<Longrightarrow> inv c \<Longrightarrow> inv c' \<and> astep\<^sup>*\<^sup>* (abs c) (abs c')"
proof (induction rule: rtranclp_induct)
  case (step c' c'')
  then have "inv c'" "astep\<^sup>*\<^sup>* (abs c) (abs c')" by simp_all
  with keeps [OF step.hyps(2)] simulates [OF step.hyps(2)] show ?case by (auto intro: rtranclp.rtrancl_into_rtrancl)
qed simp

end

section \<open>The stream\<close>

record send_stream =
  ss_stream :: bytes
  ss_sent :: nat
  ss_acked :: nat

inductive stream_step :: "send_stream \<Rightarrow> send_stream \<Rightarrow> bool" where
  submit: "stream_step s (s\<lparr>ss_stream := ss_stream s @ buf\<rparr>)"
| submit_sent: "ss_sent s = length (ss_stream s) \<Longrightarrow>
    stream_step s (s\<lparr>ss_stream := ss_stream s @ buf, ss_sent := ss_sent s + length buf\<rparr>)"
| transmit: "ss_sent s + n \<le> length (ss_stream s) \<Longrightarrow> stream_step s (s\<lparr>ss_sent := ss_sent s + n\<rparr>)"
| acknowledge: "ss_acked s + n \<le> ss_sent s \<Longrightarrow> stream_step s (s\<lparr>ss_acked := ss_acked s + n\<rparr>)"

definition stream_ok :: "send_stream \<Rightarrow> bool" where
  "stream_ok s \<longleftrightarrow> ss_acked s \<le> ss_sent s \<and> ss_sent s \<le> length (ss_stream s)"

lemma stream_run_ok:
  "stream_step\<^sup>*\<^sup>* s s' \<Longrightarrow> stream_ok s \<Longrightarrow>
     stream_ok s' \<and> ss_acked s \<le> ss_acked s' \<and> ss_sent s \<le> ss_sent s' \<and> (\<exists>x. ss_stream s' = ss_stream s @ x)"
proof (induction rule: rtranclp_induct)
  case (step s' s'')
  from step.hyps(2) step.IH [OF step.prems] show ?case
    by (cases rule: stream_step.cases) (auto simp: stream_ok_def)
qed simp

section \<open>The wire\<close>

definition wire :: "('f, 'cc) control_block \<Rightarrow> bytes" where
  "wire cb = concat (map ts_data (cb_tx cb))"

text \<open>Every segment with data has the sequence number of the place of its data in the stream.\<close>

fun in_place :: "seq_number \<Rightarrow> nat \<Rightarrow> tcp_segment list \<Rightarrow> bool" where
  "in_place s n [] \<longleftrightarrow> True"
| "in_place s n (x # xs) \<longleftrightarrow> (ts_data x \<noteq> [] \<longrightarrow> tcp_seq_num (ts_tcp_hdr x) = seq_at s n) \<and> in_place s (n + length (ts_data x)) xs"

lemma in_place_append: "in_place s n (xs @ ys) \<longleftrightarrow> in_place s n xs \<and> in_place s (n + length (concat (map ts_data xs))) ys"
  by (induction xs arbitrary: n) (simp_all add: add.assoc)

definition send_abs :: "('f, 'cc) control_block \<Rightarrow> send_stream" where
  "send_abs cb = \<lparr>ss_stream = wire cb @ concat (unsent_queue (cb_sender cb)), ss_sent = length (wire cb),
     ss_acked = length (wire cb) - length (unacked_bytes (unacked_queue (cb_sender cb)))\<rparr>"

text \<open>\<open>w\<close> is what has been acknowledged; an acknowledged FIN takes one number more.\<close>

definition acked_part :: "seq_number \<Rightarrow> bytes \<Rightarrow> ('f, 'cc) control_block \<Rightarrow> bool" where
  "acked_part s0 w cb \<longleftrightarrow> wire cb = w @ unacked_bytes (unacked_queue (cb_sender cb)) \<and>
     (send_unacked (cb_sender cb) = seq_at s0 (length w) \<or>
      send_unacked (cb_sender cb) = seq_at s0 (Suc (length w)) \<and> unacked_queue (cb_sender cb) = [] \<and> unsent_queue (cb_sender cb) = [] \<and>
        cb_user_is_done_sending cb)"

definition wire_inv :: "seq_number \<Rightarrow> ('f, 'cc) control_block \<Rightarrow> bool" where
  "wire_inv s0 cb \<longleftrightarrow> cb_snd_inv cb \<and> (\<exists>w. acked_part s0 w cb) \<and> in_place s0 0 (cb_tx cb)"

section \<open>Segments without data\<close>

definition adds_acks :: "('f, 'cc) control_block \<Rightarrow> ('f, 'cc) control_block \<Rightarrow> bool" where
  "adds_acks cb cb' \<longleftrightarrow> (\<exists>acks. cb_tx cb' = cb_tx cb @ acks \<and> (\<forall>x \<in> set acks. ts_data x = []))"

lemma adds_acks_same [intro]: "cb_tx cb' = cb_tx cb \<Longrightarrow> adds_acks cb cb'"
  by (simp add: adds_acks_def)

lemma adds_acks_trans: "adds_acks cb cb' \<Longrightarrow> adds_acks cb' cb'' \<Longrightarrow> adds_acks cb cb''"
  by (force simp: adds_acks_def)

lemma cb_send_ack_adds: "cb_send_ack env cb = Ok cb' \<Longrightarrow> adds_acks cb cb'"
  by (auto simp: cb_send_ack_def cb_emit_def adds_acks_def Let_def res_bind_Ok_iff split: option.splits if_splits)

lemma acknowledger_timer_adds: "acknowledger_timer env cb = Ok cb' \<Longrightarrow> adds_acks cb cb'"
  by (auto simp: acknowledger_timer_def dest: cb_send_ack_adds split: option.splits if_splits)

lemma adds_acks_cong: "adds_acks cb1 cb' \<Longrightarrow> cb_tx cb1 = cb_tx cb \<Longrightarrow> adds_acks cb cb'"
  by (simp add: adds_acks_def)

lemma receive_data_tx: "receive_data d cb = (cb', f) \<Longrightarrow> cb_tx cb' = cb_tx cb"
  by (auto simp: receive_data_def Let_def split: prod.splits)

lemma cb_receive_in_order_adds: "cb_receive_in_order env h d cb = Ok cb' \<Longrightarrow> adds_acks cb cb'"
  by (auto simp: cb_receive_in_order_def Let_def res_bind_Ok_iff split: if_splits prod.splits
      dest!: cb_send_ack_adds receive_data_tx elim!: adds_acks_cong)

lemma cb_receive_out_of_order_adds: "cb_receive_out_of_order env h d ss se sl cb = Ok cb' \<Longrightarrow> adds_acks cb cb'"
  by (auto simp: cb_receive_out_of_order_def Let_def split: if_splits dest!: cb_send_ack_adds elim!: adds_acks_cong)


section \<open>Acknowledgements\<close>

text \<open>\<open>n\<close> outstanding numbers have been taken off the retransmission queue.\<close>

definition acked_by :: "nat \<Rightarrow> sender \<Rightarrow> sender \<Rightarrow> bool" where
  "acked_by n s s' \<longleftrightarrow> n \<le> unacked_weight (unacked_queue s) \<and> send_unacked s' = seq_at (send_unacked s) n \<and>
     unacked_bytes (unacked_queue s') = drop n (unacked_bytes (unacked_queue s)) \<and>
     unacked_weight (unacked_queue s') = unacked_weight (unacked_queue s) - n \<and> unsent_queue s' = unsent_queue s"

lemma acked_by_none [simp]: "acked_by 0 s s"
  by (simp add: acked_by_def seq_at_def)

lemma cb_receive_in_order_snd: "cb_receive_in_order env h d cb = Ok cb' \<Longrightarrow> snd_view cb' = snd_view cb"
  by (auto simp: cb_receive_in_order_def receive_data_def Let_def res_bind_Ok_iff split: if_splits prod.splits dest!: cb_send_ack_snd)
    (simp_all add: snd_view_def)

lemma cb_receive_out_of_order_snd: "cb_receive_out_of_order env h d ss se sl cb = Ok cb' \<Longrightarrow> snd_view cb' = snd_view cb"
  by (auto simp: cb_receive_out_of_order_def Let_def split: if_splits dest!: cb_send_ack_snd) (simp_all add: snd_view_def)

context buffer_ops
begin

lemma cb_process_ack_acks:
  assumes s: "snd_inv (cb_sender cb)" and env: "te_ext env = E"
    and half: "unacked_queue (cb_sender cb) = [] \<Longrightarrow> tcp_ack_num h \<noteq> send_unacked (cb_sender cb) + 2 ^ 31"
    and ack: "cb_process_ack env h cb = Some (Ok (cb', g))"
  shows "adds_acks cb cb' \<and> (\<exists>n. acked_by n (cb_sender cb) (cb_sender cb'))"
proof (cases "seq_lt (send_unacked (cb_sender cb)) (tcp_ack_num h) \<and> seq_le (tcp_ack_num h) (send_next (cb_sender cb))")
  case False
  with ack consider c where "cb' = cb\<lparr>cb_cc := c\<rparr>" | c where "cb_send_ack env (cb\<lparr>cb_cc := c\<rparr>) = Ok cb'"
    by (auto simp: cb_process_ack_def Let_def res_bind_Ok_iff split: res.splits if_splits)
  then show ?thesis
  proof cases
    case (2 c)
    have "cb_sender cb' = cb_sender cb" using cb_send_ack_snd [OF 2] by (simp add: snd_view_def)
    moreover have "adds_acks cb cb'" using cb_send_ack_adds [OF 2] by (rule adds_acks_cong) simp
    ultimately show ?thesis using acked_by_none by metis
  qed (use acked_by_none in \<open>auto intro: exI [of _ 0]\<close>)
next
  case True
  let ?q = "unacked_queue (cb_sender cb)"
  obtain n where n: "tcp_ack_num h = seq_at (send_unacked (cb_sender cb)) n" "unat (seq_sub (tcp_ack_num h) (send_unacked (cb_sender cb))) = n"
    "n \<le> unacked_weight ?q" using snd_inv_ack_offset [OF s _ _ half] True by blast
  have "fin_last ?q" using s by (simp add: snd_inv_def)
  from remove_acked_removes [OF this n(3)] obtain r where
    r: "remove_acked E (te_fl env) (te_now env) n ?q (cb_rto cb) = Some r"
      "\<And>q c. r = Ok (q, c) \<Longrightarrow> unacked_weight q = unacked_weight ?q - n \<and> unacked_bytes q = drop n (unacked_bytes ?q)" by blast
  obtain rto where rto: "rto_estimate (te_fl env) (cb_rto cb) = Ok rto"
    using ack by (cases "rto_estimate (te_fl env) (cb_rto cb)") (simp_all add: cb_process_ack_def Let_def)
  then obtain q c where q: "r = Ok (q, c)" using True ack r(1) n(2) env by (cases r) (auto simp: cb_process_ack_def Let_def)
  with rto True ack r(1) n(2) env have s': "cb_sender cb' = update_send_window h ((cb_sender cb)\<lparr>unacked_queue := q, send_unacked := tcp_ack_num h\<rparr>)"
    "cb_tx cb' = cb_tx cb"
    by (auto simp: cb_process_ack_def Let_def res_bind_Ok_iff split: if_splits)
  with r(2) [OF q] n have "acked_by n (cb_sender cb) (cb_sender cb')" by (simp add: acked_by_def)
  with s'(2) show ?thesis by blast
qed

lemma cb_receive_acks:
  assumes s: "snd_inv (cb_sender cb)" and env: "te_ext env = E"
    and half: "unacked_queue (cb_sender cb) = [] \<longrightarrow> tcp_ack_num h \<noteq> send_unacked (cb_sender cb) + 2 ^ 31"
    and rcv: "cb_receive env h d cb = Some (Ok cb')"
  shows "adds_acks cb cb' \<and> (\<exists>n. acked_by n (cb_sender cb) (cb_sender cb'))"
proof (cases "cb_accept (te_ext env) h d cb")
  case Unacceptable
  with rcv have "cb' = cb \<or> cb_send_ack env cb = Ok cb'" by (auto simp: cb_receive_def split: if_splits)
  then show ?thesis using cb_send_ack_adds cb_send_ack_snd acked_by_none by (metis adds_acks_same snd_view_def prod.inject)
next
  case (Acceptable h1 d1 ss se sl)
  have half1: "unacked_queue (cb_sender cb) = [] \<Longrightarrow> tcp_ack_num h1 \<noteq> send_unacked (cb_sender cb) + 2 ^ 31"
    using half cb_accept_ack_num [OF Acceptable] by simp
  show ?thesis
  proof (cases "tcp_rst h1 \<or> tcp_syn h1 \<or> \<not> tcp_ack h1")
    case True
    with rcv Acceptable have "cb_sender cb' = cb_sender cb" "cb_tx cb' = cb_tx cb" by (auto simp: cb_receive_def split: if_splits)
    then show ?thesis using acked_by_none by (metis adds_acks_same)
  next
    case False
    with rcv Acceptable obtain cb1 g where p: "cb_process_ack env h1 cb = Some (Ok (cb1, g))"
      and rest: "cb' = cb1 \<or> cb_receive_out_of_order env h1 d1 ss se sl cb1 = Ok cb' \<or> cb_receive_in_order env h1 d1 cb1 = Ok cb'"
      by (auto simp: cb_receive_def Let_def split: option.splits res.splits if_splits)
    have "snd_view cb' = snd_view cb1" "adds_acks cb1 cb'"
      using rest by (auto dest: cb_receive_out_of_order_snd cb_receive_in_order_snd cb_receive_out_of_order_adds cb_receive_in_order_adds)
    with cb_process_ack_acks [OF s env half1 p] show ?thesis by (metis adds_acks_trans snd_view_def prod.inject)
  qed
qed

text \<open>The numbers on the queue are the bytes and, behind them, the FIN.\<close>

end

lemma weight_bytes:
  "fin_last q \<Longrightarrow> unacked_weight q = length (unacked_bytes q) + (if \<exists>u \<in> set q. us_bytes u = [] then 1 else 0)"
  by (induction q) (auto simp: fin_last_Cons us_weight_def)

lemma weight_0: "unacked_weight q = 0 \<longleftrightarrow> q = []"
  by (cases q) (auto simp: us_weight_def)

lemma adds_acks_wire: "adds_acks cb cb' \<Longrightarrow> wire cb' = wire cb \<and> (in_place s0 0 (cb_tx cb) \<longrightarrow> in_place s0 0 (cb_tx cb'))"
proof -
  have "in_place s n acks \<and> concat (map ts_data acks) = []" if "\<forall>x \<in> set acks. ts_data x = []" for s n acks using that by (induction acks) simp_all
  then show "adds_acks cb cb' \<Longrightarrow> wire cb' = wire cb \<and> (in_place s0 0 (cb_tx cb) \<longrightarrow> in_place s0 0 (cb_tx cb'))"
    by (auto simp: adds_acks_def wire_def in_place_append)
qed

lemma acked_part_acked:
  assumes inv: "cb_snd_inv cb" and w: "acked_part s0 w cb" and acks: "adds_acks cb cb'" "acked_by n (cb_sender cb) (cb_sender cb')"
    and flag: "cb_user_is_done_sending cb' = cb_user_is_done_sending cb"
  shows "acked_part s0 (w @ take n (unacked_bytes (unacked_queue (cb_sender cb)))) cb' \<and> stream_step (send_abs cb) (send_abs cb')"
proof -
  let ?q = "unacked_queue (cb_sender cb)"
  let ?u = "unacked_bytes ?q"
  have wire: "wire cb' = wire cb" using adds_acks_wire [OF acks(1)] by blast
  have q: "unacked_weight ?q = length ?u + (if \<exists>u \<in> set ?q. us_bytes u = [] then 1 else 0)"
    using inv by (intro weight_bytes) (simp add: cb_snd_inv_def snd_inv_def)
  note a = acks(2) [unfolded acked_by_def]
  have fin: "unacked_queue (cb_sender cb') = [] \<and> unsent_queue (cb_sender cb') = [] \<and> cb_user_is_done_sending cb'" if "length ?u < n"
  proof -
    have "\<exists>u \<in> set ?q. us_bytes u = []" "unacked_weight (unacked_queue (cb_sender cb')) = 0" using that a q by (auto split: if_splits)
    then show ?thesis using inv flag a by (auto simp: weight_0 cb_snd_inv_def snd_inv_def no_fin_def)
  qed
  have n: "n \<le> Suc (length ?u)" using a q by (auto split: if_splits)
  have none: "n = 0" if "?q = []" using a that by simp
  have "acked_part s0 (w @ take n ?u) cb'"
  proof (cases "length ?u < n")
    case True
    then have "n = Suc (length ?u)" using n by simp
    moreover have "send_unacked (cb_sender cb) = seq_at s0 (length w)" using w none True by (auto simp: acked_part_def)
    ultimately have "send_unacked (cb_sender cb') = seq_at s0 (Suc (length w + length ?u))" using a by (simp only: seq_at_seq_at add_Suc_right)
    with w fin [OF True] wire True show ?thesis by (simp add: acked_part_def)
  next
    case False
    with w a wire none show ?thesis by (auto simp: acked_part_def seq_at_seq_at flag weight_0)
  qed
  moreover have "stream_step (send_abs cb) (send_abs cb')"
  proof -
    have "length (wire cb) = length w + length ?u" using w by (simp add: acked_part_def)
    then have "send_abs cb' = (send_abs cb)\<lparr>ss_acked := ss_acked (send_abs cb) + min n (length ?u)\<rparr>"
      using wire a by (simp add: send_abs_def min_def)
    moreover have "ss_acked (send_abs cb) + min n (length ?u) \<le> ss_sent (send_abs cb)"
      using \<open>length (wire cb) = length w + length ?u\<close> by (simp add: send_abs_def)
    ultimately show ?thesis by (metis acknowledge)
  qed
  ultimately show ?thesis by blast
qed


section \<open>Sending\<close>

text \<open>A segment at the end of the data sent so far, with \<open>data\<close> on it.\<close>

definition emits :: "('f, 'cc) control_block \<Rightarrow> ('f, 'cc) control_block \<Rightarrow> bytes \<Rightarrow> bool" where
  "emits cb cb' data \<longleftrightarrow> (\<exists>x. cb_tx cb' = cb_tx cb @ [x] \<and> ts_data x = data \<and> tcp_seq_num (ts_tcp_hdr x) = send_next (cb_sender cb))"

lemma cb_emit_tx: "\<exists>x. cb_tx (cb_emit env h d mac cb) = cb_tx cb @ [x] \<and> ts_data x = d \<and> ts_tcp_hdr x = h"
  by (simp add: cb_emit_def Let_def)

lemma cb_emit_emits:
  assumes "cb_tx cb' = cb_tx (cb_emit env h d mac cb1)" "tcp_seq_num h = send_next (cb_sender cb)" "cb_tx cb1 = cb_tx cb"
  shows "emits cb cb' d"
  using cb_emit_tx [of env h d mac cb1] assms by (auto simp: emits_def)

lemma send_immediate_emits:
  assumes "send_immediate env buf mac n cb = Ok cb'"
  shows "emits cb cb' buf"
proof -
  from assms obtain rto h where "rto_estimate (te_fl env) (cb_rto cb) = Ok rto"
    and h: "cb_tcp_header (cb\<lparr>cb_cc := cc_on_send (te_cc env) (te_inow env) rto n (cb_cc cb)\<rparr>) = Ok h"
    by (auto simp: send_immediate_def Let_def res_bind_Ok_iff)
  with assms have "cb_tx cb' = cb_tx (cb_emit env (if (of_nat (length buf) :: u32) = 0 then h\<lparr>tcp_seq_num := send_next (cb_sender cb), tcp_fin := True\<rparr>
      else h\<lparr>tcp_seq_num := send_next (cb_sender cb)\<rparr>) buf mac (cb\<lparr>cb_cc := cc_on_send (te_cc env) (te_inow env) rto n (cb_cc cb)\<rparr>))"
    by (auto simp: send_immediate_def Let_def split: if_splits)
  then show ?thesis by (rule cb_emit_emits) simp_all
qed

lemma cb_send_cases:
  assumes "cb_send env buf cb = Ok (cb', r)" "length buf < 2 ^ 31"
  obtains (refused) "cb_sender cb' = cb_sender cb" "cb_tx cb' = cb_tx cb"
  | (queued) "cb_tx cb' = cb_tx cb" "cb_sender cb' = (cb_sender cb)\<lparr>unsent_queue := unsent_queue (cb_sender cb) @ [buf],
        unsent_seq_no := seq_add (unsent_seq_no (cb_sender cb)) (of_nat (length buf))\<rparr>" "\<not> cb_user_is_done_sending cb"
  | (sent) u where "emits cb cb' buf" "unsent_queue (cb_sender cb) = []" "unsent_queue (cb_sender cb') = []" "us_bytes u = buf"
      "unacked_queue (cb_sender cb') = unacked_queue (cb_sender cb) @ [u]" "send_unacked (cb_sender cb') = send_unacked (cb_sender cb)"
      "\<not> cb_user_is_done_sending cb"
proof (cases "cb_user_is_done_sending cb \<or> length buf \<ge> 2 ^ 32")
  case True
  with assms have "cb' = cb" by (auto simp: cb_send_def)
  then show ?thesis using refused by simp
next
  case False
  with assms consider c where "send_queued buf (cb\<lparr>cb_cc := c\<rparr>) = (cb', r)" | mac n c where "send_immediate env buf mac n (cb\<lparr>cb_cc := c\<rparr>) = Ok cb'" "unsent_queue (cb_sender cb) = []"
    by (auto simp: cb_send_def Let_def res_bind_Ok_iff split: if_splits option.splits)
      (metis control_block.surjective control_block.update_convs(14))+
  then show ?thesis
  proof cases
    case (1 c)
    then show ?thesis using refused queued False by (auto simp: send_queued_def Let_def split: if_splits)
  next
    case (2 mac n c)
    have "emits cb cb' buf" using send_immediate_emits [OF 2(1)] by (simp add: emits_def)
    with send_immediate_sender [OF 2(1) assms(2)] 2(2) False show ?thesis
      by (intro sent [of "\<lparr>us_bytes = buf, us_initial_tx = Some (te_now env)\<rparr>"]) (simp_all add: push_unacked_segment_def)
  qed
qed


lemma bg_sender_send_emits:
  assumes "bg_sender_send env (send_next (cb_sender cb)) w sent eff mac cb = Ok (cb', st)"
    and "pop_unsent (te_ext env) (min (min (unat (w - sent)) (snd_mss (cb_sender cb))) (unat (eff - sent))) (cb_sender cb) = (s, Some b)"
  shows "emits cb cb' b"
proof -
  from assms obtain rto h where rto: "rto_estimate (te_fl env) (cb_rto cb) = Ok rto"
    and h: "cb_tcp_header (cb\<lparr>cb_sender := s, cb_cc := cc_on_send (te_cc env) (te_inow env) rto sent (cb_cc cb)\<rparr>) = Ok h"
    unfolding bg_sender_send_def Let_def by (auto simp: res_bind_Ok_iff simp del: word_of_nat_eq_0_iff)
  with assms have "cb_tx cb' = cb_tx (cb_emit env (if (of_nat (length b) :: u32) = 0 then h\<lparr>tcp_seq_num := send_next (cb_sender cb), tcp_fin := True\<rparr>
      else h\<lparr>tcp_seq_num := send_next (cb_sender cb)\<rparr>) b mac (cb\<lparr>cb_sender := s, cb_cc := cc_on_send (te_cc env) (te_inow env) rto sent (cb_cc cb)\<rparr>))"
    unfolding bg_sender_send_def Let_def by (auto split: if_splits)
  then show ?thesis by (rule cb_emit_emits) simp_all
qed

lemma bg_sender_top_keeps: "bg_sender_top env cb = Ok (cb', st) \<Longrightarrow> cb_sender cb' = cb_sender cb \<and> cb_tx cb' = cb_tx cb \<and> cb_user_is_done_sending cb' = cb_user_is_done_sending cb"
  by (auto simp: bg_sender_top_def Let_def split: if_splits option.splits)

context buffer_ops
begin

lemma bg_sender_iter_cases:
  assumes inv: "snd_inv (cb_sender cb)" and env: "te_ext env = E" and win: "send_window (cb_sender cb) \<noteq> 0"
    and iter: "bg_sender_iter env cb = Ok (cb', st)"
  obtains (idle) "cb_sender cb' = cb_sender cb" "cb_tx cb' = cb_tx cb" "cb_user_is_done_sending cb' = cb_user_is_done_sending cb"
  | (sent) u where "emits cb cb' (us_bytes u)" "unsent_queue (cb_sender cb) \<noteq> []" "us_bytes u @ concat (unsent_queue (cb_sender cb')) = concat (unsent_queue (cb_sender cb))"
      "unacked_queue (cb_sender cb') = unacked_queue (cb_sender cb) @ [u]" "\<forall>u \<in> set (unacked_queue (cb_sender cb)). us_bytes u \<noteq> []"
      "send_unacked (cb_sender cb') = send_unacked (cb_sender cb)" "cb_user_is_done_sending cb' = cb_user_is_done_sending cb"
proof -
  from iter obtain cb1 st1 where top: "bg_sender_top env cb = Ok (cb1, st1)"
    by (auto simp: bg_sender_iter_def res_bind_Ok_iff)
  have np: "st1 \<noteq> BsProbeArp n" "st1 \<noteq> BsProbing n b m t" for n b m t
    using top win by (auto simp: bg_sender_top_def Let_def split: if_splits option.splits)
  note keep = bg_sender_top_keeps [OF top]
  from iter top np consider "cb' = cb1" | nxt w sent eff mac where "st1 = BsSendArp nxt w sent eff"
      "bg_sender_send env nxt w sent eff mac cb1 = Ok (cb', st)"
    by (cases st1) (auto simp: bg_sender_iter_def split: option.splits)
  then show thesis
  proof cases
    case 1
    with keep show thesis using idle by simp
  next
    case (2 nxt w sent' eff mac)
    have nxt: "nxt = send_next (cb_sender cb1)" using bg_sender_top_sends [OF inv top [unfolded 2(1)]] keep by simp
    obtain buf q b q' where
      q: "unsent_queue (cb_sender cb) = buf # q" "buf \<noteq> []" "\<forall>u \<in> set (unacked_queue (cb_sender cb)). us_bytes u \<noteq> []" "b @ concat q' = buf @ concat q"
        "b \<noteq> []" "length b \<le> length buf" "q' = q \<or> (\<exists>b'. b' \<noteq> [] \<and> length b' \<le> length buf \<and> q' = b' # q)"
        "pop_unsent E (min (min (unat (w - sent')) (snd_mss (cb_sender cb1))) (unat (eff - sent'))) (cb_sender cb1) = ((cb_sender cb)\<lparr>unsent_queue := q'\<rparr>, Some b)"
        "cb_sender cb' = push_unacked_segment \<lparr>us_bytes = b, us_initial_tx = Some (te_now env)\<rparr> ((cb_sender cb)\<lparr>unsent_queue := q',
          send_next := seq_add (send_next (cb_sender cb)) (of_nat (length b))\<rparr>)" "cb_user_is_done_sending cb' = cb_user_is_done_sending cb"
        "unacked_weight (unacked_queue (cb_sender cb)) + length b \<le> 2 ^ 30"
      by (rule bg_sender_send_effect [OF inv env top [unfolded 2(1)] 2(2)])
    have "emits cb1 cb' b" using bg_sender_send_emits [of env cb1 w sent' eff mac cb' st _ b] 2(2) q(8) env nxt by simp
    then have "emits cb cb' b" using keep by (simp add: emits_def)
    with q(1,3,4,9,10) show thesis by (intro sent [of "\<lparr>us_bytes = b, us_initial_tx = Some (te_now env)\<rparr>"]) (simp_all add: push_unacked_segment_def)
  qed
qed

end


section \<open>The refinement\<close>

lemma wire_emits: "emits cb cb' b \<Longrightarrow> wire cb' = wire cb @ b"
  by (auto simp: emits_def wire_def)

lemma send_next_in_stream:
  assumes "snd_inv (cb_sender cb)" "acked_part s0 w cb" "\<forall>u \<in> set (unacked_queue (cb_sender cb)). us_bytes u \<noteq> []"
    and "unsent_queue (cb_sender cb) \<noteq> [] \<or> \<not> cb_user_is_done_sending cb"
  shows "send_next (cb_sender cb) = seq_at s0 (length (wire cb))" "send_unacked (cb_sender cb) = seq_at s0 (length w)"
proof -
  show una: "send_unacked (cb_sender cb) = seq_at s0 (length w)" using assms(2,4) by (auto simp: acked_part_def)
  have "unacked_weight (unacked_queue (cb_sender cb)) = length (unacked_bytes (unacked_queue (cb_sender cb)))"
    using weight_bytes [of "unacked_queue (cb_sender cb)"] assms(1,3) by (auto simp: snd_inv_def)
  then show "send_next (cb_sender cb) = seq_at s0 (length (wire cb))"
    using assms(1,2) una by (simp add: snd_inv_def acked_part_def seq_at_seq_at)
qed

lemma emits_in_place:
  assumes inv: "wire_inv s0 cb" and e: "emits cb cb' (us_bytes u)"
    and q: "unacked_queue (cb_sender cb') = unacked_queue (cb_sender cb) @ [u]" "send_unacked (cb_sender cb') = send_unacked (cb_sender cb)"
    and nofin: "\<forall>u \<in> set (unacked_queue (cb_sender cb)). us_bytes u \<noteq> []" "unsent_queue (cb_sender cb) \<noteq> [] \<or> \<not> cb_user_is_done_sending cb"
  shows "(\<exists>w. acked_part s0 w cb') \<and> in_place s0 0 (cb_tx cb') \<and> ss_acked (send_abs cb') = ss_acked (send_abs cb)"
proof -
  from inv obtain w where w: "acked_part s0 w cb" and s: "snd_inv (cb_sender cb)" "in_place s0 0 (cb_tx cb)"
    by (auto simp: wire_inv_def cb_snd_inv_def)
  note n = send_next_in_stream [OF s(1) w nofin]
  have "acked_part s0 w cb'" using w n(2) wire_emits [OF e] q by (simp add: acked_part_def unacked_bytes_def)
  moreover have "in_place s0 0 (cb_tx cb')" using e s(2) n(1) by (auto simp: emits_def in_place_append wire_def)
  moreover have "ss_acked (send_abs cb') = ss_acked (send_abs cb)" using wire_emits [OF e] q(1) by (simp add: send_abs_def unacked_bytes_def)
  ultimately show ?thesis by blast
qed

text \<open>Queueing a buffer and sending one at once, as the calls \<^verbatim>\<open>send\<close> and \<^verbatim>\<open>close\<close> do.\<close>

lemma cb_send_refines:
  fixes cb cb' cb'' :: "('f, 'cc) control_block"
  assumes inv: "wire_inv s0 cb" and send: "cb_send env buf cb = Ok (cb', r)" "length buf < 2 ^ 31"
    and done': "cb_user_is_done_sending cb'' = (cb_user_is_done_sending cb \<or> extra)" "cb_sender cb'' = cb_sender cb'" "cb_tx cb'' = cb_tx cb'"
    and inv'': "cb_snd_inv cb''"
  shows "wire_inv s0 cb'' \<and> stream_step\<^sup>=\<^sup>= (send_abs cb) (send_abs cb'')"
proof -
  from inv obtain w where w: "acked_part s0 w cb" "in_place s0 0 (cb_tx cb)" "cb_snd_inv cb" by (auto simp: wire_inv_def)
  from send show ?thesis
  proof (cases rule: cb_send_cases)
    case refused
    then have "acked_part s0 w cb''" "send_abs cb'' = send_abs cb" using w(1) done' by (auto simp: acked_part_def send_abs_def wire_def)
    with refused w(2) inv'' done' show ?thesis by (auto simp: wire_inv_def)
  next
    case queued
    then have "acked_part s0 w cb''" using w(1) done' by (auto simp: acked_part_def wire_def)
    moreover have "send_abs cb'' = (send_abs cb)\<lparr>ss_stream := ss_stream (send_abs cb) @ buf\<rparr>"
      using queued done' by (simp add: send_abs_def wire_def)
    ultimately show ?thesis using queued(1) w(2) inv'' done' submit [of "send_abs cb" buf] by (auto simp: wire_inv_def)
  next
    case (sent u)
    have nofin: "\<forall>u \<in> set (unacked_queue (cb_sender cb)). us_bytes u \<noteq> []" using w(3) sent(7) by (simp add: cb_snd_inv_def no_fin_def)
    have e: "emits cb cb'' (us_bytes u)" using sent(1,4) done' by (simp add: emits_def)
    note p = emits_in_place [OF inv e _ _ nofin]
    have "(\<exists>w. acked_part s0 w cb'') \<and> in_place s0 0 (cb_tx cb'') \<and> ss_acked (send_abs cb'') = ss_acked (send_abs cb)"
      using p sent done' by simp
    moreover have "send_abs cb'' = (send_abs cb)\<lparr>ss_stream := ss_stream (send_abs cb) @ buf, ss_sent := ss_sent (send_abs cb) + length buf\<rparr>"
      using wire_emits [OF e] sent calculation done' by (simp add: send_abs_def)
    moreover have "ss_sent (send_abs cb) = length (ss_stream (send_abs cb))" using sent by (simp add: send_abs_def)
    ultimately show ?thesis using submit_sent [of "send_abs cb" buf] inv'' by (auto simp: wire_inv_def)
  qed
qed


lemma cb_close_sends:
  assumes "cb_close env cb = Ok (cb', r)" "\<not> cb_user_is_done_sending cb"
  obtains cb1 where "cb_send env [] cb = Ok (cb1, Ok ())" "cb' = cb1\<lparr>cb_user_is_done_sending := True\<rparr>"
proof -
  from assms obtain cb1 x where x: "cb_send env [] cb = Ok (cb1, x)" by (auto simp: cb_close_def res_bind_Ok_iff)
  with assms that show ?thesis by (cases x) (auto simp: cb_close_def)
qed

text \<open>A step that only acknowledges, and one that leaves the sender alone.\<close>

lemma acked_refines:
  assumes "wire_inv s0 cb" "adds_acks cb cb'" "acked_by n (cb_sender cb) (cb_sender cb')" "cb_user_is_done_sending cb' = cb_user_is_done_sending cb" "cb_snd_inv cb'"
  shows "wire_inv s0 cb' \<and> stream_step\<^sup>=\<^sup>= (send_abs cb) (send_abs cb')"
  using assms acked_part_acked [OF _ _ assms(2-4)] adds_acks_wire [OF assms(2), of s0] by (auto simp: wire_inv_def)

context buffer_ops
begin

lemma close_refines:
  assumes inv: "wire_inv s0 cb" "cb_snd_inv cb'" and close: "cb_close env cb = Ok (cb', r)"
  shows "wire_inv s0 cb' \<and> stream_step\<^sup>=\<^sup>= (send_abs cb) (send_abs cb')"
proof (cases "cb_user_is_done_sending cb")
  case True
  with close inv(1) show ?thesis by (simp add: cb_close_def)
next
  case False
  with close obtain cb1 where send: "cb_send env [] cb = Ok (cb1, Ok ())" "cb' = cb1\<lparr>cb_user_is_done_sending := True\<rparr>"
    by (rule cb_close_sends)
  show ?thesis using cb_send_refines [OF inv(1) send(1), of cb' True] send(2) inv(2) by simp
qed

lemma background_refines:
  assumes inv: "wire_inv s0 cb" "snd_inv (cb_sender cb)" "cb_snd_inv cb'"
    and bg: "te_ext env = E" "send_window (cb_sender cb) \<noteq> 0" "bg_sender_iter env cb = Ok (cb', st)"
  shows "wire_inv s0 cb' \<and> stream_step\<^sup>=\<^sup>= (send_abs cb) (send_abs cb')"
  using inv(2) bg
proof (cases rule: bg_sender_iter_cases)
  case idle
  then show ?thesis using acked_refines [OF inv(1), of cb' 0] inv(3) by (simp add: adds_acks_same)
next
  case (sent u)
  have p: "(\<exists>w. acked_part s0 w cb') \<and> in_place s0 0 (cb_tx cb') \<and> ss_acked (send_abs cb') = ss_acked (send_abs cb)"
    using emits_in_place [OF inv(1) sent(1,4,6,5)] sent(2) by blast
  have "send_abs cb' = (send_abs cb)\<lparr>ss_sent := ss_sent (send_abs cb) + length (us_bytes u)\<rparr>"
    using p wire_emits [OF sent(1)] sent(3) by (simp add: send_abs_def)
  moreover have "ss_sent (send_abs cb) + length (us_bytes u) \<le> length (ss_stream (send_abs cb))"
    using sent(3) by (simp add: send_abs_def flip: sent(3))
  ultimately show ?thesis using transmit [of "send_abs cb"] p inv(3) by (auto simp: wire_inv_def)
qed

lemma conn_step_refines:
  assumes step: "conn_step E cb cb'" and inv: "wire_inv s0 cb"
  shows "wire_inv s0 cb' \<and> stream_step\<^sup>=\<^sup>= (send_abs cb) (send_abs cb')"
proof -
  have i: "cb_snd_inv cb" "snd_inv (cb_sender cb)" "cb_snd_inv cb'"
    using inv conn_step_inv [OF step] by (auto simp: wire_inv_def cb_snd_inv_def)
  from step show ?thesis
  proof cases
    case (conn_send env buf r)
    have "cb_user_is_done_sending cb' = cb_user_is_done_sending cb" using cb_send_inv [OF i(1) conn_send(4,2)] by blast
    then show ?thesis using cb_send_refines [OF inv conn_send(2,4), of cb' False] i(3) by simp
  next
    case (conn_close env r)
    show ?thesis by (rule close_refines [OF inv i(3) conn_close(2)])
  next
    case (conn_receive env h d)
    obtain n where "adds_acks cb cb'" "acked_by n (cb_sender cb) (cb_sender cb')" using cb_receive_acks [OF i(2) conn_receive(1,3,2)] by blast
    moreover have "cb_user_is_done_sending cb' = cb_user_is_done_sending cb" using cb_receive_fixed [OF conn_receive(2)] by (simp add: cb_fixed_def)
    ultimately show ?thesis using acked_refines [OF inv] i(3) by blast
  next
    case (conn_read r)
    then have "cb_sender cb' = cb_sender cb" "cb_tx cb' = cb_tx cb" "cb_user_is_done_sending cb' = cb_user_is_done_sending cb"
      by (auto simp: cb_poll_recv_def Let_def split: if_splits prod.splits)
    then show ?thesis using acked_refines [OF inv, of cb' 0] i(3) by (simp add: adds_acks_same)
  next
    case (conn_background env st)
    show ?thesis by (rule background_refines [OF inv i(2,3) conn_background(1,3,2)])
  next
    case (conn_retransmit_timer env)
    then show ?thesis using acked_refines [OF inv, of cb' 0] i(3) by (simp add: adds_acks_same retransmitter_timer_def split: option.splits)
  next
    case (conn_ack_timer env)
    have "cb_sender cb' = cb_sender cb" "cb_user_is_done_sending cb' = cb_user_is_done_sending cb"
      using conn_ack_timer(2) cb_send_ack_snd [of env cb cb'] cb_send_ack_fixed [of env cb cb']
      by (auto simp: acknowledger_timer_def snd_view_def cb_fixed_def split: option.splits if_splits)
    then show ?thesis using acked_refines [OF inv acknowledger_timer_adds [OF conn_ack_timer(2)], of 0] i(3) by simp
  qed
qed

end

lemma conn_reach_steps: "conn_reach E cb0 cb \<Longrightarrow> (conn_step E)\<^sup>*\<^sup>* cb0 cb"
  by (induction rule: conn_reach.induct) auto

sublocale buffer_ops < sending: forward_simulation "conn_step E" stream_step send_abs "wire_inv s0" for s0
  by unfold_locales (use conn_step_refines in blast)+

context buffer_ops
begin

lemma conn_reach_refines:
  "conn_reach E cb cb' \<Longrightarrow> wire_inv s0 cb \<Longrightarrow> wire_inv s0 cb' \<and> stream_step\<^sup>*\<^sup>* (send_abs cb) (send_abs cb')"
  using sending.run_simulates [OF conn_reach_steps] by blast

end

lemma wire_inv_new:
  "unat win < 2 ^ 30 \<Longrightarrow> sscale \<le> 14 \<Longrightarrow> 0 < mss \<Longrightarrow> wire_inv sseq (control_block_new F l r s adt bufsize scale sseq win sscale mss cc)"
  using cb_snd_inv_new [of win sscale mss F l r s adt bufsize scale sseq cc]
  by (simp add: wire_inv_def acked_part_def wire_def control_block_new_def sender_new_def seq_at_def)

text \<open>The log of segments only grows.\<close>

definition log_grows :: "('f, 'cc) control_block \<Rightarrow> ('f, 'cc) control_block \<Rightarrow> bool" where
  "log_grows cb cb' \<longleftrightarrow> (\<exists>x. cb_tx cb' = cb_tx cb @ x)"

lemma log_growsI: "cb_tx cb' = cb_tx cb \<Longrightarrow> log_grows cb cb'" "adds_acks cb cb' \<Longrightarrow> log_grows cb cb'" "emits cb cb' b \<Longrightarrow> log_grows cb cb'"
  by (auto simp: log_grows_def adds_acks_def emits_def)

lemma cb_send_log: "cb_send env buf cb = Ok (cb', r) \<Longrightarrow> length buf < 2 ^ 31 \<Longrightarrow> log_grows cb cb'"
  by (erule (1) cb_send_cases) (auto intro: log_growsI)

context buffer_ops
begin

lemma conn_step_log:
  assumes "conn_step E cb cb'" "cb_snd_inv cb"
  shows "log_grows cb cb'"
proof -
  have s: "snd_inv (cb_sender cb)" using assms(2) by (simp add: cb_snd_inv_def)
  from assms(1) show ?thesis
  proof cases
    case (conn_close env r)
    show ?thesis
    proof (cases "cb_user_is_done_sending cb")
      case False
      with conn_close(2) obtain cb1 where "cb_send env [] cb = Ok (cb1, Ok ())" "cb' = cb1\<lparr>cb_user_is_done_sending := True\<rparr>" by (rule cb_close_sends)
      with cb_send_log [of env "[]" cb cb1] show ?thesis by (auto simp: log_grows_def)
    qed (use conn_close in \<open>auto simp: cb_close_def intro: log_growsI\<close>)
  next
    case (conn_background env st)
    from conn_background(1,3,2) show ?thesis by (rule bg_sender_iter_cases [OF s]) (auto intro: log_growsI)
  next
    case (conn_receive env h d)
    with cb_receive_acks [OF s conn_receive(1,3,2)] show ?thesis by (blast intro: log_growsI)
  qed (auto intro: cb_send_log log_growsI acknowledger_timer_adds simp: cb_poll_recv_def retransmitter_timer_def Let_def split: if_splits prod.splits option.splits)
qed

lemma conn_reach_log: "conn_reach E cb0 cb \<Longrightarrow> cb_snd_inv cb0 \<Longrightarrow> log_grows cb0 cb"
proof (induction rule: conn_reach.induct)
  case (conn_next cb cb')
  have "log_grows cb cb'" using conn_step_log [OF conn_next.hyps(2)] conn_reach_inv [OF conn_next.hyps(1) conn_next.prems] by blast
  with conn_next show ?case by (auto simp: log_grows_def)
qed (auto intro: log_growsI)

end

end
