(* ===== verification/Send_Properties.thy ===== *)
theory Send_Properties
  imports Tcp_Send_Spec Tcp_Properties
begin

text \<open>
  What the sending side of a connection promises: the stream of bytes that the application hands over goes out once, in order and at its place.
  That it goes out once also when it is lost, and that the window of the peer may never be learnt, is where the code falls short.
\<close>

section \<open>The sent stream\<close>




section \<open>Where it goes wrong\<close>












section \<open>Buffers larger than the window\<close>






end
