(* ===== verification/Tcp_Open.thy ===== *)
theory Tcp_Open
  imports Tcp_Ctrlblk Arp_Peer
begin

text \<open>
  Opening a TCP connection: \<^verbatim>\<open>isn_generator.rs\<close>, \<^verbatim>\<open>active_open.rs\<close> and \<^verbatim>\<open>passive_open.rs\<close> under
  \<^verbatim>\<open>src/src/protocols/tcp/\<close>.  The options of the runtime are the record \<open>tcp_config\<close>; the CRC over
  the bytes fed to a digest and the constant \<^verbatim>\<open>FALLBACK_MSS\<close> come from other crates and are fields of the
  environment.  The task that repeats the SYN is part of the socket that holds its handle (dropping the
  handle cancels it); it is cut at its suspension points and advances by events.  Both files use the
  congestion control \<^verbatim>\<open>None\<close>, whose state is \<open>unit\<close>.
\<close>

record tcp_config =
  cfg_receive_window_size :: u16
  cfg_window_scale :: u8
  cfg_advertised_mss :: nat
  cfg_ack_delay_timeout :: nat
  cfg_handshake_retries :: nat
  cfg_rx_checksum_offload :: bool

record 'f open_env =
  oe_tcp :: "('f, unit) tcp_env"
  oe_cfg :: tcp_config
  oe_fallback_mss :: nat
  oe_crc :: "bytes \<Rightarrow> u32"

type_synonym 'f conn_block = "('f, unit) control_block"

section \<open>Initial sequence numbers\<close>

record isn_generator =
  ig_nonce :: u32
  ig_counter :: u16

definition isn_generator_new :: "u32 \<Rightarrow> isn_generator" where
  "isn_generator_new nonce = \<lparr>ig_nonce = nonce, ig_counter = 0\<rparr>"

definition isn_generate ::
    "(bytes \<Rightarrow> u32) \<Rightarrow> socket_addr \<Rightarrow> socket_addr \<Rightarrow> isn_generator \<Rightarrow> isn_generator \<times> seq_number" where
  "isn_generate crc local remote g =
     (let digest = crc (ipv4_octets (fst remote) @ to_be_bytes16 (snd remote) @
                        ipv4_octets (fst local) @ to_be_bytes16 (snd local) @ to_be_bytes32 (ig_nonce g));
          isn = digest + ucast (ig_counter g)
      in (g\<lparr>ig_counter := ig_counter g + 1\<rparr>, isn))"

section \<open>What both sides share\<close>

text \<open>\<^verbatim>\<open>checked_shl\<close>: no shift by the width or more; bits shifted out are lost.\<close>

definition checked_shl :: "'a::len word \<Rightarrow> nat \<Rightarrow> 'a word option" where
  "checked_shl w n = (if n < LENGTH('a) then Some (push_bit n w) else None)"

text \<open>The loop over the options: the last window scale and the last segment size win.\<close>

fun scan_options :: "tcp_options2 list \<Rightarrow> u8 option \<Rightarrow> nat \<Rightarrow> u8 option \<times> nat" where
  "scan_options [] remote_window_scale mss = (remote_window_scale, mss)"
| "scan_options (opt # opts) remote_window_scale mss =
     (case opt of
        WindowScale w \<Rightarrow> scan_options opts (Some w) mss
      | MaximumSegmentSize m \<Rightarrow> scan_options opts remote_window_scale (unat m)
      | _ \<Rightarrow> scan_options opts remote_window_scale mss)"

definition window_scales :: "'f open_env \<Rightarrow> u8 option \<Rightarrow> nat \<times> u8" where
  "window_scales env scale =
     (case scale of Some w \<Rightarrow> (unat (cfg_window_scale (oe_cfg env)), w) | None \<Rightarrow> (0, 0))"

text \<open>The segment around a header, without data; the checksum flag is the receive one, as in the source.\<close>

definition open_segment ::
    "'f open_env \<Rightarrow> socket_addr \<Rightarrow> socket_addr \<Rightarrow> mac_address \<Rightarrow> tcp_header \<Rightarrow> tcp_segment" where
  "open_segment env local remote remote_link_addr tcp_hdr =
     \<lparr>ts_ethernet2_hdr = ethernet2_new remote_link_addr (rt_local_link_addr (te_rt (oe_tcp env))) Ipv4,
      ts_ipv4_hdr = ipv4_new (fst local) (fst remote) TCP, ts_tcp_hdr = tcp_hdr, ts_data = [],
      ts_tx_checksum_offload = cfg_rx_checksum_offload (oe_cfg env)\<rparr>"

definition push_syn_options :: "'f open_env \<Rightarrow> tcp_header \<Rightarrow> tcp_header res" where
  "push_syn_options env tcp_hdr =
     (let mss = of_nat (cfg_advertised_mss (oe_cfg env))
      in res_bind (tcp_push_option (MaximumSegmentSize mss) tcp_hdr)
           (tcp_push_option (WindowScale (cfg_window_scale (oe_cfg env)))))"

text \<open>
  The background task: not started, waiting for the link address or for the timer with the number of
  rounds that follow this one, ended.
\<close>

datatype handshake = HsStart | HsQuery nat | HsTimer nat | HsEnded

datatype hs_event = HsPolled | HsResolved "mac_address res" | HsTimeout

definition hs_loop :: "nat \<Rightarrow> handshake" where
  "hs_loop n = (case n of 0 \<Rightarrow> HsEnded | Suc k \<Rightarrow> HsQuery k)"

definition hs_step ::
    "(mac_address \<Rightarrow> tcp_segment res) \<Rightarrow> nat \<Rightarrow> hs_event \<Rightarrow> handshake \<Rightarrow> (handshake \<times> tcp_segment list) res" where
  "hs_step syn retries ev st =
     (case (st, ev) of
        (HsStart, HsPolled) \<Rightarrow> Ok (hs_loop retries, [])
      | (HsQuery k, HsResolved r) \<Rightarrow>
          (case r of
             Ok remote_link_addr \<Rightarrow> res_bind (syn remote_link_addr) (\<lambda>segment. Ok (HsTimer k, [segment]))
           | Err e \<Rightarrow> Ok (hs_loop k, [])
           | Panic s \<Rightarrow> Panic s)
      | (HsTimer k, HsTimeout) \<Rightarrow> Ok (hs_loop k, [])
      | _ \<Rightarrow> Ok (st, []))"

definition handshake_timeout :: fail where
  "handshake_timeout = Fail ETIMEDOUT ''handshake timeout''"

section \<open>Active open\<close>

record 'f active_open =
  ao_local_isn :: seq_number
  ao_local :: socket_addr
  ao_remote :: socket_addr
  ao_handle :: handshake
  ao_result :: "'f conn_block res option"

definition active_new :: "seq_number \<Rightarrow> socket_addr \<Rightarrow> socket_addr \<Rightarrow> 'f active_open" where
  "active_new local_isn local remote =
     \<lparr>ao_local_isn = local_isn, ao_local = local, ao_remote = remote, ao_handle = HsStart, ao_result = None\<rparr>"

text \<open>The result is taken out; \<open>None\<close> is pending.\<close>

definition active_poll_result :: "'f active_open \<Rightarrow> 'f active_open \<times> 'f conn_block res option" where
  "active_poll_result s = (s\<lparr>ao_result := None\<rparr>, ao_result s)"

definition active_set_result :: "'f conn_block res \<Rightarrow> 'f active_open \<Rightarrow> 'f active_open" where
  "active_set_result r s = s\<lparr>ao_result := Some r\<rparr>"

definition active_ack :: "'f open_env \<Rightarrow> seq_number \<Rightarrow> mac_address \<Rightarrow> 'f active_open \<Rightarrow> tcp_segment" where
  "active_ack env remote_seq_num remote_link_addr s =
     open_segment env (ao_local s) (ao_remote s) remote_link_addr
       ((tcp_header_new (snd (ao_local s)) (snd (ao_remote s)))
          \<lparr>tcp_ack := True, tcp_ack_num := remote_seq_num,
           tcp_window_size := cfg_receive_window_size (oe_cfg env),
           tcp_seq_num := seq_add (ao_local_isn s) 1\<rparr>)"

text \<open>The connection that a SYN+ACK opens.\<close>

definition active_connection :: "'f open_env \<Rightarrow> tcp_header \<Rightarrow> 'f active_open \<Rightarrow> 'f conn_block res" where
  "active_connection env header s =
     (let (scale, mss) = scan_options (tcp_iter_options header) None (oe_fallback_mss env);
          (local_window_scale, remote_window_scale) = window_scales env scale
      in if \<not> (local_window_scale \<le> 14 \<and> remote_window_scale \<le> 14) then Panic ''assertion failed''
         else case (checked_shl (cfg_receive_window_size (oe_cfg env)) local_window_scale,
                    checked_shl (tcp_window_size header) (unat remote_window_scale)) of
           (Some rx, Some tx) \<Rightarrow>
             Ok (control_block_new (te_fl (oe_tcp env)) (ao_local s) (ao_remote s)
                   (seq_add (tcp_seq_num header) 1) (cfg_ack_delay_timeout (oe_cfg env))
                   (ucast rx) (of_nat local_window_scale) (seq_add (ao_local_isn s) 1)
                   (ucast tx) remote_window_scale mss ())
         | _ \<Rightarrow> Panic ''TODO: Window size overflow'')"

definition active_receive ::
    "'f open_env \<Rightarrow> tcp_header \<Rightarrow> 'f active_open \<Rightarrow> ('f active_open \<times> tcp_segment list) res" where
  "active_receive env header s =
     (let expected_seq = seq_add (ao_local_isn s) 1
      in if \<not> (tcp_ack header \<and> tcp_ack_num header = expected_seq) then Ok (s, [])
         else if tcp_rst header
         then Ok (active_set_result (Err (Fail ECONNREFUSED ''connection refused'')) s, [])
         else if \<not> tcp_syn header then Ok (s, [])
         else case te_arp (oe_tcp env) (fst (ao_remote s)) of
           None \<Rightarrow> Panic ''TODO: Clean up ARP query control flow''
         | Some remote_link_addr \<Rightarrow>
             let remote_seq_num = seq_add (tcp_seq_num header) 1;
                 segment = active_ack env remote_seq_num remote_link_addr s
             in res_bind (active_connection env header s) (\<lambda>cb.
                Ok (active_set_result (Ok cb) s, [segment])))"

definition active_syn :: "'f open_env \<Rightarrow> 'f active_open \<Rightarrow> mac_address \<Rightarrow> tcp_segment res" where
  "active_syn env s remote_link_addr =
     (let tcp_hdr = (tcp_header_new (snd (ao_local s)) (snd (ao_remote s)))
            \<lparr>tcp_syn := True, tcp_seq_num := ao_local_isn s,
             tcp_window_size := cfg_receive_window_size (oe_cfg env)\<rparr>
      in res_bind (push_syn_options env tcp_hdr) (\<lambda>tcp_hdr.
         Ok (open_segment env (ao_local s) (ao_remote s) remote_link_addr tcp_hdr)))"

definition active_background ::
    "'f open_env \<Rightarrow> hs_event \<Rightarrow> 'f active_open \<Rightarrow> ('f active_open \<times> tcp_segment list) res" where
  "active_background env ev s =
     res_bind (hs_step (active_syn env s) (cfg_handshake_retries (oe_cfg env)) ev (ao_handle s)) (\<lambda>(task, out).
       let ended = (task = HsEnded \<and> ao_handle s \<noteq> HsEnded);
           s = s\<lparr>ao_handle := task\<rparr>
       in Ok (if ended then s\<lparr>ao_result := Some (Err handshake_timeout)\<rparr> else s, out))"

section \<open>Passive open\<close>

record inflight_accept =
  ia_local_isn :: seq_number
  ia_remote_isn :: seq_number
  ia_header_window_size :: u16
  ia_remote_window_scale :: "u8 option"
  ia_mss :: nat
  ia_handle :: handshake

record 'f ready_sockets =
  rs_ready :: "'f conn_block res list"
  rs_endpoints :: "socket_addr set"

definition ready_push_ok :: "'f conn_block \<Rightarrow> 'f ready_sockets \<Rightarrow> 'f ready_sockets res" where
  "ready_push_ok cb r =
     (if cb_remote cb \<in> rs_endpoints r then Panic ''assertion failed''
      else Ok (r\<lparr>rs_endpoints := insert (cb_remote cb) (rs_endpoints r), rs_ready := rs_ready r @ [Ok cb]\<rparr>))"

definition ready_push_err :: "fail \<Rightarrow> 'f ready_sockets \<Rightarrow> 'f ready_sockets" where
  "ready_push_err err r = r\<lparr>rs_ready := rs_ready r @ [Err err]\<rparr>"

definition ready_poll :: "'f ready_sockets \<Rightarrow> ('f ready_sockets \<times> 'f conn_block res option) res" where
  "ready_poll r =
     (case rs_ready r of
        [] \<Rightarrow> Ok (r, None)
      | x # q \<Rightarrow>
        let r = r\<lparr>rs_ready := q\<rparr>
        in case x of
             Ok cb \<Rightarrow>
               (if cb_remote cb \<in> rs_endpoints r
                then Ok (r\<lparr>rs_endpoints := rs_endpoints r - {cb_remote cb}\<rparr>, Some x)
                else Panic ''assertion failed'')
           | _ \<Rightarrow> Ok (r, Some x))"

record 'f passive_socket =
  ps_inflight :: "(socket_addr \<times> inflight_accept) list"
  ps_ready :: "'f ready_sockets"
  ps_max_backlog :: nat
  ps_isn_generator :: isn_generator
  ps_local :: socket_addr

definition passive_new :: "socket_addr \<Rightarrow> nat \<Rightarrow> u32 \<Rightarrow> 'f passive_socket" where
  "passive_new local max_backlog nonce =
     \<lparr>ps_inflight = [], ps_ready = \<lparr>rs_ready = [], rs_endpoints = {}\<rparr>, ps_max_backlog = max_backlog,
      ps_isn_generator = isn_generator_new nonce, ps_local = local\<rparr>"

definition passive_poll_accept ::
    "'f passive_socket \<Rightarrow> ('f passive_socket \<times> 'f conn_block res option) res" where
  "passive_poll_accept s = res_bind (ready_poll (ps_ready s)) (\<lambda>(r, x). Ok (s\<lparr>ps_ready := r\<rparr>, x))"

text \<open>The connection that the ACK of a SYN+ACK opens.\<close>

definition passive_connection ::
    "'f open_env \<Rightarrow> socket_addr \<Rightarrow> inflight_accept \<Rightarrow> 'f passive_socket \<Rightarrow> 'f conn_block res" where
  "passive_connection env remote ia s =
     (let (local_window_scale, remote_window_scale) = window_scales env (ia_remote_window_scale ia)
      in case (checked_shl (ia_header_window_size ia) (unat remote_window_scale),
               checked_shl (ucast (cfg_receive_window_size (oe_cfg env)) :: u32) local_window_scale) of
           (Some remote_window_size, Some local_window_size) \<Rightarrow>
             Ok (control_block_new (te_fl (oe_tcp env)) (ps_local s) remote
                   (seq_add (ia_remote_isn ia) 1) (cfg_ack_delay_timeout (oe_cfg env))
                   local_window_size (of_nat local_window_scale) (seq_add (ia_local_isn ia) 1)
                   (ucast remote_window_size) remote_window_scale (ia_mss ia) ())
         | _ \<Rightarrow> Panic ''TODO: Window size overflow'')"

definition passive_receive ::
    "'f open_env \<Rightarrow> ipv4_header \<Rightarrow> tcp_header \<Rightarrow> 'f passive_socket \<Rightarrow> ('f passive_socket \<times> unit res) res" where
  "passive_receive env ip_header header s =
     (let remote = (ip_src_addr ip_header, tcp_src_port header)
      in if remote \<in> rs_endpoints (ps_ready s) then Ok (s, Ok ())
      else
      let inflight_len = length (ps_inflight s)
      in case map_of (ps_inflight s) remote of
           Some ia \<Rightarrow>
             if \<not> tcp_ack header then Ok (s, Err (Fail EBADMSG ''expeting ACK''))
             else if tcp_ack_num header \<noteq> seq_add (ia_local_isn ia) 1
             then Ok (s, Err (Fail EBADMSG ''invalid SYN+ACK seq num''))
             else res_bind (passive_connection env remote ia s) (\<lambda>cb.
               let s = s\<lparr>ps_inflight := AList.delete remote (ps_inflight s)\<rparr>
               in res_bind (ready_push_ok cb (ps_ready s)) (\<lambda>r. Ok (s\<lparr>ps_ready := r\<rparr>, Ok ())))
         | None \<Rightarrow>
             if \<not> tcp_syn header \<or> tcp_ack header \<or> tcp_rst header
             then Ok (s, Err (Fail EBADMSG ''invalid flags''))
             else if inflight_len + length (rs_ready (ps_ready s)) \<ge> ps_max_backlog s
             then Ok (s, Err (Fail ECONNREFUSED ''connection refused''))
             else
               let (g, local_isn) = isn_generate (oe_crc env) (ps_local s) remote (ps_isn_generator s);
                   remote_isn = tcp_seq_num header;
                   (remote_window_scale, mss) = scan_options (tcp_iter_options header) None (oe_fallback_mss env);
                   accept = \<lparr>ia_local_isn = local_isn, ia_remote_isn = remote_isn,
                     ia_header_window_size = tcp_window_size header,
                     ia_remote_window_scale = remote_window_scale, ia_mss = mss, ia_handle = HsStart\<rparr>
               in Ok (s\<lparr>ps_isn_generator := g, ps_inflight := AList.update remote accept (ps_inflight s)\<rparr>, Ok ()))"

definition passive_syn_ack ::
    "'f open_env \<Rightarrow> socket_addr \<Rightarrow> socket_addr \<Rightarrow> inflight_accept \<Rightarrow> mac_address \<Rightarrow> tcp_segment res" where
  "passive_syn_ack env local remote ia remote_link_addr =
     (let tcp_hdr = (tcp_header_new (snd local) (snd remote))
            \<lparr>tcp_syn := True, tcp_seq_num := ia_local_isn ia, tcp_ack := True,
             tcp_ack_num := seq_add (ia_remote_isn ia) 1,
             tcp_window_size := cfg_receive_window_size (oe_cfg env)\<rparr>
      in res_bind (push_syn_options env tcp_hdr) (\<lambda>tcp_hdr.
         Ok (open_segment env local remote remote_link_addr tcp_hdr)))"

definition passive_background ::
    "'f open_env \<Rightarrow> socket_addr \<Rightarrow> hs_event \<Rightarrow> 'f passive_socket \<Rightarrow> ('f passive_socket \<times> tcp_segment list) res" where
  "passive_background env remote ev s =
     (case map_of (ps_inflight s) remote of
        None \<Rightarrow> Ok (s, [])
      | Some ia \<Rightarrow>
        res_bind (hs_step (passive_syn_ack env (ps_local s) remote ia) (cfg_handshake_retries (oe_cfg env)) ev (ia_handle ia))
          (\<lambda>(task, out).
             let ended = (task = HsEnded \<and> ia_handle ia \<noteq> HsEnded);
                 s = s\<lparr>ps_inflight := AList.update remote (ia\<lparr>ia_handle := task\<rparr>) (ps_inflight s)\<rparr>
             in Ok (if ended then s\<lparr>ps_ready := ready_push_err handshake_timeout (ps_ready s)\<rparr> else s, out)))"

section \<open>The segments of a handshake\<close>

text \<open>What the two SYN segments carry, as the other side sees it after parsing.\<close>

definition syn_options :: "'f open_env \<Rightarrow> tcp_options2 list" where
  "syn_options env = [MaximumSegmentSize (of_nat (cfg_advertised_mss (oe_cfg env))),
     WindowScale (cfg_window_scale (oe_cfg env))]"

lemma push_syn_options_eq:
  assumes "tcp_num_options h = 0" "tcp_option_list h = replicate 5 NoOperation"
  shows "push_syn_options env h = Ok (h\<lparr>tcp_num_options := 2,
           tcp_option_list := put 0 (syn_options env) (replicate 5 NoOperation)\<rparr>)"
  using assms
  by (simp add: push_syn_options_def tcp_push_option_def syn_options_def put_def eval_nat_numeral)

lemma put_syn_options:
  "put 0 (syn_options env) (replicate 5 NoOperation) = syn_options env @ replicate 3 NoOperation"
  by (simp add: syn_options_def put_def eval_nat_numeral)

lemma scan_syn_options:
  "scan_options (syn_options env) None fb
     = (Some (cfg_window_scale (oe_cfg env)), cfg_advertised_mss (oe_cfg env) mod 2 ^ 16)"
  by (simp add: syn_options_def unat_of_nat take_bit_eq_mod)

lemma no_options_norm:
  "tcp_num_options h = 0 \<Longrightarrow> tcp_option_list h = replicate 5 NoOperation \<Longrightarrow> tcp_norm h = h"
  by (simp add: tcp_norm_def tcp_iter_options_def put_def)

definition syn_header :: "'f open_env \<Rightarrow> socket_addr \<Rightarrow> socket_addr \<Rightarrow> seq_number \<Rightarrow> tcp_header" where
  "syn_header env local remote isn =
     (tcp_header_new (snd local) (snd remote))
       \<lparr>tcp_syn := True, tcp_seq_num := isn, tcp_window_size := cfg_receive_window_size (oe_cfg env),
        tcp_num_options := 2, tcp_option_list := syn_options env @ replicate 3 NoOperation\<rparr>"

lemma active_syn_eq:
  "active_syn env s mac = Ok (open_segment env (ao_local s) (ao_remote s) mac
     (syn_header env (ao_local s) (ao_remote s) (ao_local_isn s)))"
  by (simp add: active_syn_def push_syn_options_eq put_syn_options syn_header_def tcp_header_new_def MAX_TCP_OPTIONS_def)

lemma passive_syn_ack_eq:
  "passive_syn_ack env local remote ia mac = Ok (open_segment env local remote mac
     ((syn_header env local remote (ia_local_isn ia))\<lparr>tcp_ack := True, tcp_ack_num := ia_remote_isn ia + 1\<rparr>))"
  by (simp add: passive_syn_ack_def push_syn_options_eq put_syn_options syn_header_def tcp_header_new_def
      MAX_TCP_OPTIONS_def seq_add_def)

lemmas open_headers = active_syn_eq passive_syn_ack_eq active_ack_def

text \<open>The three segments of a handshake can be put on the wire and come back as they are.\<close>

lemma open_segment_wf:
  assumes "length mac = 6" "length (rt_local_link_addr (te_rt (oe_tcp env))) = 6" "tcp_wf h"
  shows "tcp_segment_wf (open_segment env local remote mac h)"
  using assms by (simp add: open_segment_def tcp_segment_wf_def eth_wf_def ethernet2_new_def ipv4_wf_def ipv4_new_def tcp_wf_def)

lemma syn_header_options:
  "tcp_num_options (syn_header env l r i) = 2"
  "tcp_option_list (syn_header env l r i) = syn_options env @ replicate 3 NoOperation"
  by (simp_all add: syn_header_def)

lemma syn_header_iter [simp]:
  "tcp_iter_options (syn_header env l r i) = syn_options env"
  "tcp_iter_options ((syn_header env l r i)\<lparr>tcp_ack := a, tcp_ack_num := n\<rparr>) = syn_options env"
  by (simp_all add: tcp_iter_options_def syn_header_options syn_options_def upt_rec)

lemma syn_header_wf [simp]:
  "tcp_wf (syn_header env l r i)" "tcp_wf ((syn_header env l r i)\<lparr>tcp_ack := a, tcp_ack_num := n\<rparr>)"
  unfolding tcp_wf_def tcp_compute_size_def Let_def syn_header_iter
  by (simp_all add: syn_header_options syn_options_def tcp_option_wf_def MIN_TCP_HEADER_SIZE_def)

lemma syn_header_norm [simp]:
  "tcp_norm (syn_header env l r i) = syn_header env l r i"
  "tcp_norm ((syn_header env l r i)\<lparr>tcp_ack := a, tcp_ack_num := n\<rparr>) = (syn_header env l r i)\<lparr>tcp_ack := a, tcp_ack_num := n\<rparr>"
  unfolding tcp_norm_def Let_def syn_header_iter
  by (simp_all add: syn_header_options syn_options_def put_def eval_nat_numeral syn_header_def)

end
