(* ===== verification/Tcp_Handshake.thy ===== *)
theory Tcp_Handshake
  imports Tcp_Open
begin

text \<open>
  What the two ways of opening a connection guarantee: the task that repeats a SYN ends and reports a
  timeout; the tables of a listening socket stay consistent, so that none of its assertions fails; the
  number of connections that wait for \<^verbatim>\<open>accept\<close> is bounded; the two control blocks of a completed
  handshake agree on sequence numbers, endpoints, windows and segment sizes.
\<close>

section \<open>The task that repeats the SYN\<close>

text \<open>The rounds that are left, counted in suspension points.\<close>

fun hs_rank :: "nat \<Rightarrow> handshake \<Rightarrow> nat" where
  "hs_rank n HsStart = 2 * n + 1"
| "hs_rank n (HsQuery k) = 2 * k + 2"
| "hs_rank n (HsTimer k) = 2 * k + 1"
| "hs_rank n HsEnded = 0"

fun hs_syns_left :: "nat \<Rightarrow> handshake \<Rightarrow> nat" where
  "hs_syns_left n HsStart = n"
| "hs_syns_left n (HsQuery k) = Suc k"
| "hs_syns_left n (HsTimer k) = k"
| "hs_syns_left n HsEnded = 0"

lemma hs_loop_rank:
  "hs_rank m (hs_loop n) = 2 * n" "hs_syns_left m (hs_loop n) = n" "hs_loop n = HsEnded \<longleftrightarrow> n = 0" "hs_loop n \<noteq> HsStart"
  by (simp_all add: hs_loop_def split: nat.split)

text \<open>Every step of the task that is not ignored uses up a suspension point, and a segment uses up a SYN.\<close>

lemma hs_step_progress:
  assumes "hs_step syn n ev st = Ok (st', out)"
  shows "(st' = st \<and> out = []) \<or> (hs_rank n st' < hs_rank n st \<and> hs_syns_left n st' + length out \<le> hs_syns_left n st)"
  using assms
  by (auto simp: hs_step_def hs_loop_rank res_bind_Ok_iff split: handshake.splits hs_event.splits res.splits)

fun active_run ::
    "'f open_env \<Rightarrow> hs_event list \<Rightarrow> 'f active_open \<Rightarrow> ('f active_open \<times> tcp_segment list) res" where
  "active_run env [] s = Ok (s, [])"
| "active_run env (ev # evs) s =
     res_bind (active_background env ev s) (\<lambda>(s, out).
     res_bind (active_run env evs s) (\<lambda>(s, outs). Ok (s, out @ outs)))"

lemma active_background_eq:
  "active_background env ev s = (case (ao_handle s, ev) of
      (HsStart, HsPolled) \<Rightarrow> Ok ((if cfg_handshake_retries (oe_cfg env) = 0 then s\<lparr>ao_result := Some (Err handshake_timeout)\<rparr> else s)
          \<lparr>ao_handle := hs_loop (cfg_handshake_retries (oe_cfg env))\<rparr>, [])
    | (HsQuery k, HsResolved (Ok mac)) \<Rightarrow> Ok (s\<lparr>ao_handle := HsTimer k\<rparr>,
          [open_segment env (ao_local s) (ao_remote s) mac (syn_header env (ao_local s) (ao_remote s) (ao_local_isn s))])
    | (HsQuery k, HsResolved (Err e)) \<Rightarrow> Ok ((if k = 0 then s\<lparr>ao_result := Some (Err handshake_timeout)\<rparr> else s)
          \<lparr>ao_handle := hs_loop k\<rparr>, [])
    | (HsQuery k, HsResolved (Panic m)) \<Rightarrow> Panic m
    | (HsTimer k, HsTimeout) \<Rightarrow> Ok ((if k = 0 then s\<lparr>ao_result := Some (Err handshake_timeout)\<rparr> else s)
          \<lparr>ao_handle := hs_loop k\<rparr>, [])
    | _ \<Rightarrow> Ok (s, []))"
  by (auto simp: active_background_def hs_step_def active_syn_eq hs_loop_rank Let_def
      split: handshake.splits hs_event.splits res.splits)

lemma active_run_bound:
  assumes "active_run env evs s = Ok (s', outs)"
  shows "length outs + hs_syns_left (cfg_handshake_retries (oe_cfg env)) (ao_handle s')
           \<le> hs_syns_left (cfg_handshake_retries (oe_cfg env)) (ao_handle s)"
  using assms
proof (induction evs arbitrary: s outs)
  case (Cons ev evs)
  then obtain s1 o1 o2 where st: "active_background env ev s = Ok (s1, o1)" "active_run env evs s1 = Ok (s', o2)" "outs = o1 @ o2"
    by (auto simp: res_bind_Ok_iff)
  from st(1) obtain t where h: "hs_step (active_syn env s) (cfg_handshake_retries (oe_cfg env)) ev (ao_handle s) = Ok (t, o1)"
      "ao_handle s1 = t"
    by (auto simp: active_background_def res_bind_Ok_iff Let_def)
  with hs_step_progress [OF h(1)] Cons.IH [OF st(2)] st(3) show ?case by auto
qed simp

text \<open>The unanswered rounds.\<close>

lemma active_run_round:
  "ao_handle s = HsQuery (Suc k) \<Longrightarrow>
   active_run env (evs) (s\<lparr>ao_handle := HsQuery k\<rparr>) = Ok (s', outs) \<Longrightarrow>
   active_run env ([HsResolved (Ok mac), HsTimeout] @ evs) s
     = Ok (s', open_segment env (ao_local s) (ao_remote s) mac (syn_header env (ao_local s) (ao_remote s) (ao_local_isn s)) # outs)"
  by (simp add: active_background_eq hs_loop_def)

lemma active_run_rounds:
  "ao_handle s = HsQuery k \<Longrightarrow>
   active_run env (concat (replicate (Suc k) [HsResolved (Ok mac), HsTimeout])) s
     = Ok (s\<lparr>ao_handle := HsEnded, ao_result := Some (Err handshake_timeout)\<rparr>,
           replicate (Suc k) (open_segment env (ao_local s) (ao_remote s) mac
             (syn_header env (ao_local s) (ao_remote s) (ao_local_isn s))))"
proof (induction k arbitrary: s)
  case 0
  then show ?case by (simp add: active_background_eq hs_loop_def)
next
  case (Suc k)
  have c: "concat (replicate (Suc (Suc k)) es) = es @ concat (replicate (Suc k) es)" for es :: "hs_event list" by simp
  show ?case unfolding c by (subst active_run_round [OF Suc.prems Suc.IH]) simp_all
qed

section \<open>A listening socket\<close>

fun ready_oks :: "'f conn_block res list \<Rightarrow> 'f conn_block list" where
  "ready_oks [] = []"
| "ready_oks (Ok cb # q) = cb # ready_oks q"
| "ready_oks (_ # q) = ready_oks q"

lemma ready_oks_append [simp]: "ready_oks (xs @ ys) = ready_oks xs @ ready_oks ys"
  by (induction xs rule: ready_oks.induct) simp_all

text \<open>
  The set of endpoints is that of the connections that wait, no endpoint waits twice or is in flight at
  the same time, and every waiting connection was opened on the socket's address.
\<close>

definition passive_ok :: "'f passive_socket \<Rightarrow> bool" where
  "passive_ok s \<longleftrightarrow>
     distinct (map fst (ps_inflight s)) \<and>
     rs_endpoints (ps_ready s) = cb_remote ` set (ready_oks (rs_ready (ps_ready s))) \<and>
     distinct (map cb_remote (ready_oks (rs_ready (ps_ready s)))) \<and>
     rs_endpoints (ps_ready s) \<inter> fst ` set (ps_inflight s) = {} \<and>
     (\<forall>x \<in> set (rs_ready (ps_ready s)). \<not> is_panic x) \<and>
     (\<forall>cb \<in> set (ready_oks (rs_ready (ps_ready s))). cb_local cb = ps_local s)"

lemma passive_new_ok: "passive_ok (passive_new local backlog nonce)"
  by (simp add: passive_ok_def passive_new_def)

lemma passive_poll_accept_ok:
  assumes "passive_ok s"
  shows "\<exists>s' x. passive_poll_accept s = Ok (s', x) \<and> passive_ok s' \<and> ps_local s' = ps_local s \<and> ps_inflight s' = ps_inflight s \<and>
     (case x of
        None \<Rightarrow> s' = s \<and> rs_ready (ps_ready s) = []
      | Some r \<Rightarrow> rs_ready (ps_ready s) = r # rs_ready (ps_ready s') \<and>
          (case r of
             Ok cb \<Rightarrow> cb_local cb = ps_local s \<and> cb_remote cb \<in> rs_endpoints (ps_ready s) \<and>
               rs_endpoints (ps_ready s') = rs_endpoints (ps_ready s) - {cb_remote cb}
           | Err e \<Rightarrow> rs_endpoints (ps_ready s') = rs_endpoints (ps_ready s)
           | Panic m \<Rightarrow> False))"
proof (cases "rs_ready (ps_ready s)")
  case Nil
  then show ?thesis using assms by (simp add: passive_poll_accept_def ready_poll_def)
next
  case (Cons r q)
  show ?thesis
  proof (cases r)
    case (Ok cb)
    with Cons assms show ?thesis
      by (auto simp: passive_poll_accept_def ready_poll_def passive_ok_def)
  next
    case (Err e)
    with Cons assms show ?thesis
      by (auto simp: passive_poll_accept_def ready_poll_def passive_ok_def)
  next
    case (Panic m)
    with Cons assms show ?thesis by (simp add: passive_ok_def)
  qed
qed

text \<open>The connection a listening socket opens, when the shifts are in range.\<close>

lemma passive_connection_cases:
  assumes "cfg_window_scale (oe_cfg env) < 32"
  shows "passive_connection env remote ia s =
    (case ia_remote_window_scale ia of
       None \<Rightarrow> Ok (control_block_new (te_fl (oe_tcp env)) (ps_local s) remote (ia_remote_isn ia + 1)
          (cfg_ack_delay_timeout (oe_cfg env)) (ucast (cfg_receive_window_size (oe_cfg env))) 0 (ia_local_isn ia + 1)
          (ucast (ia_header_window_size ia)) 0 (ia_mss ia) ())
     | Some w \<Rightarrow> if unat w < 16
         then Ok (control_block_new (te_fl (oe_tcp env)) (ps_local s) remote (ia_remote_isn ia + 1)
          (cfg_ack_delay_timeout (oe_cfg env))
          (push_bit (unat (cfg_window_scale (oe_cfg env))) (ucast (cfg_receive_window_size (oe_cfg env))))
          (ucast (cfg_window_scale (oe_cfg env))) (ia_local_isn ia + 1)
          (ucast (push_bit (unat w) (ia_header_window_size ia))) w (ia_mss ia) ())
         else Panic ''TODO: Window size overflow'')"
proof -
  have "unat (cfg_window_scale (oe_cfg env)) < 32" using assms by (simp add: word_less_nat_alt)
  then show ?thesis
    by (auto simp: passive_connection_def window_scales_def checked_shl_def seq_add_def split: option.split)
qed

text \<open>
  The outcome of a segment for a listening socket: nothing changes, the connection in flight becomes
  ready, or a new one is in flight.
\<close>

lemma passive_receive_cases:
  assumes "passive_receive env ip h s = Ok (s', r)"
  obtains (same) "s' = s"
  | (ready) ia cb where "map_of (ps_inflight s) (ip_src_addr ip, tcp_src_port h) = Some ia" "tcp_ack h"
      "tcp_ack_num h = ia_local_isn ia + 1"
      "passive_connection env (ip_src_addr ip, tcp_src_port h) ia s = Ok cb" "r = Ok ()"
      "cb_remote cb \<notin> rs_endpoints (ps_ready s)"
      "s' = s\<lparr>ps_inflight := AList.delete (ip_src_addr ip, tcp_src_port h) (ps_inflight s),
              ps_ready := (ps_ready s)\<lparr>rs_endpoints := insert (cb_remote cb) (rs_endpoints (ps_ready s)),
                                      rs_ready := rs_ready (ps_ready s) @ [Ok cb]\<rparr>\<rparr>"
  | (new) ia g where "map_of (ps_inflight s) (ip_src_addr ip, tcp_src_port h) = None" "r = Ok ()"
      "(ip_src_addr ip, tcp_src_port h) \<notin> rs_endpoints (ps_ready s)"
      "tcp_syn h" "\<not> tcp_ack h" "\<not> tcp_rst h"
      "length (ps_inflight s) + length (rs_ready (ps_ready s)) < ps_max_backlog s"
      "ia_handle ia = HsStart"
      "s' = s\<lparr>ps_isn_generator := g,
              ps_inflight := AList.update (ip_src_addr ip, tcp_src_port h) ia (ps_inflight s)\<rparr>"
      "(ia_remote_window_scale ia, ia_mss ia) = scan_options (tcp_iter_options h) None (oe_fallback_mss env)"
proof (cases "(ip_src_addr ip, tcp_src_port h) \<in> rs_endpoints (ps_ready s)")
  case True
  with assms same show ?thesis by (simp add: passive_receive_def)
next
  case out: False
  show ?thesis
  proof (cases "map_of (ps_inflight s) (ip_src_addr ip, tcp_src_port h)")
    case None
    show ?thesis
    proof (cases "\<not> tcp_syn h \<or> tcp_ack h \<or> tcp_rst h
        \<or> length (ps_inflight s) + length (rs_ready (ps_ready s)) \<ge> ps_max_backlog s")
      case True
      with assms out None same show ?thesis by (auto simp: passive_receive_def Let_def split: if_splits)
    next
      case False
      obtain g isn w m where gen: "isn_generate (oe_crc env) (ps_local s) (ip_src_addr ip, tcp_src_port h) (ps_isn_generator s) = (g, isn)"
        "scan_options (tcp_iter_options h) None (oe_fallback_mss env) = (w, m)" by (meson surj_pair)
      with assms out None False have "r = Ok ()" "s' = s\<lparr>ps_isn_generator := g, ps_inflight := AList.update (ip_src_addr ip, tcp_src_port h)
          \<lparr>ia_local_isn = isn, ia_remote_isn = tcp_seq_num h, ia_header_window_size = tcp_window_size h,
           ia_remote_window_scale = w, ia_mss = m, ia_handle = HsStart\<rparr> (ps_inflight s)\<rparr>"
        by (auto simp: passive_receive_def Let_def)
      with new [OF None this(1) out _ _ _ _ _ this(2)] gen(2) False show ?thesis by auto
    qed
  next
    case (Some ia)
    show ?thesis
    proof (cases "tcp_ack h \<and> tcp_ack_num h = ia_local_isn ia + 1")
      case True
      with assms out Some show ?thesis
        by (auto simp: passive_receive_def Let_def seq_add_def res_bind_Ok_iff ready_push_ok_def
            split: if_splits intro!: ready)
    next
      case False
      with assms out Some same show ?thesis by (auto simp: passive_receive_def seq_add_def Let_def split: if_splits)
    qed
  qed
qed

lemma passive_connection_ends:
  "passive_connection env remote ia s = Ok cb \<Longrightarrow> cb_local cb = ps_local s \<and> cb_remote cb = remote"
  by (auto simp: passive_connection_def control_block_new_def split: prod.splits option.splits)

lemma fst_set_delete: "fst ` set (AList.delete k al) = fst ` set al - {k}"
  using arg_cong [OF delete_keys [of k al], of set] by simp

lemma fst_set_update: "fst ` set (AList.update k v al) = insert k (fst ` set al)"
  using dom_update [of k v al] by (simp add: update_conv' dom_map_of_conv_image_fst)

lemma passive_receive_ok:
  assumes ok: "passive_ok s" and "passive_receive env ip h s = Ok (s', r)"
  shows "passive_ok s'"
  using assms(2)
proof (cases rule: passive_receive_cases)
  case same
  with ok show ?thesis by simp
next
  case (ready ia cb)
  note ends = passive_connection_ends [OF ready(4)]
  from ready(1) have "(ip_src_addr ip, tcp_src_port h) \<in> fst ` set (ps_inflight s)" by (force dest: map_of_SomeD)
  with ok ready(6) ends show ?thesis unfolding ready(7)
    by (auto simp: passive_ok_def fst_set_delete distinct_delete)
next
  case (new ia g)
  from ok new(3) show ?thesis unfolding new(9)
    by (auto simp: passive_ok_def fst_set_update distinct_update)
qed

text \<open>The only panic of the routine: the acknowledgement of a SYN that announced a window scale of 16 or more.\<close>

lemma passive_receive_panics:
  assumes "passive_ok s" "cfg_window_scale (oe_cfg env) < 32"
  shows "is_panic (passive_receive env ip h s) \<longleftrightarrow>
    (\<exists>ia w. map_of (ps_inflight s) (ip_src_addr ip, tcp_src_port h) = Some ia \<and> tcp_ack h \<and>
       tcp_ack_num h = ia_local_isn ia + 1 \<and> ia_remote_window_scale ia = Some w \<and> 16 \<le> unat w)"
proof (cases "map_of (ps_inflight s) (ip_src_addr ip, tcp_src_port h)")
  case None
  then show ?thesis by (auto simp: passive_receive_def Let_def split: prod.splits)
next
  case (Some ia)
  then have "(ip_src_addr ip, tcp_src_port h) \<in> fst ` set (ps_inflight s)" by (force dest: map_of_SomeD)
  with assms(1) have out: "(ip_src_addr ip, tcp_src_port h) \<notin> rs_endpoints (ps_ready s)"
    unfolding passive_ok_def by blast
  show ?thesis
  proof (cases "passive_connection env (ip_src_addr ip, tcp_src_port h) ia s")
    case (Ok cb)
    with passive_connection_ends [OF Ok] passive_connection_cases [OF assms(2), of "(ip_src_addr ip, tcp_src_port h)" ia s] Some out
    show ?thesis
      by (auto simp: passive_receive_def Let_def ready_push_ok_def split: option.splits if_splits)
  next
    case (Err e)
    with passive_connection_cases [OF assms(2), of "(ip_src_addr ip, tcp_src_port h)" ia s]
    show ?thesis by (auto split: option.splits if_splits)
  next
    case (Panic m)
    with passive_connection_cases [OF assms(2), of "(ip_src_addr ip, tcp_src_port h)" ia s] Some out
    show ?thesis
      by (auto simp: passive_receive_def Let_def seq_add_def split: option.splits if_splits)
  qed
qed

lemma passive_background_cases:
  assumes "passive_background env remote ev s = Ok (s', out)"
  obtains (none) "s' = s" "out = []" "map_of (ps_inflight s) remote = None"
  | (some) ia task where "map_of (ps_inflight s) remote = Some ia"
      "hs_step (passive_syn_ack env (ps_local s) remote ia) (cfg_handshake_retries (oe_cfg env)) ev (ia_handle ia) = Ok (task, out)"
      "ps_inflight s' = AList.update remote (ia\<lparr>ia_handle := task\<rparr>) (ps_inflight s)"
      "ps_ready s' = (if task = HsEnded \<and> ia_handle ia \<noteq> HsEnded then ready_push_err handshake_timeout (ps_ready s) else ps_ready s)"
      "ps_local s' = ps_local s" "ps_max_backlog s' = ps_max_backlog s"
proof (cases "map_of (ps_inflight s) remote")
  case None
  with assms none show ?thesis by (simp add: passive_background_def)
next
  case (Some ia)
  with assms some [OF Some] show ?thesis
    by (auto simp: passive_background_def res_bind_Ok_iff Let_def)
qed

lemma passive_background_ok:
  assumes ok: "passive_ok s" and "passive_background env remote ev s = Ok (s', out)"
  shows "passive_ok s'"
  using assms(2)
proof (cases rule: passive_background_cases)
  case none
  with ok show ?thesis by simp
next
  case (some ia task)
  from some(1) have "remote \<in> fst ` set (ps_inflight s)" by (force dest: map_of_SomeD)
  with ok show ?thesis unfolding passive_ok_def some(3-5)
    by (auto simp: ready_push_err_def fst_set_update distinct_update)
qed

lemma hs_step_panics: "is_panic (hs_step syn n ev st) \<longleftrightarrow>
    (\<exists>k r. st = HsQuery k \<and> ev = HsResolved r \<and> (is_panic r \<or> (\<exists>mac. r = Ok mac \<and> is_panic (syn mac))))"
  by (auto simp: hs_step_def is_panic_bind split: handshake.splits hs_event.splits res.splits)

section \<open>The backlog\<close>

lemma sum_list_AList:
  fixes f :: "'a \<times> 'b \<Rightarrow> nat"
  shows "distinct (map fst al) \<Longrightarrow> map_of al k = Some v \<Longrightarrow>
      sum_list (map f (AList.delete k al)) + f (k, v) = sum_list (map f al)"
    and "distinct (map fst al) \<Longrightarrow> map_of al k = Some v \<Longrightarrow>
      sum_list (map f (AList.update k v' al)) + f (k, v) = sum_list (map f al) + f (k, v')"
    and "map_of al k = None \<Longrightarrow> sum_list (map f (AList.update k v' al)) = sum_list (map f al) + f (k, v')"
proof -
  show "sum_list (map f (AList.delete k al)) + f (k, v) = sum_list (map f al)"
    if "distinct (map fst al)" "map_of al k = Some v"
    using that by (induction al) (auto split: if_splits simp: map_of_eq_None_iff)
  show "sum_list (map f (AList.update k v' al)) + f (k, v) = sum_list (map f al) + f (k, v')"
    if "distinct (map fst al)" "map_of al k = Some v"
    using that by (induction al) (auto split: if_splits)
  show "sum_list (map f (AList.update k v' al)) = sum_list (map f al) + f (k, v')" if "map_of al k = None"
    using that by (induction al) (auto split: if_splits)
qed

text \<open>
  A connection in flight counts twice while its task runs: the task may still queue a timeout, and the
  connection may become ready.
\<close>

definition inflight_load :: "socket_addr \<times> inflight_accept \<Rightarrow> nat" where
  "inflight_load x = (if ia_handle (snd x) = HsEnded then 1 else 2)"

definition passive_load :: "'f passive_socket \<Rightarrow> nat" where
  "passive_load s = sum_list (map inflight_load (ps_inflight s)) + length (rs_ready (ps_ready s))"

lemma inflight_load_bounds:
  "length al \<le> sum_list (map inflight_load al)" "sum_list (map inflight_load al) \<le> 2 * length al"
  by (induction al) (auto simp: inflight_load_def)

lemma passive_receive_load:
  assumes ok: "passive_ok s" and "passive_receive env ip h s = Ok (s', r)" "passive_load s \<le> 2 * ps_max_backlog s"
  shows "passive_load s' \<le> 2 * ps_max_backlog s' \<and> ps_max_backlog s' = ps_max_backlog s"
  using assms(2)
proof (cases rule: passive_receive_cases)
  case same
  with assms show ?thesis by simp
next
  case (ready ia cb)
  have d: "distinct (map fst (ps_inflight s))" using ok by (simp add: passive_ok_def)
  from sum_list_AList(1) [OF d ready(1), of inflight_load] assms(3) show ?thesis unfolding ready(7)
    by (auto simp: passive_load_def inflight_load_def split: if_splits)
next
  case (new ia g)
  from sum_list_AList(3) [OF new(1), of inflight_load ia] new(7,8) inflight_load_bounds(2) [of "ps_inflight s"] assms(3)
  show ?thesis unfolding new(9) by (simp add: passive_load_def inflight_load_def)
qed

lemma passive_background_load:
  assumes ok: "passive_ok s" and "passive_background env remote ev s = Ok (s', out)"
  shows "passive_load s' \<le> passive_load s \<and> ps_max_backlog s' = ps_max_backlog s"
  using assms(2)
proof (cases rule: passive_background_cases)
  case none
  then show ?thesis by simp
next
  case (some ia task)
  have d: "distinct (map fst (ps_inflight s))" using ok by (simp add: passive_ok_def)
  have "ia_handle ia = HsEnded \<Longrightarrow> task = HsEnded" using some(2) by (auto simp: hs_step_def)
  with sum_list_AList(2) [OF d some(1), of inflight_load "ia\<lparr>ia_handle := task\<rparr>"] some(4,6) show ?thesis
    by (auto simp: passive_load_def inflight_load_def some(3) ready_push_err_def split: if_splits)
qed

lemma passive_poll_accept_load:
  assumes "passive_ok s" "passive_poll_accept s = Ok (s', x)"
  shows "passive_load s' \<le> passive_load s \<and> ps_max_backlog s' = ps_max_backlog s"
proof -
  have "ps_max_backlog s' = ps_max_backlog s" using assms(2) by (auto simp: passive_poll_accept_def res_bind_Ok_iff)
  moreover have "length (rs_ready (ps_ready s')) \<le> length (rs_ready (ps_ready s))" "ps_inflight s' = ps_inflight s"
    using passive_poll_accept_ok [OF assms(1)] assms(2) by (auto split: option.splits)
  ultimately show ?thesis by (simp add: passive_load_def)
qed

text \<open>Everything that can happen to a listening socket.\<close>

inductive passive_reach :: "'f passive_socket \<Rightarrow> 'f passive_socket \<Rightarrow> bool" for s0 where
  passive_start: "passive_reach s0 s0"
| passive_segment: "passive_reach s0 s \<Longrightarrow> passive_receive env ip h s = Ok (s', r) \<Longrightarrow> passive_reach s0 s'"
| passive_accept: "passive_reach s0 s \<Longrightarrow> passive_poll_accept s = Ok (s', x) \<Longrightarrow> passive_reach s0 s'"
| passive_task: "passive_reach s0 s \<Longrightarrow> passive_background env remote ev s = Ok (s', out) \<Longrightarrow> passive_reach s0 s'"

lemma passive_reach_inv:
  assumes "passive_reach s0 s" "passive_ok s0" "passive_load s0 \<le> 2 * ps_max_backlog s0"
  shows "passive_ok s \<and> passive_load s \<le> 2 * ps_max_backlog s \<and> ps_max_backlog s = ps_max_backlog s0"
  using assms
proof (induction rule: passive_reach.induct)
  case (passive_segment s env ip h s' r)
  then show ?case using passive_receive_ok passive_receive_load by metis
next
  case (passive_accept s s' x)
  then show ?case using passive_poll_accept_ok [of s] passive_poll_accept_load [of s s' x] by fastforce
next
  case (passive_task s env remote ev s' out)
  then show ?case using passive_background_ok passive_background_load by (metis le_trans)
qed simp

section \<open>A complete handshake\<close>

text \<open>The control block that an address opens with its own and the other side's options.\<close>

definition opened ::
    "'f open_env \<Rightarrow> socket_addr \<Rightarrow> socket_addr \<Rightarrow> seq_number \<Rightarrow> seq_number \<Rightarrow> tcp_config \<Rightarrow> u32 \<Rightarrow> 'f conn_block" where
  "opened env local remote local_isn remote_isn peer rx =
     control_block_new (te_fl (oe_tcp env)) local remote (remote_isn + 1) (cfg_ack_delay_timeout (oe_cfg env))
       rx (ucast (cfg_window_scale (oe_cfg env))) (local_isn + 1)
       (ucast (push_bit (unat (cfg_window_scale peer)) (cfg_receive_window_size peer)))
       (cfg_window_scale peer) (cfg_advertised_mss peer mod 2 ^ 16) ()"

definition accepted_syn :: "'f open_env \<Rightarrow> seq_number \<Rightarrow> seq_number \<Rightarrow> tcp_config \<Rightarrow> inflight_accept" where
  "accepted_syn env local_isn remote_isn peer =
     \<lparr>ia_local_isn = local_isn, ia_remote_isn = remote_isn, ia_header_window_size = cfg_receive_window_size peer,
      ia_remote_window_scale = Some (cfg_window_scale peer), ia_mss = cfg_advertised_mss peer mod 2 ^ 16,
      ia_handle = HsStart\<rparr>"

lemma syn_header_fields [simp]:
  "tcp_src_port (syn_header env l r i) = snd l" "tcp_dst_port (syn_header env l r i) = snd r"
  "tcp_seq_num (syn_header env l r i) = i" "tcp_syn (syn_header env l r i)"
  "\<not> tcp_ack (syn_header env l r i)" "\<not> tcp_rst (syn_header env l r i)" "\<not> tcp_fin (syn_header env l r i)"
  "tcp_window_size (syn_header env l r i) = cfg_receive_window_size (oe_cfg env)"
  by (simp_all add: syn_header_def tcp_header_new_def)

lemma passive_receive_syn:
  assumes "ip_src_addr ip = fst remote" "remote \<notin> rs_endpoints (ps_ready s)" "map_of (ps_inflight s) remote = None"
    and "length (ps_inflight s) + length (rs_ready (ps_ready s)) < ps_max_backlog s"
    and "isn_generate (oe_crc env) (ps_local s) remote (ps_isn_generator s) = (g, isn)"
  shows "passive_receive env ip (syn_header peer remote local i) s =
     Ok (s\<lparr>ps_isn_generator := g, ps_inflight := AList.update remote (accepted_syn env isn i (oe_cfg peer)) (ps_inflight s)\<rparr>, Ok ())"
  using assms by (simp add: passive_receive_def scan_syn_options accepted_syn_def Let_def)

lemma word_le_14: "(w :: u8) \<le> 14 \<longleftrightarrow> unat w \<le> 14"
  by (simp add: word_le_nat_alt)

lemma active_receive_syn_ack:
  assumes "te_arp (oe_tcp env) (fst (ao_remote s)) = Some mac"
    and "cfg_window_scale (oe_cfg env) \<le> 14" "cfg_window_scale (oe_cfg peer) \<le> 14"
  shows "active_receive env ((syn_header peer (ao_remote s) (ao_local s) i)\<lparr>tcp_ack := True, tcp_ack_num := ao_local_isn s + 1\<rparr>) s =
     Ok (active_set_result (Ok (opened env (ao_local s) (ao_remote s) (ao_local_isn s) i (oe_cfg peer)
            (ucast (push_bit (unat (cfg_window_scale (oe_cfg env))) (cfg_receive_window_size (oe_cfg env)))))) s,
         [active_ack env (i + 1) mac s])"
  using assms
  by (simp add: active_receive_def active_connection_def scan_syn_options window_scales_def opened_def checked_shl_def
      word_le_14 seq_add_def Let_def)

lemma passive_receive_ack:
  assumes "passive_ok s" "ip_src_addr ip = fst remote" "tcp_src_port h = snd remote"
    and "map_of (ps_inflight s) remote = Some ((accepted_syn env isn i peer)\<lparr>ia_handle := t\<rparr>)"
    and "tcp_ack h" "tcp_ack_num h = isn + 1" "cfg_window_scale (oe_cfg env) \<le> 14" "cfg_window_scale peer \<le> 14"
  shows "\<exists>s'. passive_receive env ip h s = Ok (s', Ok ()) \<and> ps_inflight s' = AList.delete remote (ps_inflight s) \<and>
     rs_ready (ps_ready s') = rs_ready (ps_ready s) @ [Ok (opened env (ps_local s) remote isn i peer
       (push_bit (unat (cfg_window_scale (oe_cfg env))) (ucast (cfg_receive_window_size (oe_cfg env)))))] \<and>
     rs_endpoints (ps_ready s') = insert remote (rs_endpoints (ps_ready s)) \<and> ps_local s' = ps_local s"
proof -
  from assms(4) have "remote \<in> fst ` set (ps_inflight s)" by (force dest: map_of_SomeD)
  with assms(1) have out: "remote \<notin> rs_endpoints (ps_ready s)" unfolding passive_ok_def by blast
  have "cfg_window_scale (oe_cfg env) < 32" "unat (cfg_window_scale peer) < 16"
    using assms(7,8) by (simp_all add: word_le_nat_alt word_less_nat_alt)
  with passive_connection_cases [OF this(1), of remote "(accepted_syn env isn i peer)\<lparr>ia_handle := t\<rparr>" s]
  have "passive_connection env remote ((accepted_syn env isn i peer)\<lparr>ia_handle := t\<rparr>) s
      = Ok (opened env (ps_local s) remote isn i peer
          (push_bit (unat (cfg_window_scale (oe_cfg env))) (ucast (cfg_receive_window_size (oe_cfg env)))))"
    by (simp add: accepted_syn_def opened_def)
  moreover have "ia_local_isn ((accepted_syn env isn i peer)\<lparr>ia_handle := t\<rparr>) = isn" by (simp add: accepted_syn_def)
  moreover have "cb_remote (opened env (ps_local s) remote isn i peer rx) = remote" for rx
    by (simp add: opened_def control_block_new_def)
  ultimately show ?thesis using out assms(2-6)
    by (simp add: passive_receive_def seq_add_def ready_push_ok_def)
qed

text \<open>
  The two ends of a connection agree: each expects the number the other sends next, sees the other as its
  remote end, sends no segment larger than the other advertised, and shifts windows by the other's scale.
\<close>

definition ends_agree :: "'f conn_block \<Rightarrow> 'f conn_block \<Rightarrow> bool" where
  "ends_agree a b \<longleftrightarrow>
     cb_local a = cb_remote b \<and> cb_remote a = cb_local b \<and> cb_state a = Established \<and> cb_state b = Established \<and>
     send_next (cb_sender a) = receive_next (cb_receiver b) \<and> send_unacked (cb_sender a) = receive_next (cb_receiver b) \<and>
     unsent_seq_no (cb_sender a) = receive_next (cb_receiver b) \<and> reader_next (cb_receiver b) = receive_next (cb_receiver b) \<and>
     unacked_queue (cb_sender a) = [] \<and> unsent_queue (cb_sender a) = [] \<and> recv_queue (cb_receiver a) = [] \<and>
     cb_out_of_order a = [] \<and> ucast (snd_window_scale (cb_sender a)) = cb_window_scale b \<and>
     send_window (cb_sender a) \<le> cb_receive_buffer_size b"

lemma push_bit_truncates:
  "n \<le> 15 \<Longrightarrow> (ucast (push_bit n (w :: u16)) :: u32) \<le> push_bit n (ucast w)"
proof -
  assume that: "n \<le> 15"
  have "unat (push_bit n w) = take_bit LENGTH(16) (push_bit n (unat w))" by (rule unsigned_push_bit_eq)
  then have "unat (push_bit n w) = unat w * 2 ^ n mod 2 ^ 16" by (simp only: take_bit_eq_mod push_bit_eq_mult) simp
  moreover have "unat (push_bit n (ucast w :: u32)) = unat w * 2 ^ n"
  proof -
    have "unat w * 2 ^ n < 2 ^ 16 * 2 ^ 15"
      using unsigned_less [of w] power_increasing [OF that, of "2::nat"]
      by (intro mult_less_le_imp_less) simp_all
    moreover have "unat (push_bit n (ucast w :: u32)) = take_bit LENGTH(32) (push_bit n (unat (ucast w :: u32)))"
      by (rule unsigned_push_bit_eq)
    moreover have "unat w < 2 ^ LENGTH(16)" by (rule unsigned_less)
    then have "unat (ucast w :: u32) = unat w" by (simp add: unsigned_ucast_eq take_bit_nat_eq_self)
    ultimately show ?thesis by (simp only: take_bit_eq_mod push_bit_eq_mult) simp
  qed
  ultimately show "(ucast (push_bit n w) :: u32) \<le> push_bit n (ucast w)"
    by (simp add: word_le_nat_alt unsigned_ucast_eq) (meson le_trans mod_less_eq_dividend take_bit_nat_less_eq_self)
qed

lemma opened_agree:
  assumes "cfg_window_scale (oe_cfg ce) \<le> 14" "cfg_window_scale (oe_cfg se) \<le> 14"
  shows "ends_agree
     (opened ce l r i j (oe_cfg se) (ucast (push_bit (unat (cfg_window_scale (oe_cfg ce))) (cfg_receive_window_size (oe_cfg ce)))))
     (opened se r l j i (oe_cfg ce) (push_bit (unat (cfg_window_scale (oe_cfg se))) (ucast (cfg_receive_window_size (oe_cfg se)))))"
    "ends_agree
     (opened se r l j i (oe_cfg ce) (push_bit (unat (cfg_window_scale (oe_cfg se))) (ucast (cfg_receive_window_size (oe_cfg se)))))
     (opened ce l r i j (oe_cfg se) (ucast (push_bit (unat (cfg_window_scale (oe_cfg ce))) (cfg_receive_window_size (oe_cfg ce)))))"
  using assms push_bit_truncates
  by (simp_all add: ends_agree_def opened_def control_block_new_def sender_new_def receiver_new_def word_le_14)

end
