(* ===== verification/Tcp_Peer.thy ===== *)
theory Tcp_Peer
  imports Tcp_Handshake Tcp_Receive Udp_Peer
begin

text \<open>
  \<^verbatim>\<open>src/src/protocols/tcp/peer.rs\<close> and \<^verbatim>\<open>established/mod.rs\<close>: the sockets of the TCP peer and the tables
  of listening, connecting and established connections.  A hash map is an association list, a polled
  operation yields \<open>None\<close> while it is pending, and segments are returned with the new state; those of an
  established connection are the ones its log has gained.  The random nonce of \<^verbatim>\<open>listen\<close> is an argument.
\<close>

datatype socket =
    Inactive "socket_addr option"
  | Listening socket_addr
  | Connecting socket_addr socket_addr
  | SockEstablished socket_addr socket_addr

type_synonym conn_key = "socket_addr \<times> socket_addr"

record 'f tcp_peer =
  tp_isn_generator :: isn_generator
  tp_ephemeral_ports :: ephemeral_ports
  tp_sockets :: "(qdesc \<times> socket) list"
  tp_passive :: "(socket_addr \<times> 'f passive_socket) list"
  tp_connecting :: "(conn_key \<times> 'f active_open) list"
  tp_established :: "(conn_key \<times> 'f conn_block) list"

definition tcp_peer_new :: "(u16 list \<Rightarrow> u16 list) \<Rightarrow> u32 \<Rightarrow> 'f tcp_peer" where
  "tcp_peer_new shuffle nonce =
     \<lparr>tp_isn_generator = isn_generator_new nonce, tp_ephemeral_ports = ephemeral_new shuffle,
      tp_sockets = [], tp_passive = [], tp_connecting = [], tp_established = []\<rparr>"

text \<open>What a connection has transmitted during an operation.\<close>

definition emitted :: "'f conn_block \<Rightarrow> 'f conn_block \<Rightarrow> tcp_segment list" where
  "emitted before after = drop (length (cb_tx before)) (cb_tx after)"

section \<open>Sockets\<close>

definition tcp_do_socket :: "qdesc \<Rightarrow> 'f tcp_peer \<Rightarrow> 'f tcp_peer \<times> unit res" where
  "tcp_do_socket qd p =
     (if map_of (tp_sockets p) qd = None
      then (p\<lparr>tp_sockets := AList.update qd (Inactive None) (tp_sockets p)\<rparr>, Ok ())
      else (p, Err (Fail EBUSY ''queue descriptor in use'')))"

fun socket_local :: "socket \<Rightarrow> socket_addr option" where
  "socket_local (Inactive local) = local"
| "socket_local (Listening local) = Some local"
| "socket_local (Connecting local remote) = Some local"
| "socket_local (SockEstablished local remote) = Some local"

definition tcp_address_in_use :: "socket_addr \<Rightarrow> 'f tcp_peer \<Rightarrow> bool" where
  "tcp_address_in_use addr p \<longleftrightarrow> (\<exists>(_, s) \<in> set (tp_sockets p). socket_local s = Some addr)"

text \<open>The two allocations of \<^verbatim>\<open>bind\<close>, one after the other: the address with its final port.\<close>

definition tcp_bind_port ::
    "socket_addr \<Rightarrow> ephemeral_ports \<Rightarrow> ephemeral_ports \<times> socket_addr res" where
  "tcp_bind_port addr eph =
     (let (eph, r) = (if is_private (snd addr) then alloc_port (snd addr) eph else (eph, Ok ()))
      in case r of
           Err e \<Rightarrow> (eph, Err e)
         | Panic s \<Rightarrow> (eph, Panic s)
         | Ok _ \<Rightarrow>
           if snd addr = 0
           then (let (eph, r) = alloc_any eph in (eph, res_bind r (\<lambda>new_port. Ok (fst addr, new_port))))
           else (eph, Ok addr))"

definition tcp_bind :: "qdesc \<Rightarrow> socket_addr \<Rightarrow> 'f tcp_peer \<Rightarrow> 'f tcp_peer \<times> unit res" where
  "tcp_bind qd addr p =
     (if tcp_address_in_use addr p then (p, Err (Fail EADDRINUSE ''address already in use''))
      else
      let (eph, r) = tcp_bind_port addr (tp_ephemeral_ports p);
          p = p\<lparr>tp_ephemeral_ports := eph\<rparr>
      in case r of
           Err e \<Rightarrow> (p, Err e)
         | Panic s \<Rightarrow> (p, Panic s)
         | Ok addr \<Rightarrow>
           let (p, ret) =
             (case map_of (tp_sockets p) qd of
                Some (Inactive local) \<Rightarrow>
                  (case local of
                     Some _ \<Rightarrow> (p, Err (Fail EINVAL ''socket is already bound to an address''))
                   | None \<Rightarrow> (p\<lparr>tp_sockets := AList.update qd (Inactive (Some addr)) (tp_sockets p)\<rparr>, Ok ()))
              | _ \<Rightarrow> (p, Err (Fail EBADF ''invalid queue descriptor'')))
           in case ret of
                Err e \<Rightarrow>
                  ((if is_private (snd addr)
                    then p\<lparr>tp_ephemeral_ports := free (snd addr) (tp_ephemeral_ports p)\<rparr> else p), Err e)
              | _ \<Rightarrow> (p, ret))"

definition tcp_listen :: "u32 \<Rightarrow> qdesc \<Rightarrow> nat \<Rightarrow> 'f tcp_peer \<Rightarrow> 'f tcp_peer \<times> unit res" where
  "tcp_listen nonce qd backlog p =
     (case map_of (tp_sockets p) qd of
        Some (Inactive (Some local)) \<Rightarrow>
          if map_of (tp_passive p) local \<noteq> None
          then (p, Err (Fail EADDRINUSE ''another socket is already listening on the same address/port pair''))
          else (p\<lparr>tp_passive := AList.update local (passive_new local backlog nonce) (tp_passive p),
                  tp_sockets := AList.update qd (Listening local) (tp_sockets p)\<rparr>, Ok ())
      | Some (Listening _) \<Rightarrow> (p, Err (Fail EINVAL ''socket is already listening''))
      | Some (Inactive None) \<Rightarrow> (p, Err (Fail EDESTADDRREQ ''socket is not bound to a local address''))
      | Some (Connecting _ _) \<Rightarrow> (p, Err (Fail EINVAL ''socket is connecting''))
      | Some (SockEstablished _ _) \<Rightarrow> (p, Err (Fail EINVAL ''socket is connected''))
      | None \<Rightarrow> (p, Err (Fail EBADF ''invalid queue descriptor'')))"

definition tcp_poll_accept :: "qdesc \<Rightarrow> qdesc \<Rightarrow> 'f tcp_peer \<Rightarrow> ('f tcp_peer \<times> qdesc res option) res" where
  "tcp_poll_accept qd new_qd p =
     (case map_of (tp_sockets p) qd of
        Some (Listening local) \<Rightarrow>
          (case map_of (tp_passive p) local of
             None \<Rightarrow> Panic ''sockets/local inconsistency''
           | Some passive \<Rightarrow>
             res_bind (passive_poll_accept passive) (\<lambda>(passive, r).
               let p = p\<lparr>tp_passive := AList.update local passive (tp_passive p)\<rparr>
               in case r of
                    None \<Rightarrow> Ok (p, None)
                  | Some (Err e) \<Rightarrow> Ok (p, Some (Err e))
                  | Some (Panic s) \<Rightarrow> Panic s
                  | Some (Ok cb) \<Rightarrow>
                    let key = (cb_local cb, cb_remote cb);
                        socket = SockEstablished (cb_local cb) (cb_remote cb)
                    in if map_of (tp_sockets p) new_qd \<noteq> None
                       then Panic ''duplicate queue descriptor in sockets table''
                       else if map_of (tp_established p) key \<noteq> None
                       then Panic ''duplicate queue descriptor in established sockets table''
                       else Ok (p\<lparr>tp_sockets := AList.update new_qd socket (tp_sockets p),
                                  tp_established := AList.update key cb (tp_established p)\<rparr>, Some (Ok new_qd))))
      | Some _ \<Rightarrow> Ok (p, Some (Err (Fail EOPNOTSUPP ''socket not listening'')))
      | None \<Rightarrow> Ok (p, Some (Err (Fail EBADF ''bad file descriptor''))))"

section \<open>Connecting\<close>

definition tcp_connect_local ::
    "'f open_env \<Rightarrow> qdesc \<Rightarrow> 'f tcp_peer \<Rightarrow> ephemeral_ports \<times> socket_addr res" where
  "tcp_connect_local env qd p =
     (case map_of (tp_sockets p) qd of
        Some (Inactive None) \<Rightarrow>
          (let (eph, r) = alloc_any (tp_ephemeral_ports p)
           in (eph, res_bind r (\<lambda>local_port. Ok (rt_local_ipv4_addr (te_rt (oe_tcp env)), local_port))))
      | Some (Inactive (Some local)) \<Rightarrow> (tp_ephemeral_ports p, Ok local)
      | Some (Connecting _ _) \<Rightarrow> (tp_ephemeral_ports p, Err (Fail EALREADY ''socket is connecting''))
      | Some (SockEstablished _ _) \<Rightarrow> (tp_ephemeral_ports p, Err (Fail EISCONN ''socket is connected''))
      | _ \<Rightarrow> (tp_ephemeral_ports p, Err (Fail EBADF ''invalid queue descriptor'')))"

definition tcp_connect :: "'f open_env \<Rightarrow> qdesc \<Rightarrow> socket_addr \<Rightarrow> 'f tcp_peer \<Rightarrow> 'f tcp_peer \<times> unit res" where
  "tcp_connect env qd remote p =
     (let (eph, r) = tcp_connect_local env qd p;
          p = p\<lparr>tp_ephemeral_ports := eph\<rparr>
      in case r of
           Err e \<Rightarrow> (p, Err e)
         | Panic s \<Rightarrow> (p, Panic s)
         | Ok local \<Rightarrow>
           let p = p\<lparr>tp_sockets := AList.update qd (Connecting local remote) (tp_sockets p)\<rparr>;
               (g, local_isn) = isn_generate (oe_crc env) local remote (tp_isn_generator p);
               p = p\<lparr>tp_isn_generator := g\<rparr>;
               occupied = (map_of (tp_connecting p) (local, remote) \<noteq> None);
               p = p\<lparr>tp_connecting := AList.update (local, remote) (active_new local_isn local remote) (tp_connecting p)\<rparr>
           in if occupied then (p, Err (Fail EALREADY ''socket is connecting'')) else (p, Ok ()))"

definition tcp_poll_connect_finished :: "qdesc \<Rightarrow> 'f tcp_peer \<Rightarrow> ('f tcp_peer \<times> unit res option) res" where
  "tcp_poll_connect_finished fd p =
     (case map_of (tp_sockets p) fd of
        Some (Connecting local remote) \<Rightarrow>
          (let key = (local, remote)
           in case map_of (tp_connecting p) key of
                None \<Rightarrow> Ok (p, Some (Err (Fail EAGAIN ''socket not connecting'')))
              | Some s \<Rightarrow>
                (case active_poll_result s of
                   (s, None) \<Rightarrow> Ok (p\<lparr>tp_connecting := AList.update key s (tp_connecting p)\<rparr>, None)
                 | (s, Some r) \<Rightarrow>
                   let p = p\<lparr>tp_connecting := AList.delete key (tp_connecting p)\<rparr>
                   in case r of
                        Err e \<Rightarrow> Ok (p, Some (Err e))
                      | Panic m \<Rightarrow> Panic m
                      | Ok cb \<Rightarrow>
                        if map_of (tp_established p) key \<noteq> None then Panic ''assertion failed''
                        else Ok (p\<lparr>tp_established := AList.update key cb (tp_established p),
                                   tp_sockets := AList.update fd (SockEstablished local remote) (tp_sockets p)\<rparr>,
                                 Some (Ok ()))))
      | Some _ \<Rightarrow> Ok (p, Some (Err (Fail EAGAIN ''socket not connecting'')))
      | None \<Rightarrow> Ok (p, Some (Err (Fail EBADF ''bad queue descriptor''))))"

section \<open>Established connections\<close>

definition tcp_poll_recv :: "qdesc \<Rightarrow> 'f tcp_peer \<Rightarrow> 'f tcp_peer \<times> bytes res option" where
  "tcp_poll_recv fd p =
     (case map_of (tp_sockets p) fd of
        Some (SockEstablished local remote) \<Rightarrow>
          (case map_of (tp_established p) (local, remote) of
             Some cb \<Rightarrow>
               (let (cb, r) = cb_poll_recv cb
                in (p\<lparr>tp_established := AList.update (local, remote) cb (tp_established p)\<rparr>, r))
           | None \<Rightarrow> (p, Some (Err (Fail ENOTCONN ''connection not established''))))
      | Some (Connecting _ _) \<Rightarrow> (p, Some (Err (Fail EINPROGRESS ''socket connecting'')))
      | Some (Inactive _) \<Rightarrow> (p, Some (Err (Fail EBADF ''socket inactive'')))
      | Some (Listening _) \<Rightarrow> (p, Some (Err (Fail ENOTCONN ''socket listening'')))
      | None \<Rightarrow> (p, Some (Err (Fail EBADF ''bad queue descriptor''))))"

text \<open>The lookup that the operations on an established connection share.\<close>

definition tcp_lookup :: "qdesc \<Rightarrow> 'f tcp_peer \<Rightarrow> (conn_key \<times> 'f conn_block) res" where
  "tcp_lookup fd p =
     (case map_of (tp_sockets p) fd of
        Some (SockEstablished local remote) \<Rightarrow>
          (case map_of (tp_established p) (local, remote) of
             Some cb \<Rightarrow> Ok ((local, remote), cb)
           | None \<Rightarrow> Err (Fail ENOTCONN ''connection not established''))
      | Some _ \<Rightarrow> Err (Fail ENOTCONN ''connection not established'')
      | None \<Rightarrow> Err (Fail EBADF ''bad queue descriptor''))"

definition tcp_send ::
    "'f open_env \<Rightarrow> qdesc \<Rightarrow> bytes \<Rightarrow> 'f tcp_peer \<Rightarrow> ('f tcp_peer \<times> tcp_segment list \<times> unit res) res" where
  "tcp_send env fd buf p =
     (case tcp_lookup fd p of
        Err e \<Rightarrow> Ok (p, [], Err e)
      | Panic m \<Rightarrow> Panic m
      | Ok (key, cb) \<Rightarrow>
        res_bind (cb_send (oe_tcp env) buf cb) (\<lambda>(cb', r).
          Ok (p\<lparr>tp_established := AList.update key cb' (tp_established p)\<rparr>, emitted cb cb', r)))"

text \<open>\<^verbatim>\<open>push\<close> sends at once; the future only reports the error.\<close>

definition tcp_push ::
    "'f open_env \<Rightarrow> qdesc \<Rightarrow> bytes \<Rightarrow> 'f tcp_peer \<Rightarrow> ('f tcp_peer \<times> tcp_segment list \<times> fail option) res" where
  "tcp_push env fd buf p =
     res_bind (tcp_send env fd buf p) (\<lambda>(p, out, r).
       case r of Ok _ \<Rightarrow> Ok (p, out, None) | Err e \<Rightarrow> Ok (p, out, Some e) | Panic m \<Rightarrow> Panic m)"

text \<open>The entry of the descriptor is removed before anything is checked.\<close>

definition tcp_do_close ::
    "'f open_env \<Rightarrow> qdesc \<Rightarrow> 'f tcp_peer \<Rightarrow> ('f tcp_peer \<times> tcp_segment list \<times> unit res) res" where
  "tcp_do_close env qd p =
     (let removed = map_of (tp_sockets p) qd;
          p = p\<lparr>tp_sockets := AList.delete qd (tp_sockets p)\<rparr>
      in case removed of
           Some (SockEstablished local remote) \<Rightarrow>
             (case map_of (tp_established p) (local, remote) of
                Some cb \<Rightarrow>
                  res_bind (cb_close (oe_tcp env) cb) (\<lambda>(cb', r).
                    Ok (p\<lparr>tp_established := AList.update (local, remote) cb' (tp_established p)\<rparr>, emitted cb cb', r))
              | None \<Rightarrow> Ok (p, [], Err (Fail ENOTCONN ''connection not established'')))
         | Some _ \<Rightarrow> Ok (p, [], Err (Fail ENOTSUP ''close not implemented for listening sockets''))
         | None \<Rightarrow> Ok (p, [], Err (Fail EBADF ''bad queue descriptor'')))"

definition tcp_remote_mss :: "qdesc \<Rightarrow> 'f tcp_peer \<Rightarrow> nat res" where
  "tcp_remote_mss fd p = res_bind (tcp_lookup fd p) (\<lambda>(key, cb). Ok (snd_mss (cb_sender cb)))"

definition tcp_current_rto :: "'f flops \<Rightarrow> qdesc \<Rightarrow> 'f tcp_peer \<Rightarrow> nat res" where
  "tcp_current_rto F fd p = res_bind (tcp_lookup fd p) (\<lambda>(key, cb). rto_estimate F (cb_rto cb))"

definition tcp_endpoints :: "qdesc \<Rightarrow> 'f tcp_peer \<Rightarrow> (socket_addr \<times> socket_addr) res" where
  "tcp_endpoints fd p = res_bind (tcp_lookup fd p) (\<lambda>(key, cb). Ok (cb_local cb, cb_remote cb))"

section \<open>Incoming segments\<close>

text \<open>\<^verbatim>\<open>Ipv4Addr::is_broadcast\<close>, \<^verbatim>\<open>is_multicast\<close> and \<^verbatim>\<open>is_unspecified\<close>.\<close>

definition ipv4_is_broadcast :: "ipv4_addr \<Rightarrow> bool" where "ipv4_is_broadcast a \<longleftrightarrow> a = 0xFFFFFFFF"
definition ipv4_is_multicast :: "ipv4_addr \<Rightarrow> bool" where "ipv4_is_multicast a \<longleftrightarrow> drop_bit 28 a = 0xE"
definition ipv4_is_unspecified :: "ipv4_addr \<Rightarrow> bool" where "ipv4_is_unspecified a \<longleftrightarrow> a = 0"

definition tcp_send_rst :: "'f open_env \<Rightarrow> socket_addr \<Rightarrow> socket_addr \<Rightarrow> tcp_segment list \<times> unit res" where
  "tcp_send_rst env local remote =
     (case te_arp (oe_tcp env) (fst remote) of
        None \<Rightarrow> ([], Err (Fail EINVAL ''detination not in ARP cache''))
      | Some remote_link_addr \<Rightarrow>
          ([open_segment env local remote remote_link_addr
              ((tcp_header_new (snd local) (snd remote))\<lparr>tcp_rst := True\<rparr>)], Ok ()))"

text \<open>\<open>None\<close>: the routine of an established connection does not return.\<close>

definition tcp_dispatch ::
    "'f open_env \<Rightarrow> ipv4_header \<Rightarrow> tcp_header \<Rightarrow> bytes \<Rightarrow> 'f tcp_peer \<Rightarrow>
     ('f tcp_peer \<times> tcp_segment list \<times> unit res) res option" where
  "tcp_dispatch env ip_hdr tcp_hdr data p =
     (let local = (ip_dst_addr ip_hdr, tcp_dst_port tcp_hdr);
          remote = (ip_src_addr ip_hdr, tcp_src_port tcp_hdr)
      in if ipv4_is_broadcast (fst remote) \<or> ipv4_is_multicast (fst remote) \<or> ipv4_is_unspecified (fst remote)
         then Some (Ok (p, [], Err (Fail EINVAL ''invalid address type'')))
      else
      let key = (local, remote)
      in case map_of (tp_established p) key of
           Some cb \<Rightarrow>
             (case cb_receive (oe_tcp env) tcp_hdr data cb of
                None \<Rightarrow> None
              | Some (Ok cb') \<Rightarrow>
                  Some (Ok (p\<lparr>tp_established := AList.update key cb' (tp_established p)\<rparr>, emitted cb cb', Ok ()))
              | Some (Err e) \<Rightarrow> Some (Ok (p, [], Ok ()))
              | Some (Panic m) \<Rightarrow> Some (Panic m))
         | None \<Rightarrow>
           (case map_of (tp_connecting p) key of
              Some s \<Rightarrow>
                Some (res_bind (active_receive env tcp_hdr s) (\<lambda>(s, out).
                  Ok (p\<lparr>tp_connecting := AList.update key s (tp_connecting p)\<rparr>, out, Ok ())))
            | None \<Rightarrow>
              (case map_of (tp_passive p) local of
                 Some s \<Rightarrow>
                   Some (res_bind (passive_receive env ip_hdr tcp_hdr s) (\<lambda>(s, r).
                     Ok (p\<lparr>tp_passive := AList.update local s (tp_passive p)\<rparr>, [], r)))
               | None \<Rightarrow>
                   (let (out, r) = tcp_send_rst env local remote in Some (Ok (p, out, r))))))"

definition tcp_receive ::
    "'f open_env \<Rightarrow> ipv4_header \<Rightarrow> bytes \<Rightarrow> 'f tcp_peer \<Rightarrow> ('f tcp_peer \<times> tcp_segment list \<times> unit res) res option" where
  "tcp_receive env ip_hdr buf p =
     (case tcp_parse (te_ext (oe_tcp env)) ip_hdr buf (cfg_rx_checksum_offload (oe_cfg env)) of
        Err e \<Rightarrow> Some (Ok (p, [], Err e))
      | Panic m \<Rightarrow> Some (Panic m)
      | Ok (tcp_hdr, data) \<Rightarrow> tcp_dispatch env ip_hdr tcp_hdr data p)"

section \<open>Background tasks\<close>

text \<open>The task of a connecting socket, of a connection in flight, and of an established connection, by its table entry.\<close>

definition tcp_connecting_task ::
    "'f open_env \<Rightarrow> conn_key \<Rightarrow> hs_event \<Rightarrow> 'f tcp_peer \<Rightarrow> ('f tcp_peer \<times> tcp_segment list) res" where
  "tcp_connecting_task env key ev p =
     (case map_of (tp_connecting p) key of
        None \<Rightarrow> Ok (p, [])
      | Some s \<Rightarrow> res_bind (active_background env ev s) (\<lambda>(s, out).
          Ok (p\<lparr>tp_connecting := AList.update key s (tp_connecting p)\<rparr>, out)))"

definition tcp_passive_task ::
    "'f open_env \<Rightarrow> socket_addr \<Rightarrow> socket_addr \<Rightarrow> hs_event \<Rightarrow> 'f tcp_peer \<Rightarrow> ('f tcp_peer \<times> tcp_segment list) res" where
  "tcp_passive_task env local remote ev p =
     (case map_of (tp_passive p) local of
        None \<Rightarrow> Ok (p, [])
      | Some s \<Rightarrow> res_bind (passive_background env remote ev s) (\<lambda>(s, out).
          Ok (p\<lparr>tp_passive := AList.update local s (tp_passive p)\<rparr>, out)))"

end
