(* ===== verification/Icmpv4_Peer.thy ===== *)
theory Icmpv4_Peer
  imports Icmpv4_Header Arp_Peer
begin

text \<open>
  \<^verbatim>\<open>src/src/protocols/icmpv4/peer.rs\<close>: echo requests and replies.  The unbounded channel to the background
  task is the list of its messages; a one-shot channel is a numbered cell, as in the ARP peer.  The future of
  \<^verbatim>\<open>ping\<close> is cut at its two suspension points.  The process identifier and the random nonce are arguments.
\<close>

record icmpv4_peer =
  ic_tx :: "(ipv4_addr \<times> u16 \<times> u16) list"
  ic_requests :: "((u16 \<times> u16) \<times> nat) list"
  ic_done :: "nat list"
  ic_next_cell :: nat
  ic_seq :: u16

definition icmpv4_peer_new :: icmpv4_peer where
  "icmpv4_peer_new = \<lparr>ic_tx = [], ic_requests = [], ic_done = [], ic_next_cell = 0, ic_seq = 0\<rparr>"

text \<open>\<^verbatim>\<open>ReqQueue::insert\<close> and \<^verbatim>\<open>remove\<close>: what was there before is returned.\<close>

definition req_insert :: "u16 \<times> u16 \<Rightarrow> nat \<Rightarrow> icmpv4_peer \<Rightarrow> icmpv4_peer \<times> nat option" where
  "req_insert req tx p = (p\<lparr>ic_requests := AList.update req tx (ic_requests p)\<rparr>, map_of (ic_requests p) req)"

definition req_remove :: "u16 \<times> u16 \<Rightarrow> icmpv4_peer \<Rightarrow> icmpv4_peer \<times> nat option" where
  "req_remove req p = (p\<lparr>ic_requests := AList.delete req (ic_requests p)\<rparr>, map_of (ic_requests p) req)"

text \<open>The background task: take the next request, and reply once its link address is known.\<close>

definition icmpv4_background_take :: "icmpv4_peer \<Rightarrow> icmpv4_peer \<times> (ipv4_addr \<times> u16 \<times> u16) option" where
  "icmpv4_background_take p =
     (case ic_tx p of [] \<Rightarrow> (p, None) | x # q \<Rightarrow> (p\<lparr>ic_tx := q\<rparr>, Some x))"

definition icmpv4_background_reply ::
    "rt_addrs \<Rightarrow> ipv4_addr \<times> u16 \<times> u16 \<Rightarrow> mac_address res \<Rightarrow> icmpv4_message list" where
  "icmpv4_background_reply rt req link =
     (case (req, link) of
        ((dst_ipv4_addr, ident, seq_num), Ok dst_link_addr) \<Rightarrow>
          [\<lparr>im_ethernet2_hdr = ethernet2_new dst_link_addr (rt_local_link_addr rt) Ipv4,
            im_ipv4_hdr = ipv4_new (rt_local_ipv4_addr rt) dst_ipv4_addr ICMPv4,
            im_icmpv4_hdr = icmpv4_header_new (EchoReply ident seq_num) 0\<rparr>]
      | _ \<Rightarrow> [])"

definition icmpv4_receive :: "ext \<Rightarrow> ipv4_header \<Rightarrow> bytes \<Rightarrow> icmpv4_peer \<Rightarrow> icmpv4_peer \<times> unit res" where
  "icmpv4_receive E ipv4_header buf p =
     (case icmpv4_parse E buf of
        Err e \<Rightarrow> (p, Err e)
      | Panic s \<Rightarrow> (p, Panic s)
      | Ok (icmpv4_hdr, _) \<Rightarrow>
        (case icmp_protocol icmpv4_hdr of
           EchoRequest ident seq_num \<Rightarrow> (p\<lparr>ic_tx := ic_tx p @ [(ip_src_addr ipv4_header, ident, seq_num)]\<rparr>, Ok ())
         | EchoReply ident seq_num \<Rightarrow>
             (case req_remove (ident, seq_num) p of
                (p, Some tx) \<Rightarrow> (p\<lparr>ic_done := tx # ic_done p\<rparr>, Ok ())
              | (p, None) \<Rightarrow> (p, Ok ()))
         | _ \<Rightarrow> (p, Ok ())))"

definition icmpv4_make_id :: "ext \<Rightarrow> rt_addrs \<Rightarrow> u32 \<Rightarrow> bytes \<Rightarrow> u16" where
  "icmpv4_make_id E rt pid nonce =
     (let state = (0xFFFF :: u32);
          addr_octets = ipv4_octets (rt_local_ipv4_addr rt);
          state = state + ucast (read_u16 E (bslice 0 2 addr_octets));
          state = state + ucast (read_u16 E (bslice 2 4 addr_octets));
          pid_buf = write_u32 E pid;
          state = state + ucast (read_u16 E (bslice 0 2 pid_buf));
          state = state + ucast (read_u16 E (bslice 2 4 pid_buf));
          state = state + ucast (read_u16 E nonce)
      in finish_sum state)"

definition icmpv4_make_seq_num :: "icmpv4_peer \<Rightarrow> icmpv4_peer \<times> u16" where
  "icmpv4_make_seq_num p = (p\<lparr>ic_seq := ic_seq p + 1\<rparr>, ic_seq p)"

text \<open>
  \<^verbatim>\<open>ping\<close>: \<open>PingArp\<close> waits for the link address, \<open>PingWaiting\<close> for the reply or the timer; the number is the
  time of the first poll.
\<close>

datatype icmpv4_ping = PingArp ipv4_addr u16 u16 nat | PingWaiting nat nat | PingDone "nat res"

definition icmpv4_ping_start ::
    "ext \<Rightarrow> rt_addrs \<Rightarrow> u32 \<Rightarrow> bytes \<Rightarrow> nat \<Rightarrow> ipv4_addr \<Rightarrow> icmpv4_peer \<Rightarrow> icmpv4_peer \<times> icmpv4_ping" where
  "icmpv4_ping_start E rt pid nonce now dst_ipv4_addr p =
     (let ident = icmpv4_make_id E rt pid nonce;
          (p, seq_num) = icmpv4_make_seq_num p
      in (p, PingArp dst_ipv4_addr ident seq_num now))"

definition icmpv4_echo_request :: "rt_addrs \<Rightarrow> mac_address \<Rightarrow> ipv4_addr \<Rightarrow> u16 \<Rightarrow> u16 \<Rightarrow> icmpv4_message" where
  "icmpv4_echo_request rt dst_link_addr dst_ipv4_addr ident seq_num =
     \<lparr>im_ethernet2_hdr = ethernet2_new dst_link_addr (rt_local_link_addr rt) Ipv4,
      im_ipv4_hdr = ipv4_new (rt_local_ipv4_addr rt) dst_ipv4_addr ICMPv4,
      im_icmpv4_hdr = icmpv4_header_new (EchoRequest ident seq_num) 0\<rparr>"

definition icmpv4_ping_resolved ::
    "rt_addrs \<Rightarrow> mac_address res \<Rightarrow> icmpv4_ping \<Rightarrow> icmpv4_peer \<Rightarrow> (icmpv4_peer \<times> icmpv4_message list \<times> icmpv4_ping) res" where
  "icmpv4_ping_resolved rt link q p =
     (case q of
        PingArp dst_ipv4_addr ident seq_num t0 \<Rightarrow>
          (case link of
             Err e \<Rightarrow> Ok (p, [], PingDone (Err e))
           | Panic s \<Rightarrow> Panic s
           | Ok dst_link_addr \<Rightarrow>
             let msg = icmpv4_echo_request rt dst_link_addr dst_ipv4_addr ident seq_num;
                 tx = ic_next_cell p;
                 p = p\<lparr>ic_next_cell := Suc tx\<rparr>
             in case req_insert (ident, seq_num) tx p of
                  (p, None) \<Rightarrow> Ok (p, [msg], PingWaiting tx t0)
                | (p, Some _) \<Rightarrow> Panic ''assertion failed'')
      | _ \<Rightarrow> Ok (p, [], q))"

text \<open>
  One poll of the wait: the reply, the timer, or whichever \<^verbatim>\<open>select!\<close> picks; the request stays in the table
  when the timer wins.
\<close>

definition icmpv4_ping_poll :: "bool \<Rightarrow> bool \<Rightarrow> nat \<Rightarrow> icmpv4_peer \<Rightarrow> icmpv4_ping \<Rightarrow> icmpv4_ping" where
  "icmpv4_ping_poll timer pick now p q =
     (case q of
        PingWaiting rx t0 \<Rightarrow>
          if rx \<in> set (ic_done p) \<and> \<not> (timer \<and> pick) then PingDone (Ok (now - t0))
          else if timer then PingDone (Err (Fail ETIMEDOUT ''timer expired''))
          else q
      | _ \<Rightarrow> q)"

section \<open>Properties\<close>

definition icmpv4_ok :: "icmpv4_peer \<Rightarrow> bool" where
  "icmpv4_ok p \<longleftrightarrow> (\<forall>(k, n) \<in> set (ic_requests p). n < ic_next_cell p) \<and> (\<forall>n \<in> set (ic_done p). n < ic_next_cell p)"

lemma icmpv4_receive_no_panic: "\<not> is_panic (snd (icmpv4_receive E ip buf p))"
  using icmpv4_parse_no_panic [of E buf]
  by (auto simp: icmpv4_receive_def split: res.splits prod.splits icmpv4_type2.splits option.splits)

definition icmpv4_message_wf :: "icmpv4_message \<Rightarrow> bool" where
  "icmpv4_message_wf m \<longleftrightarrow> eth_wf (im_ethernet2_hdr m) \<and> ipv4_wf (im_ipv4_hdr m) (replicate 8 0)"

text \<open>A message on the wire and back.\<close>

context extern
begin

lemma icmpv4_message_roundtrip:
  assumes wf: "icmpv4_message_wf m" and b: "length b = icmpv4_message_header_size m"
  shows "\<exists>bs q ip' t. icmpv4_message_write_header E m b = Ok bs \<and>
     ethernet2_parse E bs = Ok (im_ethernet2_hdr m, q) \<and> ipv4_parse E q = Ok (ip', t) \<and>
     ip_src_addr ip' = ip_src_addr (im_ipv4_hdr m) \<and> ip_dst_addr ip' = ip_dst_addr (im_ipv4_hdr m) \<and>
     ip_proto ip' = ip_proto (im_ipv4_hdr m) \<and> icmpv4_parse E t = Ok (im_icmpv4_hdr m, [])"
proof -
  have len: "length b = 14 + 20 + 8"
    using b by (simp add: icmpv4_message_header_size_def ethernet2_compute_size_def ipv4_compute_size_def
        ETHERNET2_HEADER_SIZE_def IPV4_HEADER_MIN_SIZE_def ICMPV4_HEADER_SIZE_def)
  obtain x where x: "icmpv4_serialize E (im_icmpv4_hdr m) (bslice (14 + 20) (14 + 20 + 8) b) = Ok x" "length x = 8"
    "icmpv4_parse E x = Ok (im_icmpv4_hdr m, [])"
    using icmpv4_codec [of "bslice (14 + 20) (14 + 20 + 8) b" "im_icmpv4_hdr m"] len by auto
  have "ipv4_wf (im_ipv4_hdr m) x" using wf x(2) by (simp add: icmpv4_message_wf_def ipv4_wf_def)
  from ipv4_codec [OF this, of "bslice 14 (14 + 20) b"] len x(2) obtain y c where
    y: "ipv4_serialize E (im_ipv4_hdr m) (bslice 14 (14 + 20) b) 8 = Ok y" "length y = 20"
    "ipv4_parse E (y @ x) = Ok ((im_ipv4_hdr m)\<lparr>ip_total_length := 20 + of_nat (length x), ip_header_checksum := c\<rparr>, x)"
    by auto
  obtain z where z: "ethernet2_serialize E (im_ethernet2_hdr m) (bslice 0 14 b) = Ok z" "length z = 14"
    "ethernet2_parse E (z @ y @ x) = Ok (im_ethernet2_hdr m, y @ x)"
    using ethernet2_codec [of "im_ethernet2_hdr m" "bslice 0 14 b" "y @ x"] wf len
    by (auto simp: icmpv4_message_wf_def)
  have "icmpv4_message_write_header E m b = Ok (z @ y @ x)"
    unfolding icmpv4_message_write_header_def ethernet2_compute_size_def ipv4_compute_size_def
      ETHERNET2_HEADER_SIZE_def IPV4_HEADER_MIN_SIZE_def ICMPV4_HEADER_SIZE_def Let_def
    by (rule on_slice_fill3) (use len x y z in simp_all)
  then show ?thesis using z(3) y(3) x(3) by fastforce
qed

end

lemma icmpv4_receive_request:
  "icmpv4_parse E t = Ok (icmpv4_header_new (EchoRequest ident seq) c, rest) \<Longrightarrow>
   icmpv4_receive E ip t p = (p\<lparr>ic_tx := ic_tx p @ [(ip_src_addr ip, ident, seq)]\<rparr>, Ok ())"
  by (simp add: icmpv4_receive_def icmpv4_header_new_def)

lemma icmpv4_receive_reply:
  "icmpv4_parse E t = Ok (icmpv4_header_new (EchoReply ident seq) c, rest) \<Longrightarrow> map_of (ic_requests p) (ident, seq) = Some tx \<Longrightarrow>
   icmpv4_receive E ip t p = (p\<lparr>ic_requests := AList.delete (ident, seq) (ic_requests p), ic_done := tx # ic_done p\<rparr>, Ok ())"
  by (simp add: icmpv4_receive_def icmpv4_header_new_def req_remove_def)

lemma echo_wf:
  assumes "length mac = 6" "length (rt_local_link_addr rt) = 6"
  shows "icmpv4_message_wf (icmpv4_echo_request rt mac dst i s)"
    and "\<forall>m \<in> set (icmpv4_background_reply rt (dst, i, s) (Ok mac)). icmpv4_message_wf m"
  using assms
  by (simp_all add: icmpv4_message_wf_def icmpv4_echo_request_def icmpv4_background_reply_def eth_wf_def ethernet2_new_def
      ipv4_wf_def ipv4_new_def)

end
