(* ===== verification/Inet_Stack.thy ===== *)
theory Inet_Stack
  imports Tcp_Peer Icmpv4_Peer
begin

text \<open>
  \<^verbatim>\<open>src/src/lib.rs\<close>, \<^verbatim>\<open>src/src/protocols/peer.rs\<close>, \<^verbatim>\<open>src/src/operations.rs\<close> and the operation types of
  \<^verbatim>\<open>src/src/protocols/tcp/operations.rs\<close>, \<^verbatim>\<open>udp/futures/operation.rs\<close> and \<^verbatim>\<open>futures/operation/mod.rs\<close>: the
  stack as the application sees it, and the way of a frame from the Ethernet parser to the protocol that
  handles it.

  The table of queue descriptors is the \<^verbatim>\<open>IoQueueTable\<close> of the crate \<^verbatim>\<open>runtime\<close>: the record \<open>file_ops\<close> of its
  three operations, with what is documented of them as the locale \<open>io_queue_table\<close>.  An operation that the source
  hands to the scheduler is returned as a value; \<open>done\<close> holds its result once the scheduler has polled it to
  an end.
\<close>

section \<open>Queue descriptors\<close>

text \<open>\<open>OtherQueue\<close>: any other \<^verbatim>\<open>QType\<close>, and a number that is none.\<close>

datatype qtype = TcpSocket | UdpSocket | OtherQueue

record 't file_ops =
  ft_alloc :: "qtype \<Rightarrow> 't \<Rightarrow> 't \<times> qdesc"
  ft_get :: "'t \<Rightarrow> qdesc \<Rightarrow> qtype option"
  ft_free :: "qdesc \<Rightarrow> 't \<Rightarrow> 't"

locale io_queue_table =
  fixes T :: "'t file_ops"
  assumes alloc_unused: "ft_alloc T q t = (t', qd) \<Longrightarrow> ft_get T t qd = None"
    and alloc_get: "ft_alloc T q t = (t', qd) \<Longrightarrow> ft_get T t' = (ft_get T t)(qd \<mapsto> q)"
    and free_get: "ft_get T (ft_free T qd t) = (ft_get T t)(qd := None)"
begin

lemma alloc_twice: "ft_alloc T q t = (t', qd) \<Longrightarrow> ft_alloc T q' t' = (t'', qd') \<Longrightarrow> qd \<noteq> qd'"
  using alloc_get [of q t t' qd] alloc_unused [of q' t' t'' qd'] by auto

lemma alloc_free: "ft_alloc T q t = (t', qd) \<Longrightarrow> ft_get T (ft_free T qd t') = ft_get T t"
  using alloc_get [of q t t' qd] alloc_unused [of q t t' qd] by (simp add: free_get fun_upd_idem)

end

text \<open>An executable table that does what is documented.\<close>

fun unused_qd :: "(qdesc \<times> qtype) list \<Rightarrow> qdesc" where
  "unused_qd [] = 0"
| "unused_qd ((k, v) # al) = max (Suc k) (unused_qd al)"

definition documented_files :: "(qdesc \<times> qtype) list file_ops" where
  "documented_files = \<lparr>
     ft_alloc = (\<lambda>q t. (AList.update (unused_qd t) q t, unused_qd t)),
     ft_get = map_of,
     ft_free = AList.delete\<rparr>"

lemma unused_qd_above: "k \<in> fst ` set al \<Longrightarrow> k < unused_qd al"
  by (induction al rule: unused_qd.induct) (force simp: less_max_iff_disj)+

interpretation files: io_queue_table documented_files
proof
  fix q :: qtype and t t' and qd :: qdesc
  show "ft_get documented_files t qd = None" if "ft_alloc documented_files q t = (t', qd)"
    using that unused_qd_above [of qd t] by (auto simp: documented_files_def map_of_eq_None_iff)
  show "ft_get documented_files t' = (ft_get documented_files t)(qd \<mapsto> q)" if "ft_alloc documented_files q t = (t', qd)"
    using that by (auto simp: documented_files_def update_conv')
  show "ft_get documented_files (ft_free documented_files qd t) = (ft_get documented_files t)(qd := None)"
    by (simp add: documented_files_def delete_conv')
qed

section \<open>Operations and their results\<close>

datatype operation_result =
    ResConnect
  | ResAccept qdesc
  | ResPush
  | ResPop "socket_addr option" bytes
  | ResFailed fail

datatype tcp_operation =
    TcpAccept qdesc qdesc "qdesc res option"
  | TcpConnect qdesc "unit res option"
  | TcpPop qdesc "bytes res option"
  | TcpPush qdesc "fail option" "unit res option"

text \<open>\<^verbatim>\<open>expect_result\<close>: the descriptor, the one reserved for an accepted connection, and the result.\<close>

fun tcp_expect_result :: "tcp_operation \<Rightarrow> (qdesc \<times> qdesc option \<times> operation_result) res" where
  "tcp_expect_result (TcpConnect fd (Some (Ok _))) = Ok (fd, None, ResConnect)"
| "tcp_expect_result (TcpConnect fd (Some (Err e))) = Ok (fd, None, ResFailed e)"
| "tcp_expect_result (TcpAccept qd new_qd (Some (Ok x))) = Ok (qd, Some new_qd, ResAccept x)"
| "tcp_expect_result (TcpAccept qd new_qd (Some (Err e))) = Ok (qd, Some new_qd, ResFailed e)"
| "tcp_expect_result (TcpPush fd err (Some (Ok _))) = Ok (fd, None, ResPush)"
| "tcp_expect_result (TcpPush fd err (Some (Err e))) = Ok (fd, None, ResFailed e)"
| "tcp_expect_result (TcpPop fd (Some (Ok b))) = Ok (fd, None, ResPop None b)"
| "tcp_expect_result (TcpPop fd (Some (Err e))) = Ok (fd, None, ResFailed e)"
| "tcp_expect_result _ = Panic ''Future not ready''"

text \<open>\<^verbatim>\<open>PushFuture::poll\<close>: ready at once, with the error that \<^verbatim>\<open>push\<close> met.\<close>

definition push_future_poll :: "fail option \<Rightarrow> unit res" where
  "push_future_poll err = (case err of None \<Rightarrow> Ok () | Some e \<Rightarrow> Err e)"

datatype udp_operation =
    UdpPushto qdesc "unit res"
  | UdpPop qdesc nat "(socket_addr \<times> bytes) res option"

fun udp_get_result :: "udp_operation \<Rightarrow> (qdesc \<times> operation_result) res" where
  "udp_get_result (UdpPushto fd (Ok _)) = Ok (fd, ResPush)"
| "udp_get_result (UdpPushto fd (Err e)) = Ok (fd, ResFailed e)"
| "udp_get_result (UdpPop qd r (Some (Ok (addr, b)))) = Ok (qd, ResPop (Some addr) b)"
| "udp_get_result (UdpPop qd r (Some (Err e))) = Ok (qd, ResFailed e)"
| "udp_get_result _ = Panic ''UDP Operation not ready''"

datatype future_operation = FoTcp tcp_operation | FoUdp udp_operation | FoBackground

section \<open>The IPv4 layer\<close>

text \<open>What the stack puts on the wire.\<close>

datatype packet =
    ArpPacket arp_message
  | TcpPacket tcp_segment
  | UdpPacket udp_datagram
  | Icmpv4Packet icmpv4_message

record ('f, 'c) ipv4_peer =
  pe_icmpv4 :: icmpv4_peer
  pe_tcp :: "'f tcp_peer"
  pe_udp :: "'c udp_peer"

record ('f, 'c, 't) inet_stack =
  st_arp :: arp_peer
  st_ipv4 :: "('f, 'c) ipv4_peer"
  st_file_table :: 't
  st_ts_iters :: nat

text \<open>
  The environment of a host: that of its TCP connections, the channel behind the UDP queues and the
  descriptor table.  The ARP lookup of the first is the state of the ARP peer.
\<close>

record ('f, 'c, 't) host_env =
  he_open :: "'f open_env"
  he_chan :: "('c, slot) chan"
  he_files :: "'t file_ops"

definition host_ext :: "('f, 'c, 't) host_env \<Rightarrow> ext" where
  "host_ext env = te_ext (oe_tcp (he_open env))"

definition host_rt :: "('f, 'c, 't) host_env \<Rightarrow> rt_addrs" where
  "host_rt env = te_rt (oe_tcp (he_open env))"

definition host_open :: "('f, 'c, 't) host_env \<Rightarrow> arp_peer \<Rightarrow> 'f open_env" where
  "host_open env arp = (he_open env)\<lparr>oe_tcp := (oe_tcp (he_open env))\<lparr>te_arp := arp_try_query arp\<rparr>\<rparr>"

definition ipv4_peer_new ::
    "('c, slot) chan \<Rightarrow> (u16 list \<Rightarrow> u16 list) \<Rightarrow> u32 \<Rightarrow> rt_addrs \<Rightarrow> bool \<Rightarrow> ('f, 'c) ipv4_peer" where
  "ipv4_peer_new C shuffle nonce rt udp_offload_checksum =
     \<lparr>pe_icmpv4 = icmpv4_peer_new, pe_tcp = tcp_peer_new shuffle nonce,
      pe_udp = udp_peer_new C shuffle (rt_local_link_addr rt) (rt_local_ipv4_addr rt) udp_offload_checksum\<rparr>"

definition ipv4_peer_receive ::
    "('f, 'c, 't) host_env \<Rightarrow> arp_peer \<Rightarrow> bytes \<Rightarrow> ('f, 'c) ipv4_peer \<Rightarrow>
     (('f, 'c) ipv4_peer \<times> packet list \<times> unit res) res option" where
  "ipv4_peer_receive env arp buf p =
     (case ipv4_parse (host_ext env) buf of
        Err e \<Rightarrow> Some (Ok (p, [], Err e))
      | Panic s \<Rightarrow> Some (Panic s)
      | Ok (header, payload) \<Rightarrow>
        if ip_dst_addr header \<noteq> rt_local_ipv4_addr (host_rt env) \<and> \<not> ipv4_is_broadcast (ip_dst_addr header)
        then Some (Ok (p, [], Err (Fail ENOTCONN ''invalid destination address'')))
        else case ip_proto header of
          ICMPv4 \<Rightarrow>
            (case icmpv4_receive (host_ext env) header payload (pe_icmpv4 p) of
               (q, Panic s) \<Rightarrow> Some (Panic s)
             | (q, r) \<Rightarrow> Some (Ok (p\<lparr>pe_icmpv4 := q\<rparr>, [], r)))
        | TCP \<Rightarrow>
            map_option (\<lambda>x. res_bind x (\<lambda>(q, out, r). Ok (p\<lparr>pe_tcp := q\<rparr>, map TcpPacket out, r)))
              (tcp_receive (host_open env arp) header payload (pe_tcp p))
        | UDP \<Rightarrow>
            (case udp_do_receive (host_ext env) (he_chan env) header payload (pe_udp p) of
               None \<Rightarrow> None
             | Some (q, Panic s) \<Rightarrow> Some (Panic s)
             | Some (q, r) \<Rightarrow> Some (Ok (p\<lparr>pe_udp := q\<rparr>, [], r))))"

section \<open>The stack\<close>

definition inet_stack_new ::
    "('f, 'c, 't) host_env \<Rightarrow> (u16 list \<Rightarrow> u16 list) \<Rightarrow> u32 \<Rightarrow> 't \<Rightarrow> nat \<Rightarrow> nat \<Rightarrow>
     (ipv4_addr \<times> mac_address) list \<Rightarrow> bool \<Rightarrow> nat \<Rightarrow> bool \<Rightarrow> ('f, 'c, 't) inet_stack res" where
  "inet_stack_new env shuffle nonce file_table now cache_ttl initial_values disable_arp retry_count udp_offload =
     res_bind (arp_peer_new now cache_ttl initial_values disable_arp retry_count) (\<lambda>arp.
       Ok \<lparr>st_arp = arp, st_ipv4 = ipv4_peer_new (he_chan env) shuffle nonce (host_rt env) udp_offload,
           st_file_table = file_table, st_ts_iters = 0\<rparr>)"

definition inet_do_receive ::
    "('f, 'c, 't) host_env \<Rightarrow> bytes \<Rightarrow> ('f, 'c, 't) inet_stack \<Rightarrow>
     (('f, 'c, 't) inet_stack \<times> packet list \<times> unit res) res option" where
  "inet_do_receive env frame s =
     (case ethernet2_parse (host_ext env) frame of
        Err e \<Rightarrow> Some (Ok (s, [], Err e))
      | Panic m \<Rightarrow> Some (Panic m)
      | Ok (header, payload) \<Rightarrow>
        (case eth_ether_type header of
           Arp \<Rightarrow>
             Some (res_bind (arp_receive (host_ext env) (host_rt env) payload (st_arp s)) (\<lambda>(a, out, r).
               Ok (s\<lparr>st_arp := a\<rparr>, map ArpPacket out, r)))
         | Ipv4 \<Rightarrow>
             map_option (\<lambda>x. res_bind x (\<lambda>(p, out, r). Ok (s\<lparr>st_ipv4 := p\<rparr>, out, r)))
               (ipv4_peer_receive env (st_arp s) payload (st_ipv4 s))
         | Ipv6 \<Rightarrow> Some (Ok (s, [], Ok ()))))"

section \<open>The calls of the application\<close>

text \<open>\<^verbatim>\<open>AF_INET\<close>, \<^verbatim>\<open>SOCK_STREAM\<close> and \<^verbatim>\<open>SOCK_DGRAM\<close> of \<^verbatim>\<open>libc\<close> on Linux.\<close>

definition AF_INET :: int where "AF_INET = 2"
definition SOCK_STREAM :: int where "SOCK_STREAM = 1"
definition SOCK_DGRAM :: int where "SOCK_DGRAM = 2"

definition set_tcp :: "'f tcp_peer \<Rightarrow> ('f, 'c, 't) inet_stack \<Rightarrow> ('f, 'c, 't) inet_stack" where
  "set_tcp p s = s\<lparr>st_ipv4 := (st_ipv4 s)\<lparr>pe_tcp := p\<rparr>\<rparr>"

definition set_udp :: "'c udp_peer \<Rightarrow> ('f, 'c, 't) inet_stack \<Rightarrow> ('f, 'c, 't) inet_stack" where
  "set_udp p s = s\<lparr>st_ipv4 := (st_ipv4 s)\<lparr>pe_udp := p\<rparr>\<rparr>"

abbreviation tcp_of :: "('f, 'c, 't) inet_stack \<Rightarrow> 'f tcp_peer" where
  "tcp_of s \<equiv> pe_tcp (st_ipv4 s)"

abbreviation udp_of :: "('f, 'c, 't) inet_stack \<Rightarrow> 'c udp_peer" where
  "udp_of s \<equiv> pe_udp (st_ipv4 s)"

definition bad_qtype :: "'a res" where "bad_qtype = Err (Fail EINVAL ''invalid queue type'')"
definition bad_qdesc :: "'a res" where "bad_qdesc = Err (Fail EBADF ''bad queue descriptor'')"

definition inet_socket ::
    "('f, 'c, 't) host_env \<Rightarrow> int \<Rightarrow> int \<Rightarrow> ('f, 'c, 't) inet_stack \<Rightarrow> ('f, 'c, 't) inet_stack \<times> qdesc res" where
  "inet_socket env domain socket_type s =
     (if domain \<noteq> AF_INET then (s, Err (Fail ENOTSUP ''address family not supported''))
      else if socket_type = SOCK_STREAM then
        (let (t, qd) = ft_alloc (he_files env) TcpSocket (st_file_table s);
             s = s\<lparr>st_file_table := t\<rparr>;
             (p, r) = tcp_do_socket qd (tcp_of s);
             s = set_tcp p s
         in case r of
              Err e \<Rightarrow> (s\<lparr>st_file_table := ft_free (he_files env) qd t\<rparr>, Err e)
            | Panic m \<Rightarrow> (s, Panic m)
            | Ok _ \<Rightarrow> (s, Ok qd))
      else if socket_type = SOCK_DGRAM then
        (let (t, qd) = ft_alloc (he_files env) UdpSocket (st_file_table s);
             s = s\<lparr>st_file_table := t\<rparr>;
             (p, r) = udp_do_socket qd (udp_of s);
             s = set_udp p s
         in case r of
              Err e \<Rightarrow> (s\<lparr>st_file_table := ft_free (he_files env) qd t\<rparr>, Err e)
            | Panic m \<Rightarrow> (s, Panic m)
            | Ok _ \<Rightarrow> (s, Ok qd))
      else (s, Err (Fail ENOTSUP ''socket type not supported'')))"

definition inet_bind ::
    "('f, 'c, 't) host_env \<Rightarrow> qdesc \<Rightarrow> socket_addr \<Rightarrow> ('f, 'c, 't) inet_stack \<Rightarrow> ('f, 'c, 't) inet_stack \<times> unit res" where
  "inet_bind env qd local s =
     (case ft_get (he_files env) (st_file_table s) qd of
        Some TcpSocket \<Rightarrow> (let (p, r) = tcp_bind qd local (tcp_of s) in (set_tcp p s, r))
      | Some UdpSocket \<Rightarrow> (let (p, r) = udp_do_bind (he_chan env) qd local (udp_of s) in (set_udp p s, r))
      | Some OtherQueue \<Rightarrow> (s, bad_qtype)
      | None \<Rightarrow> (s, bad_qdesc))"

definition inet_listen ::
    "('f, 'c, 't) host_env \<Rightarrow> u32 \<Rightarrow> qdesc \<Rightarrow> nat \<Rightarrow> ('f, 'c, 't) inet_stack \<Rightarrow> ('f, 'c, 't) inet_stack \<times> unit res" where
  "inet_listen env nonce qd backlog s =
     (if backlog = 0 then (s, Err (Fail EINVAL ''invalid backlog length''))
      else case ft_get (he_files env) (st_file_table s) qd of
        Some TcpSocket \<Rightarrow> (let (p, r) = tcp_listen nonce qd backlog (tcp_of s) in (set_tcp p s, r))
      | Some _ \<Rightarrow> (s, bad_qtype)
      | None \<Rightarrow> (s, bad_qdesc))"

definition inet_accept ::
    "('f, 'c, 't) host_env \<Rightarrow> qdesc \<Rightarrow> ('f, 'c, 't) inet_stack \<Rightarrow> ('f, 'c, 't) inet_stack \<times> future_operation res" where
  "inet_accept env qd s =
     (case ft_get (he_files env) (st_file_table s) qd of
        Some TcpSocket \<Rightarrow>
          (let (t, new_qd) = ft_alloc (he_files env) TcpSocket (st_file_table s)
           in (s\<lparr>st_file_table := t\<rparr>, Ok (FoTcp (TcpAccept qd new_qd None))))
      | Some _ \<Rightarrow> (s, bad_qtype)
      | None \<Rightarrow> (s, bad_qdesc))"

definition inet_connect ::
    "('f, 'c, 't) host_env \<Rightarrow> qdesc \<Rightarrow> socket_addr \<Rightarrow> ('f, 'c, 't) inet_stack \<Rightarrow> ('f, 'c, 't) inet_stack \<times> future_operation res" where
  "inet_connect env qd remote s =
     (case ft_get (he_files env) (st_file_table s) qd of
        Some TcpSocket \<Rightarrow>
          (let (p, r) = tcp_connect (host_open env (st_arp s)) qd remote (tcp_of s)
           in (set_tcp p s, res_bind r (\<lambda>_. Ok (FoTcp (TcpConnect qd None)))))
      | Some _ \<Rightarrow> (s, bad_qtype)
      | None \<Rightarrow> (s, bad_qdesc))"

text \<open>The descriptor is freed only when the protocol has closed its socket without an error.\<close>

definition inet_close ::
    "('f, 'c, 't) host_env \<Rightarrow> qdesc \<Rightarrow> ('f, 'c, 't) inet_stack \<Rightarrow> (('f, 'c, 't) inet_stack \<times> packet list \<times> unit res) res" where
  "inet_close env qd s =
     res_bind
       (case ft_get (he_files env) (st_file_table s) qd of
          Some TcpSocket \<Rightarrow>
            res_bind (tcp_do_close (host_open env (st_arp s)) qd (tcp_of s)) (\<lambda>(p, out, r).
              Ok (set_tcp p s, map TcpPacket out, r))
        | Some UdpSocket \<Rightarrow> (let (p, r) = udp_do_close qd (udp_of s) in Ok (set_udp p s, [], r))
        | Some OtherQueue \<Rightarrow> Ok (s, [], bad_qtype)
        | None \<Rightarrow> Ok (s, [], bad_qdesc))
       (\<lambda>(s, out, r).
          case r of
            Ok _ \<Rightarrow> Ok (s\<lparr>st_file_table := ft_free (he_files env) qd (st_file_table s)\<rparr>, out, Ok ())
          | _ \<Rightarrow> Ok (s, out, r))"

definition inet_do_push ::
    "('f, 'c, 't) host_env \<Rightarrow> qdesc \<Rightarrow> bytes \<Rightarrow> ('f, 'c, 't) inet_stack \<Rightarrow>
     (('f, 'c, 't) inet_stack \<times> packet list \<times> future_operation res) res" where
  "inet_do_push env qd buf s =
     (case ft_get (he_files env) (st_file_table s) qd of
        Some TcpSocket \<Rightarrow>
          res_bind (tcp_push (host_open env (st_arp s)) qd buf (tcp_of s)) (\<lambda>(p, out, err).
            Ok (set_tcp p s, map TcpPacket out, Ok (FoTcp (TcpPush qd err None))))
      | Some _ \<Rightarrow> Ok (s, [], bad_qtype)
      | None \<Rightarrow> Ok (s, [], bad_qdesc))"

definition inet_push2 ::
    "('f, 'c, 't) host_env \<Rightarrow> qdesc \<Rightarrow> bytes \<Rightarrow> ('f, 'c, 't) inet_stack \<Rightarrow>
     (('f, 'c, 't) inet_stack \<times> packet list \<times> future_operation res) res" where
  "inet_push2 env qd data s =
     (if data = [] then Ok (s, [], Err (Fail EINVAL ''zero-length buffer'')) else inet_do_push env qd data s)"

definition inet_do_pushto ::
    "('f, 'c, 't) host_env \<Rightarrow> qdesc \<Rightarrow> bytes \<Rightarrow> socket_addr \<Rightarrow> ('f, 'c, 't) inet_stack \<Rightarrow>
     (('f, 'c, 't) inet_stack \<times> packet list \<times> future_operation res) option" where
  "inet_do_pushto env qd buf to s =
     (case ft_get (he_files env) (st_file_table s) qd of
        Some UdpSocket \<Rightarrow>
          map_option (\<lambda>(p, out, r). (set_udp p s, map UdpPacket out, Ok (FoUdp (UdpPushto qd r))))
            (udp_do_pushto (he_chan env) (arp_try_query (st_arp s)) qd buf to (udp_of s))
      | Some _ \<Rightarrow> Some (s, [], bad_qtype)
      | None \<Rightarrow> Some (s, [], bad_qdesc))"

definition inet_pushto2 ::
    "('f, 'c, 't) host_env \<Rightarrow> qdesc \<Rightarrow> bytes \<Rightarrow> socket_addr \<Rightarrow> ('f, 'c, 't) inet_stack \<Rightarrow>
     (('f, 'c, 't) inet_stack \<times> packet list \<times> future_operation res) option" where
  "inet_pushto2 env qd data remote s =
     (if data = [] then Some (s, [], Err (Fail EINVAL ''zero-length buffer'')) else inet_do_pushto env qd data remote s)"

definition inet_pop ::
    "('f, 'c, 't) host_env \<Rightarrow> qdesc \<Rightarrow> ('f, 'c, 't) inet_stack \<Rightarrow> future_operation res" where
  "inet_pop env qd s =
     (case ft_get (he_files env) (st_file_table s) qd of
        Some TcpSocket \<Rightarrow> Ok (FoTcp (TcpPop qd None))
      | Some UdpSocket \<Rightarrow> res_bind (udp_do_pop qd (udp_of s)) (\<lambda>r. Ok (FoUdp (UdpPop qd r None)))
      | Some OtherQueue \<Rightarrow> bad_qtype
      | None \<Rightarrow> bad_qdesc)"

text \<open>A failed accept gives back the descriptor that was reserved for it.\<close>

definition inet_take_operation ::
    "('f, 'c, 't) host_env \<Rightarrow> future_operation \<Rightarrow> ('f, 'c, 't) inet_stack \<Rightarrow>
     (('f, 'c, 't) inet_stack \<times> qdesc \<times> operation_result) res" where
  "inet_take_operation env fo s =
     (case fo of
        FoTcp f \<Rightarrow>
          res_bind (tcp_expect_result f) (\<lambda>(qd, new_qd, qr).
            let s = (case new_qd of
                       Some q \<Rightarrow>
                         (case qr of
                            ResFailed _ \<Rightarrow> s\<lparr>st_file_table := ft_free (he_files env) q (st_file_table s)\<rparr>
                          | _ \<Rightarrow> s)
                     | None \<Rightarrow> s)
            in Ok (s, qd, qr))
      | FoUdp f \<Rightarrow> res_bind (udp_get_result f) (\<lambda>(qd, qr). Ok (s, qd, qr))
      | FoBackground \<Rightarrow> Panic ''`take_operation` attempted on background task!'')"

end
