(* ===== verification/Tcp_Tables.thy ===== *)
theory Tcp_Tables
  imports Tcp_Peer Tcp_States
begin

text \<open>
  The invariant of the TCP peer's tables.  It says that the sockets and the tables of listening,
  connecting and established connections agree, and it is what the assertions and the \<^verbatim>\<open>expect\<close> in
  \<^verbatim>\<open>peer.rs\<close> rely on.  The conditions are stated on the tables as maps; the lemmas of the first two sections
  are the moves on maps from which those on the operations follow.
\<close>

section \<open>Who owns an address\<close>

text \<open>A socket made by \<^verbatim>\<open>accept\<close> shares the address of its listener; every other socket owns its address.\<close>

fun socket_owns :: "socket \<Rightarrow> socket_addr option" where
  "socket_owns (SockEstablished local remote) = None"
| "socket_owns s = socket_local s"

definition owners_ok :: "(qdesc \<Rightarrow> socket option) \<Rightarrow> u16 set \<Rightarrow> bool" where
  "owners_ok S avail \<longleftrightarrow>
     (\<forall>qd s l. S qd = Some s \<longrightarrow> socket_local s = Some l \<longrightarrow> snd l \<notin> avail) \<and>
     (\<forall>qd qd' s s' l. S qd = Some s \<longrightarrow> S qd' = Some s' \<longrightarrow> socket_owns s = Some l \<longrightarrow> socket_owns s' = Some l \<longrightarrow> qd = qd')"

lemma socket_owns_local: "socket_owns s = Some l \<Longrightarrow> socket_local s = Some l"
  by (cases s) simp_all

lemma owners_ok_port: "owners_ok S avail \<Longrightarrow> S qd = Some s \<Longrightarrow> socket_local s = Some l \<Longrightarrow> snd l \<notin> avail"
  unfolding owners_ok_def by blast

lemma owners_ok_remove: "owners_ok S avail \<Longrightarrow> owners_ok (S(qd := None)) avail"
  unfolding owners_ok_def by (auto split: if_splits)

lemma owners_ok_same_local:
  assumes "owners_ok S avail" "S q = Some s" "socket_local s' = socket_local s" "socket_owns s' = socket_owns s \<or> socket_owns s' = None"
  shows "owners_ok (S(q \<mapsto> s')) avail"
  using assms unfolding owners_ok_def by (smt (verit, best) fun_upd_other fun_upd_same option.distinct(1) option.inject)

lemma owners_ok_unowned:
  assumes "owners_ok S avail" "socket_owns s' = None" "\<And>l. socket_local s' = Some l \<Longrightarrow> snd l \<notin> avail"
  shows "owners_ok (S(q \<mapsto> s')) avail"
  using assms unfolding owners_ok_def by (auto split: if_splits)

lemma owners_ok_claim:
  assumes "owners_ok S avail" "S q = Some (Inactive None)" "socket_local s' = Some l" "avail' = avail - {snd l}"
    and "\<And>q' s. S q' = Some s \<Longrightarrow> socket_local s \<noteq> Some l"
  shows "owners_ok (S(q \<mapsto> s')) avail'"
  using assms socket_owns_local unfolding owners_ok_def by (auto split: if_splits) blast+

section \<open>The tables of connections\<close>

text \<open>Every listening or established socket has its entry.\<close>

definition sockets_backed ::
    "(qdesc \<Rightarrow> socket option) \<Rightarrow> (socket_addr \<Rightarrow> 'p option) \<Rightarrow> (conn_key \<Rightarrow> 'e option) \<Rightarrow> bool" where
  "sockets_backed S P E \<longleftrightarrow>
     (\<forall>qd l. S qd = Some (Listening l) \<longrightarrow> P l \<noteq> None) \<and>
     (\<forall>qd l r. S qd = Some (SockEstablished l r) \<longrightarrow> E (l, r) \<noteq> None)"

definition passives_ok :: "(socket_addr \<Rightarrow> 'f passive_socket option) \<Rightarrow> bool" where
  "passives_ok P \<longleftrightarrow> (\<forall>l s. P l = Some s \<longrightarrow> passive_ok s \<and> ps_local s = l)"

text \<open>The remote ends that a listening socket has in flight or ready.\<close>

definition pending :: "'f passive_socket \<Rightarrow> socket_addr \<Rightarrow> bool" where
  "pending s r \<longleftrightarrow> r \<in> rs_endpoints (ps_ready s) \<or> map_of (ps_inflight s) r \<noteq> None"

text \<open>A connection that a socket can still accept is in no other table.\<close>

definition accept_fresh ::
    "(qdesc \<Rightarrow> socket option) \<Rightarrow> (socket_addr \<Rightarrow> 'f passive_socket option) \<Rightarrow>
     (conn_key \<Rightarrow> 'c option) \<Rightarrow> (conn_key \<Rightarrow> 'e option) \<Rightarrow> bool" where
  "accept_fresh S P C E \<longleftrightarrow>
     (\<forall>qd l s r. S qd = Some (Listening l) \<longrightarrow> P l = Some s \<longrightarrow> pending s r \<longrightarrow> C (l, r) = None \<and> E (l, r) = None)"

definition active_ok :: "(conn_key \<Rightarrow> 'e option) \<Rightarrow> conn_key \<Rightarrow> 'f active_open \<Rightarrow> bool" where
  "active_ok E k a \<longleftrightarrow> (ao_local a, ao_remote a) = k \<and>
     (case ao_result a of
        Some (Ok cb) \<Rightarrow> (cb_local cb, cb_remote cb) = k \<and> E k = None
      | Some (Panic m) \<Rightarrow> False
      | _ \<Rightarrow> True)"

lemma active_ok_cong: "(E' k = None) = (E k = None) \<Longrightarrow> active_ok E k a \<Longrightarrow> active_ok E' k a"
  by (simp add: active_ok_def split: option.splits res.splits)

definition actives_ok :: "(conn_key \<Rightarrow> 'f active_open option) \<Rightarrow> (conn_key \<Rightarrow> 'e option) \<Rightarrow> bool" where
  "actives_ok C E \<longleftrightarrow> (\<forall>k a. C k = Some a \<longrightarrow> active_ok E k a)"

definition established_ok :: "(conn_key \<Rightarrow> 'f conn_block option) \<Rightarrow> bool" where
  "established_ok E \<longleftrightarrow> (\<forall>k cb. E k = Some cb \<longrightarrow> (cb_local cb, cb_remote cb) = k)"

definition conns_ok ::
    "(qdesc \<Rightarrow> socket option) \<Rightarrow> (socket_addr \<Rightarrow> 'f passive_socket option) \<Rightarrow>
     (conn_key \<Rightarrow> 'f active_open option) \<Rightarrow> (conn_key \<Rightarrow> 'f conn_block option) \<Rightarrow> bool" where
  "conns_ok S P C E \<longleftrightarrow>
     sockets_backed S P E \<and> passives_ok P \<and> accept_fresh S P C E \<and> actives_ok C E \<and> established_ok E"

text \<open>Changes of a socket that is not, and does not become, listening or established.\<close>

definition plain_socket :: "socket option \<Rightarrow> bool" where
  "plain_socket s = (case s of Some (Listening _) \<Rightarrow> False | Some (SockEstablished _ _) \<Rightarrow> False | _ \<Rightarrow> True)"

lemma plain_socket_simps [simp]:
  "plain_socket None" "plain_socket (Some (Inactive la))" "plain_socket (Some (Connecting l r))"
  "\<not> plain_socket (Some (Listening l))" "\<not> plain_socket (Some (SockEstablished l r))"
  by (simp_all add: plain_socket_def)

lemma conns_ok_plain:
  assumes "conns_ok S P C E" "plain_socket s"
  shows "conns_ok (S(q := s)) P C E"
proof -
  have old: "S qd = Some t" if "(S(q := s)) qd = Some t" "\<not> plain_socket (Some t)" for qd t
    using that assms(2) by (cases "qd = q") auto
  have "sockets_backed (S(q := s)) P E"
    using assms(1) old unfolding conns_ok_def sockets_backed_def by (metis plain_socket_simps(4,5))
  moreover have "accept_fresh (S(q := s)) P C E"
    using assms(1) old unfolding conns_ok_def accept_fresh_def by (metis plain_socket_simps(4))
  ultimately show ?thesis using assms(1) by (simp add: conns_ok_def)
qed

lemma conns_ok_listen:
  assumes "conns_ok S P C E" "P l = None" "passive_ok s" "ps_local s = l" "\<And>r. \<not> pending s r"
  shows "conns_ok (S(q \<mapsto> Listening l)) (P(l \<mapsto> s)) C E"
proof -
  have "sockets_backed (S(q \<mapsto> Listening l)) (P(l \<mapsto> s)) E"
    using assms(1) unfolding conns_ok_def sockets_backed_def by (simp add: fun_upd_apply)
  moreover have "passives_ok (P(l \<mapsto> s))"
    using assms(1,3,4) unfolding conns_ok_def passives_ok_def by (simp add: fun_upd_apply)
  moreover have "accept_fresh (S(q \<mapsto> Listening l)) (P(l \<mapsto> s)) C E"
    using assms(1,5) unfolding conns_ok_def accept_fresh_def by (metis fun_upd_apply option.inject socket.inject(2))
  ultimately show ?thesis using assms(1) by (simp add: conns_ok_def)
qed

text \<open>A listening socket loses entries, or gains one for a key that is in neither of the other tables.\<close>

lemma conns_ok_passive:
  assumes "conns_ok S P C E" "P l = Some s" "passive_ok s'" "ps_local s' = l"
    and "\<And>r. pending s' r \<Longrightarrow> pending s r \<or> C (l, r) = None \<and> E (l, r) = None"
  shows "conns_ok S (P(l \<mapsto> s')) C E"
proof -
  have "sockets_backed S (P(l \<mapsto> s')) E"
    using assms(1) unfolding conns_ok_def sockets_backed_def by (simp add: fun_upd_apply)
  moreover have "passives_ok (P(l \<mapsto> s'))"
    using assms(1,3,4) unfolding conns_ok_def passives_ok_def by (simp add: fun_upd_apply)
  moreover have "accept_fresh S (P(l \<mapsto> s')) C E"
    using assms(1,2,5) unfolding conns_ok_def accept_fresh_def by (metis fun_upd_apply option.inject)
  ultimately show ?thesis using assms(1) by (simp add: conns_ok_def)
qed

lemma conns_ok_connecting:
  assumes "conns_ok S P C E" "active_ok E k a" "C k = None \<Longrightarrow> \<forall>qd. S qd \<noteq> Some (Listening (fst k))"
  shows "conns_ok S P (C(k \<mapsto> a)) E"
proof -
  have "actives_ok (C(k \<mapsto> a)) E"
    using assms(1,2) unfolding conns_ok_def actives_ok_def by (simp add: fun_upd_apply)
  moreover have "accept_fresh S P (C(k \<mapsto> a)) E"
    using assms(1,3) unfolding conns_ok_def accept_fresh_def by (metis fst_conv fun_upd_apply option.distinct(1))
  ultimately show ?thesis using assms(1) by (simp add: conns_ok_def)
qed

lemma conns_ok_drop_connecting: "conns_ok S P C E \<Longrightarrow> conns_ok S P (C(k := None)) E"
  unfolding conns_ok_def accept_fresh_def actives_ok_def by (simp add: fun_upd_apply)

text \<open>A connection becomes established for a key that is in neither table, or was connecting.\<close>

lemma conns_ok_established:
  assumes "conns_ok S P C E" "(cb_local cb, cb_remote cb) = (l, r)" "C (l, r) = None"
    and "\<And>qd s. S qd = Some (Listening l) \<Longrightarrow> P l = Some s \<Longrightarrow> \<not> pending s r"
  shows "conns_ok (S(q \<mapsto> SockEstablished l r)) P C (E((l, r) \<mapsto> cb))"
proof -
  have "sockets_backed (S(q \<mapsto> SockEstablished l r)) P (E((l, r) \<mapsto> cb))"
    using assms(1) unfolding conns_ok_def sockets_backed_def by (simp add: fun_upd_apply)
  moreover have "established_ok (E((l, r) \<mapsto> cb))"
    using assms(1,2) unfolding conns_ok_def established_ok_def by (simp add: fun_upd_apply)
  moreover have "active_ok (E((l, r) \<mapsto> cb)) k a" if "C k = Some a" for k a
  proof -
    have "k \<noteq> (l, r)" using that assms(3) by auto
    then have "((E((l, r) \<mapsto> cb)) k = None) = (E k = None)" by simp
    moreover have "active_ok E k a" using that assms(1) by (simp add: conns_ok_def actives_ok_def del: split_paired_All)
    ultimately show ?thesis by (rule active_ok_cong)
  qed
  then have "actives_ok C (E((l, r) \<mapsto> cb))" unfolding actives_ok_def by blast
  moreover have "accept_fresh (S(q \<mapsto> SockEstablished l r)) P C (E((l, r) \<mapsto> cb))"
    using assms(1,4) unfolding conns_ok_def accept_fresh_def
    by (metis fun_upd_apply option.inject prod.inject socket.distinct(9))
  ultimately show ?thesis using assms(1) by (simp add: conns_ok_def)
qed

lemma conns_ok_update_established:
  assumes "conns_ok S P C E" "E k = Some cb" "(cb_local cb', cb_remote cb') = k"
  shows "conns_ok S P C (E(k \<mapsto> cb'))"
proof -
  have dom: "(E(k \<mapsto> cb')) k' = None \<longleftrightarrow> E k' = None" for k' using assms(2) by simp
  have "sockets_backed S P (E(k \<mapsto> cb'))" "accept_fresh S P C (E(k \<mapsto> cb'))" "actives_ok C (E(k \<mapsto> cb'))"
    using assms(1) unfolding conns_ok_def sockets_backed_def accept_fresh_def actives_ok_def active_ok_def dom by blast+
  moreover have "established_ok (E(k \<mapsto> cb'))"
    using assms(1,3) unfolding conns_ok_def established_ok_def by (metis fun_upd_apply option.inject)
  ultimately show ?thesis using assms(1) by (simp add: conns_ok_def)
qed

section \<open>The invariant and the operations\<close>

definition tcp_peer_ok :: "'f tcp_peer \<Rightarrow> bool" where
  "tcp_peer_ok p \<longleftrightarrow>
     pool_ok (tp_ephemeral_ports p) \<and> set (ports (tp_ephemeral_ports p)) \<subseteq> Collect is_private \<and>
     distinct (map fst (tp_sockets p)) \<and>
     owners_ok (map_of (tp_sockets p)) (set (ports (tp_ephemeral_ports p))) \<and>
     conns_ok (map_of (tp_sockets p)) (map_of (tp_passive p)) (map_of (tp_connecting p)) (map_of (tp_established p))"

lemma tcp_peer_ok_new:
  "(\<And>xs. mset (shuffle xs) = mset xs) \<Longrightarrow> tcp_peer_ok (tcp_peer_new shuffle nonce)"
  using ephemeral_new_ports [of shuffle]
  by (auto simp: tcp_peer_ok_def tcp_peer_new_def owners_ok_def conns_ok_def sockets_backed_def passives_ok_def
      accept_fresh_def actives_ok_def established_ok_def)

lemma tcp_do_socket_ok:
  assumes "tcp_peer_ok p" "tcp_do_socket qd p = (p', r)"
  shows "tcp_peer_ok p'"
  using assms conns_ok_plain [of "map_of (tp_sockets p)" _ _ _ "Some (Inactive None)" qd]
    owners_ok_unowned [of "map_of (tp_sockets p)" _ "Inactive None" qd]
  by (auto simp: tcp_do_socket_def tcp_peer_ok_def update_conv' distinct_update split: if_splits)

lemma tcp_address_in_use_iff:
  "distinct (map fst (tp_sockets p)) \<Longrightarrow>
   tcp_address_in_use addr p \<longleftrightarrow> (\<exists>qd s. map_of (tp_sockets p) qd = Some s \<and> socket_local s = Some addr)"
  by (force simp: tcp_address_in_use_def dest: map_of_SomeD)

lemma tcp_bind_port_eq: "tcp_bind_port = udp_bind_port"
proof (intro ext)
  fix addr eph
  show "tcp_bind_port addr eph = udp_bind_port addr eph"
    using is_private_nonzero [of "snd addr"]
    by (auto simp: tcp_bind_port_def udp_bind_port_def split: prod.splits res.splits)
qed

lemma tcp_bind_cases:
  assumes ok: "tcp_peer_ok p" and "tcp_bind qd addr p = (p', r)"
  obtains (failed) e where "r = Err e" "p' = p\<lparr>tp_ephemeral_ports := tp_ephemeral_ports p'\<rparr>"
      "pool_ok (tp_ephemeral_ports p')"
      "set (ports (tp_ephemeral_ports p')) = set (ports (tp_ephemeral_ports p))"
  | (bound) a where "r = Ok ()" "map_of (tp_sockets p) qd = Some (Inactive None)"
      "p' = p\<lparr>tp_ephemeral_ports := tp_ephemeral_ports p',
              tp_sockets := AList.update qd (Inactive (Some a)) (tp_sockets p)\<rparr>"
      "pool_ok (tp_ephemeral_ports p')"
      "set (ports (tp_ephemeral_ports p')) = set (ports (tp_ephemeral_ports p)) - {snd a}"
      "\<And>q s. map_of (tp_sockets p) q = Some s \<Longrightarrow> socket_local s \<noteq> Some a"
      "snd a \<noteq> 0" "a = addr \<or> snd addr = 0 \<and> fst a = fst addr"
proof (cases "tcp_address_in_use addr p")
  case True
  with assms failed show ?thesis by (auto simp: tcp_bind_def tcp_peer_ok_def)
next
  case unused: False
  have pool: "pool_ok (tp_ephemeral_ports p)" "set (ports (tp_ephemeral_ports p)) \<subseteq> Collect is_private"
    and own: "owners_ok (map_of (tp_sockets p)) (set (ports (tp_ephemeral_ports p)))"
    and dist: "distinct (map fst (tp_sockets p))"
    using ok by (auto simp: tcp_peer_ok_def)
  show ?thesis
  proof (cases rule: udp_bind_port_cases [OF pool, of addr, case_names taken given])
    case (taken e)
    with unused assms pool failed show ?thesis by (auto simp: tcp_bind_def tcp_bind_port_eq Let_def)
  next
    case (given eph' a)
    have fresh: "socket_local s \<noteq> Some a" if "map_of (tp_sockets p) q = Some s" for q s
    proof (cases "a = addr")
      case True
      with unused that tcp_address_in_use_iff [OF dist] show ?thesis by blast
    next
      case False
      with given have "snd a \<in> set (ports (tp_ephemeral_ports p))" by blast
      with own that show ?thesis unfolding owners_ok_def by blast
    qed
    have keeps: "a = addr \<or> snd addr = 0 \<and> fst a = fst addr"
      using given(1) by (auto simp: udp_bind_port_def res_bind_Ok_iff split: if_splits prod.splits)
    show ?thesis
    proof (cases "map_of (tp_sockets p) qd = Some (Inactive None)")
      case True
      with given(1) unused assms(2) have p': "r = Ok ()"
        "p' = p\<lparr>tp_ephemeral_ports := eph', tp_sockets := AList.update qd (Inactive (Some a)) (tp_sockets p)\<rparr>"
        by (auto simp: tcp_bind_def tcp_bind_port_eq Let_def)
      from bound [OF p'(1) True _ _ _ fresh given(4) keeps] p' given(2,3) show ?thesis by simp
    next
      case False
      let ?eph = "if is_private (snd a) then free (snd a) eph' else eph'"
      have pr: "\<exists>e. r = Err e" "p' = p\<lparr>tp_ephemeral_ports := ?eph\<rparr>"
        using False given(1) unused assms(2)
        by (auto simp: tcp_bind_def tcp_bind_port_eq Let_def split: option.splits socket.splits)
      have "pool_ok ?eph \<and> set (ports ?eph) = set (ports (tp_ephemeral_ports p))"
        using ep.give_back_adds [OF given(2), of "snd a"] given(2,3,5) pool(2) by (auto simp: free_def)
      with pr failed show ?thesis by auto
    qed
  qed
qed

lemma tcp_bind_ok:
  assumes ok: "tcp_peer_ok p" and "tcp_bind qd addr p = (p', r)"
  shows "tcp_peer_ok p'"
proof (cases rule: tcp_bind_cases [OF assms, case_names failed bound])
  case (failed e)
  from ok failed(3,4) show ?thesis by (subst failed(2)) (simp add: tcp_peer_ok_def)
next
  case (bound a)
  have "owners_ok ((map_of (tp_sockets p))(qd \<mapsto> Inactive (Some a))) (set (ports (tp_ephemeral_ports p')))"
    using ok bound(2,5,6) owners_ok_claim [of "map_of (tp_sockets p)" "set (ports (tp_ephemeral_ports p))" qd "Inactive (Some a)" a]
    by (simp add: tcp_peer_ok_def)
  with ok bound(4,5) conns_ok_plain [of "map_of (tp_sockets p)" _ _ _ "Some (Inactive (Some a))" qd] show ?thesis
    by (subst bound(3)) (auto simp: tcp_peer_ok_def update_conv' distinct_update)
qed

lemma passive_new_pending: "\<not> pending (passive_new l b n) r"
  by (simp add: pending_def passive_new_def)

lemma passive_new_local: "ps_local (passive_new l b n) = l"
  by (simp add: passive_new_def)

lemma tcp_listen_ok:
  assumes "tcp_peer_ok p" "tcp_listen nonce qd backlog p = (p', r)"
  shows "tcp_peer_ok p'"
proof (cases "\<exists>l. map_of (tp_sockets p) qd = Some (Inactive (Some l)) \<and> map_of (tp_passive p) l = None")
  case True
  then obtain l where l: "map_of (tp_sockets p) qd = Some (Inactive (Some l))" "map_of (tp_passive p) l = None" by blast
  then have p': "p' = p\<lparr>tp_passive := AList.update l (passive_new l backlog nonce) (tp_passive p),
                  tp_sockets := AList.update qd (Listening l) (tp_sockets p)\<rparr>"
    using assms(2) by (auto simp: tcp_listen_def)
  have "conns_ok ((map_of (tp_sockets p))(qd \<mapsto> Listening l)) ((map_of (tp_passive p))(l \<mapsto> passive_new l backlog nonce))
      (map_of (tp_connecting p)) (map_of (tp_established p))"
    using assms(1) l(2) passive_new_pending
    by (intro conns_ok_listen) (simp_all add: tcp_peer_ok_def passive_new_ok passive_new_local)
  moreover have "owners_ok ((map_of (tp_sockets p))(qd \<mapsto> Listening l)) (set (ports (tp_ephemeral_ports p)))"
    using assms(1) l(1) by (intro owners_ok_same_local [of _ _ qd "Inactive (Some l)"]) (simp_all add: tcp_peer_ok_def)
  ultimately show ?thesis using assms(1) by (simp add: tcp_peer_ok_def p' update_conv' distinct_update)
next
  case False
  then have "p' = p" using assms(2)
    by (auto simp: tcp_listen_def split: option.splits socket.splits if_splits)
  with assms(1) show ?thesis by simp
qed

lemma pending_endpoint: "passive_ok s \<Longrightarrow> r \<in> rs_endpoints (ps_ready s) \<Longrightarrow> map_of (ps_inflight s) r = None"
  unfolding passive_ok_def map_of_eq_None_iff by blast

text \<open>What \<^verbatim>\<open>accept\<close> does on consistent tables; it panics only for a descriptor in use.\<close>

lemma tcp_poll_accept_spec:
  assumes ok: "tcp_peer_ok p" and new: "map_of (tp_sockets p) new_qd = None"
  shows "\<exists>p' r. tcp_poll_accept qd new_qd p = Ok (p', r) \<and> tcp_peer_ok p'"
proof (cases "\<exists>l. map_of (tp_sockets p) qd = Some (Listening l)")
  case False
  with ok show ?thesis by (auto simp: tcp_poll_accept_def split: option.splits socket.splits)
next
  case True
  then obtain l where l: "map_of (tp_sockets p) qd = Some (Listening l)" by blast
  have conns: "conns_ok (map_of (tp_sockets p)) (map_of (tp_passive p)) (map_of (tp_connecting p)) (map_of (tp_established p))"
    and own: "owners_ok (map_of (tp_sockets p)) (set (ports (tp_ephemeral_ports p)))"
    using ok by (auto simp: tcp_peer_ok_def)
  from l conns obtain s where s: "map_of (tp_passive p) l = Some s"
    unfolding conns_ok_def sockets_backed_def by blast
  with conns have sok: "passive_ok s" "ps_local s = l" unfolding conns_ok_def passives_ok_def by blast+
  from passive_poll_accept_ok [OF sok(1)] obtain s' x where poll: "passive_poll_accept s = Ok (s', x)" "passive_ok s'"
    "ps_local s' = l" "ps_inflight s' = ps_inflight s" using sok(2) by blast
  have shrink: "rs_endpoints (ps_ready s') \<subseteq> rs_endpoints (ps_ready s)"
    using passive_poll_accept_ok [OF sok(1)] poll(1) by (auto split: option.splits res.splits)
  let ?p = "p\<lparr>tp_passive := AList.update l s' (tp_passive p)\<rparr>"
  have conns': "conns_ok (map_of (tp_sockets p)) ((map_of (tp_passive p))(l \<mapsto> s')) (map_of (tp_connecting p)) (map_of (tp_established p))"
    using shrink poll by (intro conns_ok_passive [OF conns s]) (auto simp: pending_def)
  with ok have okp: "tcp_peer_ok ?p" by (simp add: tcp_peer_ok_def update_conv')
  show ?thesis
  proof (cases "\<exists>cb. x = Some (Ok cb)")
    case False
    with l s poll(1) okp passive_poll_accept_ok [OF sok(1)] show ?thesis
      by (auto simp: tcp_poll_accept_def split: option.splits res.splits)
  next
    case True
    then obtain cb where x: "x = Some (Ok cb)" by blast
    let ?r = "cb_remote cb"
    have cb: "cb_local cb = l" "?r \<in> rs_endpoints (ps_ready s)" "?r \<notin> rs_endpoints (ps_ready s')"
      using passive_poll_accept_ok [OF sok(1)] poll(1) x sok(2) by auto
    then have "pending s ?r" by (simp add: pending_def)
    then have none: "map_of (tp_connecting p) (l, ?r) = None" "map_of (tp_established p) (l, ?r) = None"
      using conns l s unfolding conns_ok_def accept_fresh_def by blast+
    have notp: "\<not> pending s' ?r"
      using cb(3) pending_endpoint [OF sok(1) cb(2)] poll(4) by (simp add: pending_def)
    let ?p' = "?p\<lparr>tp_sockets := AList.update new_qd (SockEstablished l ?r) (tp_sockets p),
                 tp_established := AList.update (l, ?r) cb (tp_established p)\<rparr>"
    have "tcp_poll_accept qd new_qd p = Ok (?p', Some (Ok new_qd))"
      using l s poll(1) x new none cb(1) by (simp add: tcp_poll_accept_def)
    moreover have "conns_ok ((map_of (tp_sockets p))(new_qd \<mapsto> SockEstablished l ?r)) ((map_of (tp_passive p))(l \<mapsto> s'))
        (map_of (tp_connecting p)) ((map_of (tp_established p))((l, ?r) \<mapsto> cb))"
      using none cb notp by (intro conns_ok_established [OF conns']) auto
    moreover have "owners_ok ((map_of (tp_sockets p))(new_qd \<mapsto> SockEstablished l ?r)) (set (ports (tp_ephemeral_ports p)))"
      using owners_ok_port [OF own l] by (intro owners_ok_unowned [OF own]) auto
    ultimately show ?thesis using ok by (auto simp: tcp_peer_ok_def update_conv' distinct_update)
  qed
qed

section \<open>Connecting\<close>

lemma tcp_connect_local_cases:
  assumes ok: "tcp_peer_ok p" and "tcp_connect_local env qd p = (eph, r)"
  obtains (failed) e where "r = Err e" "eph = tp_ephemeral_ports p"
  | (fresh) l where "r = Ok l" "map_of (tp_sockets p) qd = Some (Inactive None)" "pool_ok eph"
      "set (ports eph) = set (ports (tp_ephemeral_ports p)) - {snd l}" "snd l \<in> set (ports (tp_ephemeral_ports p))"
  | (bound) l where "r = Ok l" "map_of (tp_sockets p) qd = Some (Inactive (Some l))" "eph = tp_ephemeral_ports p"
proof (cases "map_of (tp_sockets p) qd = Some (Inactive None)")
  case True
  have pool: "pool_ok (tp_ephemeral_ports p)" using ok by (simp add: tcp_peer_ok_def)
  show ?thesis
  proof (cases "set (ports (tp_ephemeral_ports p)) = {}")
    case empty: True
    from ep.any_empty [OF pool empty] obtain m where "alloc_any (tp_ephemeral_ports p) = (tp_ephemeral_ports p, Err (Fail EADDRINUSE m))" ..
    with True assms(2) failed show ?thesis by (auto simp: tcp_connect_local_def)
  next
    case False
    from ep.any_takes [OF pool False] obtain p' x where "alloc_any (tp_ephemeral_ports p) = (p', Ok x)"
      "x \<in> set (ports (tp_ephemeral_ports p))" "set (ports p') = set (ports (tp_ephemeral_ports p)) - {x}" "pool_ok p'" by blast
    with True assms(2) fresh [of "(rt_local_ipv4_addr (te_rt (oe_tcp env)), x)"] show ?thesis
      by (auto simp: tcp_connect_local_def)
  qed
next
  case False
  with assms(2) failed bound show ?thesis
    by (auto simp: tcp_connect_local_def split: option.splits socket.splits)
qed

lemma tcp_connect_ok:
  assumes ok: "tcp_peer_ok p" and "tcp_connect env qd remote p = (p', r)"
  shows "tcp_peer_ok p'"
proof -
  obtain eph x where loc: "tcp_connect_local env qd p = (eph, x)" by fastforce
  have conns: "conns_ok (map_of (tp_sockets p)) (map_of (tp_passive p)) (map_of (tp_connecting p)) (map_of (tp_established p))"
    and own: "owners_ok (map_of (tp_sockets p)) (set (ports (tp_ephemeral_ports p)))"
    using ok by (auto simp: tcp_peer_ok_def)
  have goal: "tcp_peer_ok p'"
    if x: "x = Ok l" and eph: "pool_ok eph" "set (ports eph) \<subseteq> Collect is_private"
      and own': "owners_ok ((map_of (tp_sockets p))(qd \<mapsto> Connecting l remote)) (set (ports eph))" for l
  proof -
    obtain g isn where g: "isn_generate (oe_crc env) l remote (tp_isn_generator p) = (g, isn)" by fastforce
    have p': "p' = p\<lparr>tp_ephemeral_ports := eph, tp_sockets := AList.update qd (Connecting l remote) (tp_sockets p),
        tp_isn_generator := g, tp_connecting := AList.update (l, remote) (active_new isn l remote) (tp_connecting p)\<rparr>"
      using assms(2) loc x g by (auto simp: tcp_connect_def Let_def split: if_splits)
    have "\<forall>q. ((map_of (tp_sockets p))(qd \<mapsto> Connecting l remote)) q \<noteq> Some (Listening l)"
      using own' unfolding owners_ok_def
      by (metis fun_upd_same fun_upd_apply option.inject socket.distinct(7) socket_local.simps(2,3) socket_owns.simps(3,4))
    then have "conns_ok ((map_of (tp_sockets p))(qd \<mapsto> Connecting l remote)) (map_of (tp_passive p))
        ((map_of (tp_connecting p))((l, remote) \<mapsto> active_new isn l remote)) (map_of (tp_established p))"
      by (intro conns_ok_connecting conns_ok_plain [OF conns]) (simp_all add: active_ok_def active_new_def)
    with ok eph own' show ?thesis by (simp add: tcp_peer_ok_def p' update_conv' distinct_update)
  qed
  show ?thesis
  proof (cases rule: tcp_connect_local_cases [OF ok loc, case_names failed fresh bound])
    case (failed e)
    with loc assms(2) have "p' = p" by (simp add: tcp_connect_def)
    with ok show ?thesis by simp
  next
    case (fresh l)
    have "owners_ok ((map_of (tp_sockets p))(qd \<mapsto> Connecting l remote)) (set (ports eph))"
      using owners_ok_claim [OF own fresh(2), of "Connecting l remote" l "set (ports eph)"] fresh(4,5) owners_ok_port [OF own]
      by fastforce
    with goal [OF fresh(1,3)] fresh(4) ok show ?thesis by (auto simp: tcp_peer_ok_def)
  next
    case (bound l)
    have "owners_ok ((map_of (tp_sockets p))(qd \<mapsto> Connecting l remote)) (set (ports eph))"
      using owners_ok_same_local [OF own bound(2), of "Connecting l remote"] bound(3) by simp
    with goal [OF bound(1)] bound(3) ok show ?thesis by (auto simp: tcp_peer_ok_def)
  qed
qed

text \<open>What polling a connect does on consistent tables; its assertion holds.\<close>

lemma tcp_poll_connect_spec:
  assumes ok: "tcp_peer_ok p"
  shows "\<exists>p' r. tcp_poll_connect_finished fd p = Ok (p', r) \<and> tcp_peer_ok p'"
proof (cases "\<exists>l r a. map_of (tp_sockets p) fd = Some (Connecting l r) \<and> map_of (tp_connecting p) (l, r) = Some a")
  case False
  with ok show ?thesis by (auto simp: tcp_poll_connect_finished_def Let_def split: option.splits socket.splits)
next
  case True
  then obtain l r a where s: "map_of (tp_sockets p) fd = Some (Connecting l r)" and a: "map_of (tp_connecting p) (l, r) = Some a" by blast
  have conns: "conns_ok (map_of (tp_sockets p)) (map_of (tp_passive p)) (map_of (tp_connecting p)) (map_of (tp_established p))"
    and own: "owners_ok (map_of (tp_sockets p)) (set (ports (tp_ephemeral_ports p)))"
    using ok by (auto simp: tcp_peer_ok_def)
  have aok: "active_ok (map_of (tp_established p)) (l, r) a" using conns a unfolding conns_ok_def actives_ok_def by blast
  note drop = conns_ok_drop_connecting [OF conns, of "(l, r)"]
  consider (pend) "ao_result a = None" | (err) e where "ao_result a = Some (Err e)" | (opened) cb where "ao_result a = Some (Ok cb)"
    using aok unfolding active_ok_def by (auto split: option.splits res.splits)
  then show ?thesis
  proof cases
    case pend
    then have "tcp_poll_connect_finished fd p = Ok (p\<lparr>tp_connecting := AList.update (l, r) (a\<lparr>ao_result := None\<rparr>) (tp_connecting p)\<rparr>, None)"
      using s a by (simp add: tcp_poll_connect_finished_def active_poll_result_def)
    moreover have "a\<lparr>ao_result := None\<rparr> = a" using pend by simp
    moreover have "(map_of (tp_connecting p))((l, r) \<mapsto> a) = map_of (tp_connecting p)" using a by (rule fun_upd_idem)
    ultimately show ?thesis using ok by (simp add: tcp_peer_ok_def update_conv')
  next
    case err
    then have "tcp_poll_connect_finished fd p = Ok (p\<lparr>tp_connecting := AList.delete (l, r) (tp_connecting p)\<rparr>, Some (Err e))"
      using s a by (simp add: tcp_poll_connect_finished_def active_poll_result_def)
    with ok drop show ?thesis by (simp add: tcp_peer_ok_def delete_conv')
  next
    case opened
    then have cb: "(cb_local cb, cb_remote cb) = (l, r)" "map_of (tp_established p) (l, r) = None"
      using aok by (auto simp: active_ok_def)
    have "\<not> pending t r" if "map_of (tp_sockets p) q = Some (Listening l)" for q t
      using that s own unfolding owners_ok_def
      by (metis option.inject socket.distinct(7) socket_local.simps(2,3) socket_owns.simps(3,4))
    then have "conns_ok ((map_of (tp_sockets p))(fd \<mapsto> SockEstablished l r)) (map_of (tp_passive p))
        ((map_of (tp_connecting p))((l, r) := None)) ((map_of (tp_established p))((l, r) \<mapsto> cb))"
      using cb by (intro conns_ok_established [OF drop]) auto
    moreover have "owners_ok ((map_of (tp_sockets p))(fd \<mapsto> SockEstablished l r)) (set (ports (tp_ephemeral_ports p)))"
      using owners_ok_port [OF own s] by (intro owners_ok_unowned [OF own]) auto
    ultimately have "tcp_peer_ok (p\<lparr>tp_connecting := AList.delete (l, r) (tp_connecting p),
        tp_established := AList.update (l, r) cb (tp_established p),
        tp_sockets := AList.update fd (SockEstablished l r) (tp_sockets p)\<rparr>)"
      using ok by (simp add: tcp_peer_ok_def update_conv' delete_conv' distinct_update)
    moreover have "tcp_poll_connect_finished fd p = Ok (p\<lparr>tp_connecting := AList.delete (l, r) (tp_connecting p),
        tp_established := AList.update (l, r) cb (tp_established p),
        tp_sockets := AList.update fd (SockEstablished l r) (tp_sockets p)\<rparr>, Some (Ok ()))"
      using s a opened cb(2) by (simp add: tcp_poll_connect_finished_def active_poll_result_def Let_def)
    ultimately show ?thesis by blast
  qed
qed

section \<open>Established connections\<close>

definition cb_ends :: "('f, 'cc) control_block \<Rightarrow> conn_key" where
  "cb_ends cb = (cb_local cb, cb_remote cb)"

text \<open>The two ends and the receiver: what no operation of the sending side changes.\<close>

definition cb_input :: "('f, 'cc) control_block \<Rightarrow> conn_key \<times> receiver" where
  "cb_input cb = ((cb_local cb, cb_remote cb), cb_receiver cb)"

lemma input_ends: "cb_input cb' = cb_input cb \<Longrightarrow> cb_ends cb' = cb_ends cb"
  by (simp add: cb_input_def cb_ends_def)

lemma cb_input_upd [simp]:
  "cb_input (cb\<lparr>cb_sender := s\<rparr>) = cb_input cb" "cb_input (cb\<lparr>cb_cc := c\<rparr>) = cb_input cb" "cb_input (cb\<lparr>cb_rto := x\<rparr>) = cb_input cb"
  "cb_input (cb\<lparr>cb_retransmit_deadline := t\<rparr>) = cb_input cb" "cb_input (cb\<lparr>cb_user_is_done_sending := b\<rparr>) = cb_input cb"
  by (simp_all add: cb_input_def)

lemma cb_emit_input [simp]: "cb_input (cb_emit env h d m cb) = cb_input cb"
  by (simp add: cb_emit_def cb_input_def Let_def)

lemma send_immediate_input:
  assumes "send_immediate env buf mac n cb = Ok cb'"
  shows "cb_input cb' = cb_input cb"
proof -
  from assms obtain rto h where "rto_estimate (te_fl env) (cb_rto cb) = Ok rto"
    "cb_tcp_header (cb\<lparr>cb_cc := cc_on_send (te_cc env) (te_inow env) rto n (cb_cc cb)\<rparr>) = Ok h"
    unfolding send_immediate_def res_bind_Ok_iff Let_def by blast
  with assms show ?thesis unfolding send_immediate_def Let_def
    by (simp split: if_split_asm del: word_of_nat_eq_0_iff) auto
qed

lemma send_queued_input: "send_queued buf cb = (cb', r) \<Longrightarrow> cb_input cb' = cb_input cb"
  by (auto simp: send_queued_def Let_def split: if_splits)

lemma cb_send_input: "cb_send env buf cb = Ok (cb', r) \<Longrightarrow> cb_input cb' = cb_input cb"
  by (auto simp: cb_send_def Let_def res_bind_Ok_iff split: if_splits option.splits
      dest!: send_immediate_input send_queued_input)

lemma cb_close_input: "cb_close env cb = Ok (cb', r) \<Longrightarrow> cb_input cb' = cb_input cb"
proof (cases "cb_user_is_done_sending cb")
  case False
  moreover assume "cb_close env cb = Ok (cb', r)"
  ultimately obtain c q where c: "cb_send env [] cb = Ok (c, q)"
    "(case q of Ok u \<Rightarrow> Ok (c\<lparr>cb_user_is_done_sending := True\<rparr>, Ok ()) | _ \<Rightarrow> Panic ''send failed'') = Ok (cb', r)"
    by (auto simp: cb_close_def res_bind_Ok_iff)
  then have "cb_input cb' = cb_input c" by (cases q) auto
  with cb_send_input [OF c(1)] show ?thesis by simp
qed (auto simp: cb_close_def)

text \<open>A step of one of the background tasks of an established connection.\<close>

inductive conn_task :: "('f, 'cc) tcp_env \<Rightarrow> ('f, 'cc) control_block \<Rightarrow> ('f, 'cc) control_block \<Rightarrow> bool" for env where
  "bg_sender_top env cb = Ok (cb', st) \<Longrightarrow> conn_task env cb cb'"
| "bg_sender_probe env next mac cb = Ok (cb', st) \<Longrightarrow> conn_task env cb cb'"
| "bg_sender_probe_timeout env next buf mac t cb = Ok (cb', st) \<Longrightarrow> conn_task env cb cb'"
| "bg_sender_send env next win sent cwnd mac cb = Ok (cb', st) \<Longrightarrow> conn_task env cb cb'"
| "retransmitter_top env cb = Ok (cb', rt) \<Longrightarrow> conn_task env cb cb'"
| "conn_task env cb (retransmitter_timer env cb)"
| "retransmit_finish env u mac cb = Ok (cb', rt) \<Longrightarrow> conn_task env cb cb'"
| "acknowledger_timer env cb = Ok cb' \<Longrightarrow> conn_task env cb cb'"

lemma retransmit_start_input: "retransmit_start F c cb = Ok (cb', rt) \<Longrightarrow> cb_input cb' = cb_input cb"
  by (auto simp: retransmit_start_def pop_unacked_segment_def res_bind_Ok_iff Let_def
      split: list.splits retransmit_cause.splits if_splits)

lemma bg_sender_send_input:
  assumes "bg_sender_send env nxt w sent eff mac cb = Ok (cb', st)"
  shows "cb_input cb' = cb_input cb"
proof -
  from assms obtain s b where pop: "pop_unsent (te_ext env) (min (min (unat (w - sent)) (snd_mss (cb_sender cb))) (unat (eff - sent))) (cb_sender cb) = (s, Some b)"
    by (auto simp: bg_sender_send_def Let_def split: option.splits prod.splits)
  with assms obtain rto h where "rto_estimate (te_fl env) (cb_rto cb) = Ok rto"
    "cb_tcp_header (cb\<lparr>cb_sender := s, cb_cc := cc_on_send (te_cc env) (te_inow env) rto sent (cb_cc cb)\<rparr>) = Ok h"
    unfolding bg_sender_send_def Let_def by (auto simp: res_bind_Ok_iff simp del: word_of_nat_eq_0_iff)
  with assms pop show ?thesis unfolding bg_sender_send_def Let_def
    by (simp split: if_split_asm del: word_of_nat_eq_0_iff) auto
qed

lemma conn_task_input: "conn_task env cb cb' \<Longrightarrow> cb_input cb' = cb_input cb"
proof (induction rule: conn_task.induct)
  case (1 cb cb' st)
  then show ?case by (auto simp: bg_sender_top_def Let_def split: if_splits option.splits)
next
  case (2 "next" mac cb cb' st)
  then show ?case
    by (auto simp: bg_sender_probe_def Let_def res_bind_Ok_iff split: prod.splits option.splits)
next
  case (3 "next" buf mac t cb cb' st)
  then show ?case by (auto simp: bg_sender_probe_timeout_def res_bind_Ok_iff)
next
  case (4 "next" win sent cwnd mac cb cb' st)
  then show ?case by (rule bg_sender_send_input)
next
  case (5 cb cb' rt)
  then show ?case by (auto simp: retransmitter_top_def split: if_splits dest!: retransmit_start_input)
next
  case (6 cb)
  show ?case by (simp add: retransmitter_timer_def cb_input_def split: option.split)
next
  case (7 u mac cb cb' rt)
  then show ?case by (auto simp: retransmit_finish_def Let_def res_bind_Ok_iff)
next
  case (8 cb cb')
  then have "cb_fixed cb' = cb_fixed cb" "rcv_view cb' = rcv_view cb"
    by (auto simp: acknowledger_timer_def split: option.splits if_splits dest: cb_send_ack_fixed cb_send_ack_view)
  then show ?case by (simp add: cb_fixed_def rcv_view_def cb_input_def)
qed

lemmas sending_ends = cb_send_input [THEN input_ends] cb_close_input [THEN input_ends] conn_task_input [THEN input_ends]

lemma cb_poll_recv_ends: "cb_poll_recv cb = (cb', r) \<Longrightarrow> cb_ends cb' = cb_ends cb"
  by (auto simp: cb_poll_recv_def Let_def cb_ends_def split: if_splits prod.splits)

lemma cb_receive_ends: "cb_receive env h d cb = Some (Ok cb') \<Longrightarrow> cb_ends cb' = cb_ends cb"
  using cb_receive_fixed [of env h d cb cb'] by (simp add: cb_fixed_def cb_ends_def)

lemma tcp_peer_ok_update_established:
  assumes "tcp_peer_ok p" "map_of (tp_established p) k = Some cb" "cb_ends cb' = cb_ends cb"
  shows "tcp_peer_ok (p\<lparr>tp_established := AList.update k cb' (tp_established p)\<rparr>)"
proof -
  have conns: "conns_ok (map_of (tp_sockets p)) (map_of (tp_passive p)) (map_of (tp_connecting p)) (map_of (tp_established p))"
    using assms(1) by (simp add: tcp_peer_ok_def)
  then have "cb_ends cb = k" using assms(2) unfolding conns_ok_def established_ok_def cb_ends_def by blast
  with conns_ok_update_established [OF conns assms(2)] assms(1,3) show ?thesis
    by (simp add: tcp_peer_ok_def update_conv' cb_ends_def)
qed

lemma tcp_lookup_Ok: "tcp_lookup fd p = Ok (k, cb) \<Longrightarrow> map_of (tp_established p) k = Some cb"
  by (auto simp: tcp_lookup_def split: option.splits socket.splits)

lemma tcp_send_ok: "tcp_peer_ok p \<Longrightarrow> tcp_send env fd buf p = Ok (p', out, r) \<Longrightarrow> tcp_peer_ok p'"
  by (auto simp: tcp_send_def res_bind_Ok_iff split: res.splits
      intro!: tcp_peer_ok_update_established dest: tcp_lookup_Ok sending_ends)

lemma tcp_poll_recv_ok: "tcp_peer_ok p \<Longrightarrow> tcp_poll_recv fd p = (p', r) \<Longrightarrow> tcp_peer_ok p'"
  by (auto simp: tcp_poll_recv_def split: option.splits socket.splits prod.splits
      intro!: tcp_peer_ok_update_established dest: cb_poll_recv_ends)

lemma tcp_do_close_ok:
  assumes "tcp_peer_ok p" "tcp_do_close env qd p = Ok (p', out, r)"
  shows "tcp_peer_ok p'"
proof -
  let ?p = "p\<lparr>tp_sockets := AList.delete qd (tp_sockets p)\<rparr>"
  have "tcp_peer_ok ?p"
    using assms(1) by (simp add: tcp_peer_ok_def delete_conv' distinct_delete conns_ok_plain owners_ok_remove)
  with assms(2) show ?thesis
    by (auto simp: tcp_do_close_def Let_def res_bind_Ok_iff split: option.splits socket.splits dest!: sending_ends
        intro!: tcp_peer_ok_update_established [of ?p, simplified])
qed

section \<open>Segments and handshake tasks\<close>

lemma active_connection_ends:
  "active_connection env h s = Ok cb \<Longrightarrow> (cb_local cb, cb_remote cb) = (ao_local s, ao_remote s)"
  by (auto simp: active_connection_def control_block_new_def split: prod.splits option.splits if_splits)

lemma active_connection_no_err: "active_connection env h s \<noteq> Err e"
  by (auto simp: active_connection_def split: prod.splits option.splits)

lemma active_receive_cases:
  assumes "active_receive env h s = Ok (s', out)"
  shows "s' = s \<or> (\<exists>e. s' = active_set_result (Err e) s) \<or>
    (\<exists>cb. active_connection env h s = Ok cb \<and> s' = active_set_result (Ok cb) s)"
proof (cases "tcp_ack h \<and> tcp_ack_num h = seq_add (ao_local_isn s) 1 \<and> \<not> tcp_rst h \<and> tcp_syn h")
  case False
  with assms show ?thesis unfolding active_receive_def Let_def by (simp split: if_split_asm) blast+
next
  case True
  with assms show ?thesis unfolding active_receive_def Let_def
    by (cases "te_arp (oe_tcp env) (fst (ao_remote s))"; cases "active_connection env h s") simp_all
qed

lemma active_receive_ok:
  assumes "active_ok E k s" "E k = None" "active_receive env h s = Ok (s', out)"
  shows "active_ok E k s'"
proof -
  from assms(3) consider "s' = s" | e where "s' = active_set_result (Err e) s"
    | cb where "active_connection env h s = Ok cb" "s' = active_set_result (Ok cb) s"
    using active_receive_cases by blast
  then show ?thesis
  proof cases
    case (3 cb)
    with active_connection_ends [OF 3(1)] assms(1,2) show ?thesis by (simp add: active_ok_def active_set_result_def)
  qed (use assms(1) in \<open>simp_all add: active_ok_def active_set_result_def\<close>)
qed

lemma active_background_ok:
  assumes "active_ok E k s" "active_background env ev s = Ok (s', out)"
  shows "active_ok E k s'"
proof -
  from assms(2) have "(ao_local s', ao_remote s') = (ao_local s, ao_remote s) \<and>
      (ao_result s' = ao_result s \<or> ao_result s' = Some (Err handshake_timeout))"
    by (auto simp: active_background_def res_bind_Ok_iff Let_def)
  with assms(1) show ?thesis by (auto simp: active_ok_def)
qed

lemma passive_receive_pending:
  assumes "passive_receive env ip h s = Ok (s', r)" "pending s' x"
  shows "pending s x \<or> x = (ip_src_addr ip, tcp_src_port h)"
  using assms(1)
proof (cases rule: passive_receive_cases)
  case same
  with assms(2) show ?thesis by simp
next
  case (ready ia cb)
  from assms(2) passive_connection_ends [OF ready(4)] show ?thesis unfolding ready(7)
    by (auto simp: pending_def delete_conv' split: if_splits)
next
  case (new ia g)
  from assms(2) show ?thesis unfolding new(9) by (auto simp: pending_def update_conv' split: if_splits)
qed

lemma passive_receive_local: "passive_receive env ip h s = Ok (s', r) \<Longrightarrow> ps_local s' = ps_local s"
  by (erule passive_receive_cases) auto

lemma passive_background_pending:
  assumes "passive_background env remote ev s = Ok (s', out)"
  shows "pending s' x = pending s x" "ps_local s' = ps_local s"
  using passive_background_cases [OF assms, of "pending s' x = pending s x"]
    passive_background_cases [OF assms, of "ps_local s' = ps_local s"]
  by (auto simp: pending_def update_conv' ready_push_err_def split: if_splits)

lemma tcp_peer_ok_update_passive:
  assumes ok: "tcp_peer_ok p" and s: "map_of (tp_passive p) l = Some s" and s': "passive_ok s'" "ps_local s' = l"
    and "\<And>r. pending s' r \<Longrightarrow> pending s r \<or> map_of (tp_connecting p) (l, r) = None \<and> map_of (tp_established p) (l, r) = None"
  shows "tcp_peer_ok (p\<lparr>tp_passive := AList.update l s' (tp_passive p)\<rparr>)"
proof -
  have "conns_ok (map_of (tp_sockets p)) ((map_of (tp_passive p))(l \<mapsto> s')) (map_of (tp_connecting p)) (map_of (tp_established p))"
    using ok s s' assms(5) by (intro conns_ok_passive) (auto simp: tcp_peer_ok_def)
  with ok show ?thesis by (simp add: tcp_peer_ok_def update_conv')
qed

lemma tcp_peer_ok_update_connecting:
  assumes ok: "tcp_peer_ok p" and "map_of (tp_connecting p) k = Some s" "active_ok (map_of (tp_established p)) k s'"
  shows "tcp_peer_ok (p\<lparr>tp_connecting := AList.update k s' (tp_connecting p)\<rparr>)"
proof -
  have "conns_ok (map_of (tp_sockets p)) (map_of (tp_passive p)) ((map_of (tp_connecting p))(k \<mapsto> s')) (map_of (tp_established p))"
    using assms by (intro conns_ok_connecting) (auto simp: tcp_peer_ok_def)
  with ok show ?thesis by (simp add: tcp_peer_ok_def update_conv')
qed

lemma tcp_peer_ok_active:
  "tcp_peer_ok p \<Longrightarrow> map_of (tp_connecting p) k = Some s \<Longrightarrow> active_ok (map_of (tp_established p)) k s"
  unfolding tcp_peer_ok_def conns_ok_def actives_ok_def by blast

lemma tcp_peer_ok_passive:
  "tcp_peer_ok p \<Longrightarrow> map_of (tp_passive p) l = Some s \<Longrightarrow> passive_ok s \<and> ps_local s = l"
  unfolding tcp_peer_ok_def conns_ok_def passives_ok_def by blast

lemma tcp_dispatch_ok:
  assumes ok: "tcp_peer_ok p" and rcv: "tcp_dispatch env ip h d p = Some (Ok (p', out, r))"
  shows "tcp_peer_ok p'"
proof -
  let ?l = "(ip_dst_addr ip, tcp_dst_port h)" and ?r = "(ip_src_addr ip, tcp_src_port h)"
  show ?thesis
  proof (cases "map_of (tp_established p) (?l, ?r)")
    case (Some cb)
    with rcv ok show ?thesis
      by (auto simp: tcp_dispatch_def Let_def split: if_splits option.splits res.splits
          intro!: tcp_peer_ok_update_established dest: cb_receive_ends)
  next
    case est: None
    show ?thesis
    proof (cases "map_of (tp_connecting p) (?l, ?r)")
      case (Some s)
      with rcv ok est show ?thesis
        by (auto simp: tcp_dispatch_def Let_def res_bind_Ok_iff split: if_splits
            intro!: tcp_peer_ok_update_connecting active_receive_ok [OF tcp_peer_ok_active [OF ok Some]])
    next
      case con: None
      show ?thesis
      proof (cases "map_of (tp_passive p) ?l")
        case None
        with rcv est con ok show ?thesis by (auto simp: tcp_dispatch_def Let_def split: if_splits prod.splits)
      next
        case (Some s)
        have sok: "passive_ok s" "ps_local s = ?l" using tcp_peer_ok_passive [OF ok Some] by auto
        from rcv est con Some consider "p' = p" | s' where "passive_receive env ip h s = Ok (s', r)"
          "p' = p\<lparr>tp_passive := AList.update ?l s' (tp_passive p)\<rparr>"
          by (auto simp: tcp_dispatch_def Let_def res_bind_Ok_iff split: if_splits)
        then show ?thesis
        proof cases
          case 2
          have "ps_local s' = ?l" using passive_receive_local [OF 2(1)] sok(2) by simp
          moreover have "pending s x \<or> map_of (tp_connecting p) (?l, x) = None \<and> map_of (tp_established p) (?l, x) = None"
            if "pending s' x" for x
            using passive_receive_pending [OF 2(1) that] est con by metis
          ultimately show ?thesis
            unfolding 2(2) using passive_receive_ok [OF sok(1) 2(1)] by (intro tcp_peer_ok_update_passive [OF ok Some])
        qed (use ok in simp)
      qed
    qed
  qed
qed

lemma tcp_receive_ok: "tcp_peer_ok p \<Longrightarrow> tcp_receive env ip buf p = Some (Ok (p', out, r)) \<Longrightarrow> tcp_peer_ok p'"
  by (auto simp: tcp_receive_def split: res.splits dest: tcp_dispatch_ok)

lemma tcp_connecting_task_ok: "tcp_peer_ok p \<Longrightarrow> tcp_connecting_task env k ev p = Ok (p', out) \<Longrightarrow> tcp_peer_ok p'"
  by (auto simp: tcp_connecting_task_def res_bind_Ok_iff split: option.splits
      intro!: tcp_peer_ok_update_connecting intro: active_background_ok tcp_peer_ok_active)

lemma tcp_passive_task_ok:
  assumes "tcp_peer_ok p" "tcp_passive_task env l remote ev p = Ok (p', out)"
  shows "tcp_peer_ok p'"
proof (cases "map_of (tp_passive p) l")
  case (Some s)
  with assms(2) obtain s' where s': "passive_background env remote ev s = Ok (s', out)"
    "p' = p\<lparr>tp_passive := AList.update l s' (tp_passive p)\<rparr>"
    by (auto simp: tcp_passive_task_def res_bind_Ok_iff)
  with tcp_peer_ok_passive [OF assms(1) Some] passive_background_ok [OF _ s'(1)] passive_background_pending [OF s'(1)] show ?thesis
    unfolding s'(2) by (intro tcp_peer_ok_update_passive [OF assms(1) Some]) auto
qed (use assms in \<open>simp add: tcp_passive_task_def\<close>)

section \<open>Reachable states\<close>

text \<open>
  Everything that can happen to a TCP peer; the stack hands \<^verbatim>\<open>accept\<close> a descriptor that is not in use.
\<close>

inductive tcp_step :: "'f tcp_peer \<Rightarrow> 'f tcp_peer \<Rightarrow> bool" where
  step_socket: "tcp_do_socket qd p = (p', r) \<Longrightarrow> tcp_step p p'"
| step_bind: "tcp_bind qd addr p = (p', r) \<Longrightarrow> tcp_step p p'"
| step_listen: "tcp_listen nonce qd backlog p = (p', r) \<Longrightarrow> tcp_step p p'"
| step_accept: "tcp_poll_accept qd new_qd p = Ok (p', x) \<Longrightarrow> map_of (tp_sockets p) new_qd = None \<Longrightarrow> tcp_step p p'"
| step_connect: "tcp_connect env qd remote p = (p', r) \<Longrightarrow> tcp_step p p'"
| step_connected: "tcp_poll_connect_finished qd p = Ok (p', x) \<Longrightarrow> tcp_step p p'"
| step_recv: "tcp_poll_recv qd p = (p', y) \<Longrightarrow> tcp_step p p'"
| step_send: "tcp_send env qd buf p = Ok (p', out, r) \<Longrightarrow> tcp_step p p'"
| step_close: "tcp_do_close env qd p = Ok (p', out, r) \<Longrightarrow> tcp_step p p'"
| step_segment: "tcp_receive env ip buf p = Some (Ok (p', out, r)) \<Longrightarrow> tcp_step p p'"
| step_connecting: "tcp_connecting_task env k ev p = Ok (p', out) \<Longrightarrow> tcp_step p p'"
| step_passive: "tcp_passive_task env l remote ev p = Ok (p', out) \<Longrightarrow> tcp_step p p'"
| step_background: "map_of (tp_established p) k = Some cb \<Longrightarrow> conn_task env cb cb' \<Longrightarrow>
    tcp_step p (p\<lparr>tp_established := AList.update k cb' (tp_established p)\<rparr>)"

inductive tcp_reach :: "'f tcp_peer \<Rightarrow> 'f tcp_peer \<Rightarrow> bool" for p0 where
  tcp_start: "tcp_reach p0 p0"
| tcp_next: "tcp_reach p0 p \<Longrightarrow> tcp_step p p' \<Longrightarrow> tcp_reach p0 p'"

lemma tcp_step_ok: "tcp_step p p' \<Longrightarrow> tcp_peer_ok p \<Longrightarrow> tcp_peer_ok p'"
proof (induction rule: tcp_step.induct)
  case (step_accept qd new_qd p p' x)
  then show ?case using tcp_poll_accept_spec [of p new_qd qd] by auto
next
  case (step_connected qd p p' x)
  then show ?case using tcp_poll_connect_spec [of p qd] by auto
qed (blast intro: tcp_do_socket_ok tcp_bind_ok tcp_listen_ok tcp_connect_ok tcp_poll_recv_ok tcp_send_ok tcp_do_close_ok
    tcp_receive_ok tcp_connecting_task_ok tcp_passive_task_ok tcp_peer_ok_update_established sending_ends)+

lemma tcp_reach_ok: "tcp_reach p0 p \<Longrightarrow> tcp_peer_ok p0 \<Longrightarrow> tcp_peer_ok p"
  by (induction rule: tcp_reach.induct) (auto intro: tcp_step_ok)

end
