(* ===== verification/Stack_Lemmas.thy ===== *)
theory Stack_Lemmas
  imports Inet_Stack Tcp_Tables
begin

text \<open>
  Lemmas that cross the layers of the stack: what a host does with a frame that carries a TCP segment, and the four
  stages of a connection between two hosts, each from the state of one host before to the state after.
\<close>

section \<open>Frames between hosts\<close>

text \<open>The bytes that the runtime puts on the wire for a segment: its headers, written into a buffer of their size, and its data.\<close>

definition tcp_frame :: "ext \<Rightarrow> tcp_segment \<Rightarrow> bytes res" where
  "tcp_frame E s = res_bind (tcp_segment_write_header E s (replicate (tcp_segment_header_size s) 0)) (\<lambda>bs. Ok (bs @ ts_data s))"

text \<open>A step of a handshake task on a host.\<close>

definition host_connecting_task ::
    "('f, 'c, 't) host_env \<Rightarrow> conn_key \<Rightarrow> hs_event \<Rightarrow> ('f, 'c, 't) inet_stack \<Rightarrow> (('f, 'c, 't) inet_stack \<times> tcp_segment list) res" where
  "host_connecting_task env key ev s =
     res_bind (tcp_connecting_task (host_open env (st_arp s)) key ev (tcp_of s)) (\<lambda>(p, out). Ok (set_tcp p s, out))"

definition host_passive_task ::
    "('f, 'c, 't) host_env \<Rightarrow> socket_addr \<Rightarrow> socket_addr \<Rightarrow> hs_event \<Rightarrow> ('f, 'c, 't) inet_stack \<Rightarrow> (('f, 'c, 't) inet_stack \<times> tcp_segment list) res" where
  "host_passive_task env local remote ev s =
     res_bind (tcp_passive_task (host_open env (st_arp s)) local remote ev (tcp_of s)) (\<lambda>(p, out). Ok (set_tcp p s, out))"

definition unicast :: "ipv4_addr \<Rightarrow> bool" where
  "unicast a \<longleftrightarrow> \<not> ipv4_is_broadcast a \<and> \<not> ipv4_is_multicast a \<and> \<not> ipv4_is_unspecified a"

lemma host_open_simps [simp]:
  "oe_cfg (host_open env arp) = oe_cfg (he_open env)" "oe_crc (host_open env arp) = oe_crc (he_open env)"
  "oe_fallback_mss (host_open env arp) = oe_fallback_mss (he_open env)"
  "te_arp (oe_tcp (host_open env arp)) = arp_try_query arp" "te_ext (oe_tcp (host_open env arp)) = host_ext env"
  "te_rt (oe_tcp (host_open env arp)) = host_rt env"
  by (simp_all add: host_open_def host_ext_def host_rt_def)

lemma set_tcp_simps [simp]:
  "st_arp (set_tcp p s) = st_arp s" "tcp_of (set_tcp p s) = p" "udp_of (set_tcp p s) = udp_of s"
  "st_file_table (set_tcp p s) = st_file_table s" "set_tcp p (set_tcp q s) = set_tcp p s"
  by (simp_all add: set_tcp_def)

text \<open>A frame that carries a segment for this host reaches the dispatch of the TCP peer with the header that was sent.\<close>

lemma inet_receives_segment:
  assumes "extern (host_ext env)" "tcp_segment_wf s" "ts_tx_checksum_offload s \<longrightarrow> cfg_rx_checksum_offload (oe_cfg (he_open env))"
    and "eth_ether_type (ts_ethernet2_hdr s) = Ipv4" "ip_proto (ts_ipv4_hdr s) = TCP"
    and "ip_dst_addr (ts_ipv4_hdr s) = rt_local_ipv4_addr (host_rt env)"
  obtains fr ip where "tcp_frame (host_ext env) s = Ok fr" "ip_src_addr ip = ip_src_addr (ts_ipv4_hdr s)"
    "ip_dst_addr ip = ip_dst_addr (ts_ipv4_hdr s)"
    "\<And>h. inet_do_receive env fr h =
       map_option (\<lambda>x. res_bind x (\<lambda>(q, out, r). Ok (set_tcp q h, map TcpPacket out, r)))
         (tcp_dispatch (host_open env (st_arp h)) ip (tcp_norm (ts_tcp_hdr s)) (ts_data s) (tcp_of h))"
proof -
  from extern.tcp_segment_roundtrip [OF assms(1,2), of "replicate (tcp_segment_header_size s) 0" "cfg_rx_checksum_offload (oe_cfg (he_open env))"] assms(3)
  obtain bs q ip t where w: "tcp_segment_write_header (host_ext env) s (replicate (tcp_segment_header_size s) 0) = Ok bs"
    "ethernet2_parse (host_ext env) (bs @ ts_data s) = Ok (ts_ethernet2_hdr s, q)" "ipv4_parse (host_ext env) q = Ok (ip, t)"
    "ip_src_addr ip = ip_src_addr (ts_ipv4_hdr s)" "ip_dst_addr ip = ip_dst_addr (ts_ipv4_hdr s)" "ip_proto ip = ip_proto (ts_ipv4_hdr s)"
    "tcp_parse (host_ext env) ip t (cfg_rx_checksum_offload (oe_cfg (he_open env))) = Ok (tcp_norm (ts_tcp_hdr s), ts_data s)"
    by (metis length_replicate)
  have "inet_do_receive env (bs @ ts_data s) h =
       map_option (\<lambda>x. res_bind x (\<lambda>(q, out, r). Ok (set_tcp q h, map TcpPacket out, r)))
         (tcp_dispatch (host_open env (st_arp h)) ip (tcp_norm (ts_tcp_hdr s)) (ts_data s) (tcp_of h))" for h
  proof (cases "tcp_dispatch (host_open env (st_arp h)) ip (tcp_norm (ts_tcp_hdr s)) (ts_data s) (tcp_of h)")
    case (Some x)
    with w(2-) assms(4-6) show ?thesis
      by (cases x) (auto simp: inet_do_receive_def ipv4_peer_receive_def tcp_receive_def set_tcp_def split: prod.split)
  qed (use w(2-) assms(4-6) in \<open>simp add: inet_do_receive_def ipv4_peer_receive_def tcp_receive_def\<close>)
  with that [of "bs @ ts_data s" ip] w(1,4,5) show ?thesis by (simp add: tcp_frame_def)
qed

lemma no_options_wf:
  "tcp_num_options h = 0 \<Longrightarrow> tcp_option_list h = replicate 5 NoOperation \<Longrightarrow> tcp_wf h"
  by (simp add: tcp_wf_def tcp_iter_options_def tcp_compute_size_def MIN_TCP_HEADER_SIZE_def)

lemma open_segment_simps [simp]:
  "eth_ether_type (ts_ethernet2_hdr (open_segment env l r m h)) = Ipv4" "ip_proto (ts_ipv4_hdr (open_segment env l r m h)) = TCP"
  "ip_dst_addr (ts_ipv4_hdr (open_segment env l r m h)) = fst r" "ip_src_addr (ts_ipv4_hdr (open_segment env l r m h)) = fst l"
  "ts_tcp_hdr (open_segment env l r m h) = h" "ts_data (open_segment env l r m h) = []"
  "ts_tx_checksum_offload (open_segment env l r m h) = cfg_rx_checksum_offload (oe_cfg env)"
  by (simp_all add: open_segment_def ethernet2_new_def ipv4_new_def)

text \<open>The same for a segment of a handshake, as the other end made it.\<close>

lemma open_segment_received:
  assumes "extern (host_ext env)" "tcp_segment_wf (open_segment C r l mac h)" "tcp_norm h = h"
    and "cfg_rx_checksum_offload (oe_cfg C) = cfg_rx_checksum_offload (oe_cfg (he_open env))" "rt_local_ipv4_addr (host_rt env) = fst l"
  obtains fr ip where "tcp_frame (host_ext env) (open_segment C r l mac h) = Ok fr" "ip_src_addr ip = fst r" "ip_dst_addr ip = fst l"
    "\<And>x. inet_do_receive env fr x =
       map_option (\<lambda>y. res_bind y (\<lambda>(q, out, r). Ok (set_tcp q x, map TcpPacket out, r)))
         (tcp_dispatch (host_open env (st_arp x)) ip h [] (tcp_of x))"
proof (rule inet_receives_segment [OF assms(1,2)])
  fix fr ip
  assume "tcp_frame (host_ext env) (open_segment C r l mac h) = Ok fr"
    "ip_src_addr ip = ip_src_addr (ts_ipv4_hdr (open_segment C r l mac h))"
    "ip_dst_addr ip = ip_dst_addr (ts_ipv4_hdr (open_segment C r l mac h))"
    "\<And>x. inet_do_receive env fr x =
       map_option (\<lambda>y. res_bind y (\<lambda>(q, out, r). Ok (set_tcp q x, map TcpPacket out, r)))
         (tcp_dispatch (host_open env (st_arp x)) ip (tcp_norm (ts_tcp_hdr (open_segment C r l mac h)))
           (ts_data (open_segment C r l mac h)) (tcp_of x))"
  then show thesis using that [of fr ip] assms(3) by simp
qed (use assms(4,5) in simp_all)

section \<open>A connection between two hosts\<close>

lemma tcp_connect_opens:
  assumes "map_of (tp_sockets p) qd = Some (Inactive (Some l))" "map_of (tp_connecting p) (l, r) = None"
    and "isn_generate (oe_crc env) l r (tp_isn_generator p) = (g, isn)"
  shows "\<exists>p'. tcp_connect env qd r p = (p', Ok ()) \<and> map_of (tp_sockets p') qd = Some (Connecting l r) \<and>
     map_of (tp_connecting p') (l, r) = Some (active_new isn l r) \<and> tp_established p' = tp_established p"
  using assms by (simp add: tcp_connect_def tcp_connect_local_def update_conv')

lemma tcp_connecting_task_sends:
  assumes "map_of (tp_connecting p) (l, r) = Some (active_new isn l r)" "cfg_handshake_retries (oe_cfg env) \<noteq> 0"
  shows "\<exists>p' p'' k. tcp_connecting_task env (l, r) HsPolled p = Ok (p', []) \<and>
     tcp_connecting_task env (l, r) (HsResolved (Ok mac)) p' = Ok (p'', [open_segment env l r mac (syn_header env l r isn)]) \<and>
     map_of (tp_connecting p'') (l, r) = Some ((active_new isn l r)\<lparr>ao_handle := HsTimer k\<rparr>) \<and>
     tp_sockets p'' = tp_sockets p \<and> tp_established p'' = tp_established p"
proof -
  obtain k where "cfg_handshake_retries (oe_cfg env) = Suc k" using assms(2) by (cases "cfg_handshake_retries (oe_cfg env)") auto
  with assms(1) show ?thesis
    by (simp add: tcp_connecting_task_def active_background_eq active_new_def hs_loop_def update_conv')
qed

lemma tcp_dispatch_syn:
  assumes "map_of (tp_passive p) r = Some s" "map_of (tp_established p) (r, l) = None" "map_of (tp_connecting p) (r, l) = None"
    and "unicast (fst l)" "ip_src_addr ip = fst l" "ip_dst_addr ip = fst r" "ps_local s = r"
    and "\<not> pending s l" "length (ps_inflight s) + length (rs_ready (ps_ready s)) < ps_max_backlog s"
  shows "\<exists>p' s' isn. tcp_dispatch env ip (syn_header peer l r i) [] p = Some (Ok (p', [], Ok ())) \<and>
     map_of (tp_passive p') r = Some s' \<and> map_of (ps_inflight s') l = Some (accepted_syn env isn i (oe_cfg peer)) \<and>
     tp_sockets p' = tp_sockets p \<and> tp_established p' = tp_established p \<and> tp_connecting p' = tp_connecting p \<and>
     rs_ready (ps_ready s') = rs_ready (ps_ready s)"
proof -
  obtain g isn where g: "isn_generate (oe_crc env) (ps_local s) l (ps_isn_generator s) = (g, isn)" by fastforce
  have out: "l \<notin> rs_endpoints (ps_ready s)" "map_of (ps_inflight s) l = None" using assms(8) by (auto simp: pending_def)
  have "(ip_dst_addr ip, snd r) = r" "(ip_src_addr ip, snd l) = l" using assms(5,6) by simp_all
  with assms(1-4) passive_receive_syn [OF assms(5) out assms(9) g, of peer r i] show ?thesis
    by (simp add: tcp_dispatch_def unicast_def update_conv') blast
qed

lemma tcp_passive_task_sends:
  assumes "map_of (tp_passive p) r = Some s" "map_of (ps_inflight s) l = Some (accepted_syn env isn i peer)" "ps_local s = r"
    and "cfg_handshake_retries (oe_cfg env) \<noteq> 0"
  shows "\<exists>p' p'' s'' k. tcp_passive_task env r l HsPolled p = Ok (p', []) \<and>
     tcp_passive_task env r l (HsResolved (Ok mac)) p' = Ok (p'', [open_segment env r l mac
        ((syn_header env r l isn)\<lparr>tcp_ack := True, tcp_ack_num := i + 1\<rparr>)]) \<and>
     map_of (tp_passive p'') r = Some s'' \<and> map_of (ps_inflight s'') l = Some ((accepted_syn env isn i peer)\<lparr>ia_handle := HsTimer k\<rparr>) \<and>
     tp_sockets p'' = tp_sockets p \<and> tp_established p'' = tp_established p \<and> tp_connecting p'' = tp_connecting p \<and>
     rs_ready (ps_ready s'') = rs_ready (ps_ready s)"
proof -
  obtain k where "cfg_handshake_retries (oe_cfg env) = Suc k" using assms(4) by (cases "cfg_handshake_retries (oe_cfg env)") auto
  with assms(1-3) show ?thesis
    by (simp add: tcp_passive_task_def passive_background_def hs_step_def hs_loop_def accepted_syn_def update_conv' passive_syn_ack_eq)
qed

lemma tcp_dispatch_syn_ack:
  assumes "map_of (tp_connecting p) (l, r) = Some ((active_new isn l r)\<lparr>ao_handle := t\<rparr>)" "map_of (tp_established p) (l, r) = None"
    and "unicast (fst r)" "ip_src_addr ip = fst r" "ip_dst_addr ip = fst l" "te_arp (oe_tcp env) (fst r) = Some mac"
    and "cfg_window_scale (oe_cfg env) \<le> 14" "cfg_window_scale (oe_cfg peer) \<le> 14"
  shows "\<exists>p'. tcp_dispatch env ip ((syn_header peer r l j)\<lparr>tcp_ack := True, tcp_ack_num := isn + 1\<rparr>) [] p
       = Some (Ok (p', [active_ack env (j + 1) mac (active_new isn l r)], Ok ())) \<and>
     tp_sockets p' = tp_sockets p \<and> tp_established p' = tp_established p \<and>
     (\<exists>a. map_of (tp_connecting p') (l, r) = Some a \<and> ao_result a = Some (Ok (opened env l r isn j (oe_cfg peer)
       (ucast (push_bit (unat (cfg_window_scale (oe_cfg env))) (cfg_receive_window_size (oe_cfg env)))))))"
proof -
  let ?s = "(active_new isn l r)\<lparr>ao_handle := t\<rparr>"
  have f: "ao_remote ?s = r" "ao_local ?s = l" "ao_local_isn ?s = isn" by (simp_all add: active_new_def)
  have "active_ack env (j + 1) mac ?s = active_ack env (j + 1) mac (active_new isn l r)"
    by (simp add: active_ack_def active_new_def)
  with active_receive_syn_ack [of env ?s mac peer j, unfolded f, OF assms(6-8)] have rcv:
    "active_receive env ((syn_header peer r l j)\<lparr>tcp_ack := True, tcp_ack_num := isn + 1\<rparr>) ?s =
      Ok (active_set_result (Ok (opened env l r isn j (oe_cfg peer)
        (ucast (push_bit (unat (cfg_window_scale (oe_cfg env))) (cfg_receive_window_size (oe_cfg env)))))) ?s,
        [active_ack env (j + 1) mac (active_new isn l r)])" by simp
  have "(ip_dst_addr ip, snd l) = l" "(ip_src_addr ip, snd r) = r" using assms(4,5) by simp_all
  with assms(1-3) rcv show ?thesis
    by (simp add: tcp_dispatch_def unicast_def update_conv' active_set_result_def)
qed

lemma tcp_poll_connect_opened:
  assumes "map_of (tp_sockets p) qd = Some (Connecting l r)" "map_of (tp_connecting p) (l, r) = Some a"
    and "ao_result a = Some (Ok cb)" "map_of (tp_established p) (l, r) = None"
  shows "\<exists>p'. tcp_poll_connect_finished qd p = Ok (p', Some (Ok ())) \<and> map_of (tp_established p') (l, r) = Some cb \<and>
     map_of (tp_sockets p') qd = Some (SockEstablished l r)"
  using assms by (simp add: tcp_poll_connect_finished_def active_poll_result_def update_conv' Let_def)

lemma tcp_dispatch_ack:
  assumes "map_of (tp_passive p) r = Some s" "map_of (tp_established p) (r, l) = None" "map_of (tp_connecting p) (r, l) = None"
    and "unicast (fst l)" "ip_src_addr ip = fst l" "ip_dst_addr ip = fst r" "ps_local s = r" "passive_ok s"
    and "map_of (ps_inflight s) l = Some ((accepted_syn env j i peer)\<lparr>ia_handle := t\<rparr>)"
    and "cfg_window_scale (oe_cfg env) \<le> 14" "cfg_window_scale peer \<le> 14"
    and h: "tcp_src_port h = snd l" "tcp_dst_port h = snd r" "tcp_ack h" "tcp_ack_num h = j + 1"
  shows "\<exists>p' s'. tcp_dispatch env ip h [] p = Some (Ok (p', [], Ok ())) \<and> map_of (tp_passive p') r = Some s' \<and>
     tp_sockets p' = tp_sockets p \<and> tp_established p' = tp_established p \<and>
     rs_ready (ps_ready s') = rs_ready (ps_ready s) @ [Ok (opened env r l j i peer
       (push_bit (unat (cfg_window_scale (oe_cfg env))) (ucast (cfg_receive_window_size (oe_cfg env)))))] \<and>
     l \<in> rs_endpoints (ps_ready s')"
proof -
  have "(ip_dst_addr ip, snd r) = r" "(ip_src_addr ip, snd l) = l" using assms(5,6) by simp_all
  with passive_receive_ack [OF assms(8,5) h(1) assms(9) h(3,4) assms(10,11)] assms(1-4) h(1,2) show ?thesis
    unfolding assms(7) by (auto simp: tcp_dispatch_def unicast_def update_conv')
qed

lemma tcp_poll_accept_opened:
  assumes "map_of (tp_sockets p) qd = Some (Listening r)" "map_of (tp_passive p) r = Some s" "map_of (tp_sockets p) new_qd = None"
    and "rs_ready (ps_ready s) = [Ok cb]" "cb_remote cb \<in> rs_endpoints (ps_ready s)" "cb_local cb = r" "cb_remote cb = l"
    and "map_of (tp_established p) (r, l) = None"
  shows "\<exists>p'. tcp_poll_accept qd new_qd p = Ok (p', Some (Ok new_qd)) \<and> map_of (tp_established p') (r, l) = Some cb \<and>
     map_of (tp_sockets p') new_qd = Some (SockEstablished r l)"
  using assms by (simp add: tcp_poll_accept_def passive_poll_accept_def ready_poll_def update_conv' Let_def)

lemma set_tcp_same: "set_tcp (tcp_of s) s = s" by (simp add: set_tcp_def)

text \<open>The acknowledgement that ends the active side of a handshake is a segment without options.\<close>

lemma active_ack_header:
  "tcp_num_options (ts_tcp_hdr (active_ack env k mac a)) = 0" "tcp_option_list (ts_tcp_hdr (active_ack env k mac a)) = replicate 5 NoOperation"
  "tcp_src_port (ts_tcp_hdr (active_ack env k mac a)) = snd (ao_local a)" "tcp_dst_port (ts_tcp_hdr (active_ack env k mac a)) = snd (ao_remote a)"
  "tcp_ack (ts_tcp_hdr (active_ack env k mac a))" "tcp_ack_num (ts_tcp_hdr (active_ack env k mac a)) = k"
  by (simp_all add: active_ack_def tcp_header_new_def MAX_TCP_OPTIONS_def)

lemma active_ack_segment:
  "active_ack env k mac a = open_segment env (ao_local a) (ao_remote a) mac (ts_tcp_hdr (active_ack env k mac a))"
  by (simp add: active_ack_def)

lemma active_ack_wf: "tcp_wf (ts_tcp_hdr (active_ack env k mac a))"
  by (rule no_options_wf) (rule active_ack_header)+

text \<open>
  The four stages.  The client has sent its SYN \<open>i\<close>; the server has answered with its SYN+ACK \<open>j\<close>; the client has
  acknowledged it and is connected; the server has the connection ready.
\<close>

definition syn_segment :: "'f open_env \<Rightarrow> socket_addr \<Rightarrow> socket_addr \<Rightarrow> mac_address \<Rightarrow> seq_number \<Rightarrow> tcp_segment" where
  "syn_segment env l r mac i = open_segment env l r mac (syn_header env l r i)"

definition syn_ack_segment ::
    "'f open_env \<Rightarrow> socket_addr \<Rightarrow> socket_addr \<Rightarrow> mac_address \<Rightarrow> seq_number \<Rightarrow> seq_number \<Rightarrow> tcp_segment" where
  "syn_ack_segment env l r mac i j = open_segment env l r mac ((syn_header env l r i)\<lparr>tcp_ack := True, tcp_ack_num := j + 1\<rparr>)"

definition syn_sent :: "socket_addr \<Rightarrow> socket_addr \<Rightarrow> qdesc \<Rightarrow> seq_number \<Rightarrow> 'f tcp_peer \<Rightarrow> bool" where
  "syn_sent l r qd i p \<longleftrightarrow> map_of (tp_sockets p) qd = Some (Connecting l r) \<and> map_of (tp_established p) (l, r) = None \<and>
     (\<exists>t. map_of (tp_connecting p) (l, r) = Some ((active_new i l r)\<lparr>ao_handle := t\<rparr>))"

definition syn_received ::
    "'f open_env \<Rightarrow> socket_addr \<Rightarrow> socket_addr \<Rightarrow> qdesc \<Rightarrow> tcp_config \<Rightarrow> seq_number \<Rightarrow> seq_number \<Rightarrow> 'f tcp_peer \<Rightarrow> bool" where
  "syn_received env l r qd peer j i p \<longleftrightarrow> tcp_peer_ok p \<and> map_of (tp_sockets p) qd = Some (Listening l) \<and>
     map_of (tp_established p) (l, r) = None \<and> map_of (tp_connecting p) (l, r) = None \<and>
     (\<exists>s t. map_of (tp_passive p) l = Some s \<and> rs_ready (ps_ready s) = [] \<and>
        map_of (ps_inflight s) r = Some ((accepted_syn env j i peer)\<lparr>ia_handle := t\<rparr>))"

lemma host_connects:
  assumes "ft_get (he_files env) (st_file_table a) qd = Some TcpSocket" "map_of (tp_sockets (tcp_of a)) qd = Some (Inactive (Some l))"
    and "map_of (tp_connecting (tcp_of a)) (l, r) = None" "map_of (tp_established (tcp_of a)) (l, r) = None"
    and "cfg_handshake_retries (oe_cfg (he_open env)) \<noteq> 0"
  shows "\<exists>p1 p2 p3 i. inet_connect env qd r a = (set_tcp p1 a, Ok (FoTcp (TcpConnect qd None))) \<and>
     host_connecting_task env (l, r) HsPolled (set_tcp p1 a) = Ok (set_tcp p2 a, []) \<and>
     host_connecting_task env (l, r) (HsResolved (Ok mac)) (set_tcp p2 a) =
       Ok (set_tcp p3 a, [syn_segment (host_open env (st_arp a)) l r mac i]) \<and> syn_sent l r qd i p3"
proof -
  let ?C = "host_open env (st_arp a)"
  obtain g i where "isn_generate (oe_crc ?C) l r (tp_isn_generator (tcp_of a)) = (g, i)" by fastforce
  from tcp_connect_opens [OF assms(2,3) this] obtain p1 where p1: "tcp_connect ?C qd r (tcp_of a) = (p1, Ok ())"
    "map_of (tp_sockets p1) qd = Some (Connecting l r)" "map_of (tp_connecting p1) (l, r) = Some (active_new i l r)"
    "tp_established p1 = tp_established (tcp_of a)" by blast
  from tcp_connecting_task_sends [OF p1(3), of ?C mac] assms(5) obtain p2 p3 k where
    p3: "tcp_connecting_task ?C (l, r) HsPolled p1 = Ok (p2, [])"
      "tcp_connecting_task ?C (l, r) (HsResolved (Ok mac)) p2 = Ok (p3, [open_segment ?C l r mac (syn_header ?C l r i)])"
      "map_of (tp_connecting p3) (l, r) = Some ((active_new i l r)\<lparr>ao_handle := HsTimer k\<rparr>)"
      "tp_sockets p3 = tp_sockets p1" "tp_established p3 = tp_established p1" by auto
  then have "syn_sent l r qd i p3" using p1 assms(4) by (auto simp: syn_sent_def)
  moreover have "inet_connect env qd r a = (set_tcp p1 a, Ok (FoTcp (TcpConnect qd None)))"
    using assms(1) p1(1) by (simp add: inet_connect_def)
  moreover have "host_connecting_task env (l, r) HsPolled (set_tcp p1 a) = Ok (set_tcp p2 a, [])"
    "host_connecting_task env (l, r) (HsResolved (Ok mac)) (set_tcp p2 a) = Ok (set_tcp p3 a, [syn_segment ?C l r mac i])"
    using p3(1,2) by (simp_all add: host_connecting_task_def syn_segment_def)
  ultimately show ?thesis by blast
qed

lemma host_answers_syn:
  assumes E: "extern (host_ext env)" and seg: "tcp_segment_wf (syn_segment C r l mac i)"
    and cfg: "cfg_rx_checksum_offload (oe_cfg C) = cfg_rx_checksum_offload (oe_cfg (he_open env))"
      "cfg_handshake_retries (oe_cfg (he_open env)) \<noteq> 0"
    and addr: "rt_local_ipv4_addr (host_rt env) = fst l" "unicast (fst r)"
    and server: "tcp_peer_ok (tcp_of b)" "map_of (tp_sockets (tcp_of b)) qd = Some (Listening l)" "map_of (tp_passive (tcp_of b)) l = Some s"
      "map_of (tp_connecting (tcp_of b)) (l, r) = None" "map_of (tp_established (tcp_of b)) (l, r) = None"
      "\<not> pending s r" "rs_ready (ps_ready s) = []" "length (ps_inflight s) < ps_max_backlog s"
  shows "\<exists>fr q1 q2 q3 j. tcp_frame (host_ext env) (syn_segment C r l mac i) = Ok fr \<and>
     inet_do_receive env fr b = Some (Ok (set_tcp q1 b, [], Ok ())) \<and>
     host_passive_task env l r HsPolled (set_tcp q1 b) = Ok (set_tcp q2 b, []) \<and>
     host_passive_task env l r (HsResolved (Ok mac')) (set_tcp q2 b) =
       Ok (set_tcp q3 b, [syn_ack_segment (host_open env (st_arp b)) l r mac' j i]) \<and>
     syn_received (host_open env (st_arp b)) l r qd (oe_cfg C) j i q3 \<and> tp_sockets q3 = tp_sockets (tcp_of b)"
proof -
  let ?S = "host_open env (st_arp b)"
  obtain fr ip where fr: "tcp_frame (host_ext env) (syn_segment C r l mac i) = Ok fr" "ip_src_addr ip = fst r" "ip_dst_addr ip = fst l"
    "\<And>x. inet_do_receive env fr x = map_option (\<lambda>y. res_bind y (\<lambda>(q, out, r). Ok (set_tcp q x, map TcpPacket out, r)))
         (tcp_dispatch (host_open env (st_arp x)) ip (syn_header C r l i) [] (tcp_of x))"
    unfolding syn_segment_def by (rule open_segment_received [OF E seg [unfolded syn_segment_def] syn_header_norm(1) cfg(1) addr(1)]) blast
  have sloc: "ps_local s = l" using tcp_peer_ok_passive [OF server(1,3)] by simp
  from tcp_dispatch_syn [OF server(3,5,4) addr(2) fr(2,3) sloc server(6), of ?S C i] server(7,8) obtain q1 s1 j where
    q1: "tcp_dispatch ?S ip (syn_header C r l i) [] (tcp_of b) = Some (Ok (q1, [], Ok ()))" "map_of (tp_passive q1) l = Some s1"
      "map_of (ps_inflight s1) r = Some (accepted_syn ?S j i (oe_cfg C))" "tp_sockets q1 = tp_sockets (tcp_of b)"
      "tp_established q1 = tp_established (tcp_of b)" "tp_connecting q1 = tp_connecting (tcp_of b)" "rs_ready (ps_ready s1) = []" by auto
  have ok1: "tcp_peer_ok q1" by (rule tcp_dispatch_ok [OF server(1) q1(1)])
  from tcp_passive_task_sends [OF q1(2,3), of mac'] tcp_peer_ok_passive [OF ok1 q1(2)] cfg(2) obtain q2 q3 s3 k where
    q3: "tcp_passive_task ?S l r HsPolled q1 = Ok (q2, [])"
      "tcp_passive_task ?S l r (HsResolved (Ok mac')) q2 = Ok (q3, [open_segment ?S l r mac'
        ((syn_header ?S l r j)\<lparr>tcp_ack := True, tcp_ack_num := i + 1\<rparr>)])"
      "map_of (tp_passive q3) l = Some s3" "map_of (ps_inflight s3) r = Some ((accepted_syn ?S j i (oe_cfg C))\<lparr>ia_handle := HsTimer k\<rparr>)"
      "tp_sockets q3 = tp_sockets q1" "tp_established q3 = tp_established q1" "tp_connecting q3 = tp_connecting q1"
      "rs_ready (ps_ready s3) = []" using q1(7) by auto
  have "tcp_peer_ok q3" by (rule tcp_passive_task_ok [OF tcp_passive_task_ok [OF ok1 q3(1)] q3(2)])
  then have "syn_received ?S l r qd (oe_cfg C) j i q3"
    using q3(3-8) q1(4-6) server(2,4,5) by (auto simp: syn_received_def)
  moreover have "inet_do_receive env fr b = Some (Ok (set_tcp q1 b, [], Ok ()))" using fr(4) q1(1) by simp
  moreover have "host_passive_task env l r HsPolled (set_tcp q1 b) = Ok (set_tcp q2 b, [])"
    "host_passive_task env l r (HsResolved (Ok mac')) (set_tcp q2 b) = Ok (set_tcp q3 b, [syn_ack_segment ?S l r mac' j i])"
    using q3(1,2) by (simp_all add: host_passive_task_def syn_ack_segment_def)
  ultimately show ?thesis using fr(1) q1(4) q3(5) by metis
qed

lemma host_completes_connect:
  assumes E: "extern (host_ext env)" and seg: "tcp_segment_wf (syn_ack_segment S r l mac j i)" and sent: "syn_sent l r qd i p"
    and cfg: "cfg_rx_checksum_offload (oe_cfg S) = cfg_rx_checksum_offload (oe_cfg (he_open env))"
      "cfg_window_scale (oe_cfg (he_open env)) \<le> 14" "cfg_window_scale (oe_cfg S) \<le> 14"
    and addr: "rt_local_ipv4_addr (host_rt env) = fst l" "unicast (fst r)" "arp_try_query (st_arp a) (fst r) = Some mac'"
  shows "\<exists>fr q t. tcp_frame (host_ext env) (syn_ack_segment S r l mac j i) = Ok fr \<and>
     inet_do_receive env fr (set_tcp p a) =
       Some (Ok (set_tcp q a, [TcpPacket (active_ack (host_open env (st_arp a)) (j + 1) mac' (active_new i l r))], Ok ())) \<and>
     tcp_poll_connect_finished qd q = Ok (t, Some (Ok ())) \<and> map_of (tp_sockets t) qd = Some (SockEstablished l r) \<and>
     map_of (tp_established t) (l, r) = Some (opened (host_open env (st_arp a)) l r i j (oe_cfg S)
       (ucast (push_bit (unat (cfg_window_scale (oe_cfg (he_open env)))) (cfg_receive_window_size (oe_cfg (he_open env))))))"
proof -
  let ?C = "host_open env (st_arp a)"
  let ?h = "(syn_header S r l j)\<lparr>tcp_ack := True, tcp_ack_num := i + 1\<rparr>"
  obtain fr ip where fr: "tcp_frame (host_ext env) (syn_ack_segment S r l mac j i) = Ok fr" "ip_src_addr ip = fst r" "ip_dst_addr ip = fst l"
    "\<And>x. inet_do_receive env fr x = map_option (\<lambda>y. res_bind y (\<lambda>(q, out, r). Ok (set_tcp q x, map TcpPacket out, r)))
         (tcp_dispatch (host_open env (st_arp x)) ip ?h [] (tcp_of x))"
    unfolding syn_ack_segment_def
    by (rule open_segment_received [OF E seg [unfolded syn_ack_segment_def] syn_header_norm(2) cfg(1) addr(1)]) blast
  from sent obtain t where t: "map_of (tp_sockets p) qd = Some (Connecting l r)" "map_of (tp_established p) (l, r) = None"
    "map_of (tp_connecting p) (l, r) = Some ((active_new i l r)\<lparr>ao_handle := t\<rparr>)" by (auto simp: syn_sent_def)
  from tcp_dispatch_syn_ack [OF t(3,2) addr(2) fr(2,3), of ?C mac' S j] addr(3) cfg(2,3) obtain q x where
    q: "tcp_dispatch ?C ip ?h [] p = Some (Ok (q, [active_ack ?C (j + 1) mac' (active_new i l r)], Ok ()))"
      "tp_sockets q = tp_sockets p" "tp_established q = tp_established p" "map_of (tp_connecting q) (l, r) = Some x"
      "ao_result x = Some (Ok (opened ?C l r i j (oe_cfg S)
        (ucast (push_bit (unat (cfg_window_scale (oe_cfg (he_open env)))) (cfg_receive_window_size (oe_cfg (he_open env)))))))" by auto
  from tcp_poll_connect_opened [OF _ q(4,5), of qd] q(2,3) t(1,2) obtain u where
    "tcp_poll_connect_finished qd q = Ok (u, Some (Ok ()))" "map_of (tp_sockets u) qd = Some (SockEstablished l r)"
    "map_of (tp_established u) (l, r) = Some (opened ?C l r i j (oe_cfg S)
       (ucast (push_bit (unat (cfg_window_scale (oe_cfg (he_open env)))) (cfg_receive_window_size (oe_cfg (he_open env))))))" by auto
  moreover have "inet_do_receive env fr (set_tcp p a) = Some (Ok (set_tcp q a, [TcpPacket (active_ack ?C (j + 1) mac' (active_new i l r))], Ok ()))"
    using fr(4) q(1) by simp
  ultimately show ?thesis using fr(1) by blast
qed

lemma host_completes_accept:
  assumes E: "extern (host_ext env)" and seg: "tcp_segment_wf (active_ack C (j + 1) mac (active_new i r l))"
    and rcvd: "syn_received (host_open env (st_arp b)) l r qd peer j i p" "map_of (tp_sockets p) new_qd = None"
    and cfg: "cfg_rx_checksum_offload (oe_cfg C) = cfg_rx_checksum_offload (oe_cfg (he_open env))"
      "cfg_window_scale (oe_cfg (he_open env)) \<le> 14" "cfg_window_scale peer \<le> 14"
    and addr: "rt_local_ipv4_addr (host_rt env) = fst l" "unicast (fst r)"
  shows "\<exists>fr q t. tcp_frame (host_ext env) (active_ack C (j + 1) mac (active_new i r l)) = Ok fr \<and>
     inet_do_receive env fr (set_tcp p b) = Some (Ok (set_tcp q b, [], Ok ())) \<and>
     tcp_poll_accept qd new_qd q = Ok (t, Some (Ok new_qd)) \<and> map_of (tp_sockets t) new_qd = Some (SockEstablished l r) \<and>
     map_of (tp_established t) (l, r) = Some (opened (host_open env (st_arp b)) l r j i peer
       (push_bit (unat (cfg_window_scale (oe_cfg (he_open env)))) (ucast (cfg_receive_window_size (oe_cfg (he_open env))))))"
proof -
  let ?S = "host_open env (st_arp b)" and ?ack = "active_ack C (j + 1) mac (active_new i r l)"
  let ?cb = "opened ?S l r j i peer (push_bit (unat (cfg_window_scale (oe_cfg ?S))) (ucast (cfg_receive_window_size (oe_cfg ?S))))"
  define h where "h = ts_tcp_hdr ?ack"
  have h: "tcp_num_options h = 0" "tcp_option_list h = replicate 5 NoOperation" "tcp_src_port h = snd r" "tcp_dst_port h = snd l"
      "tcp_ack h" "tcp_ack_num h = j + 1"
    unfolding h_def active_ack_header by (simp_all add: active_new_def active_ack_header)
  have seg': "?ack = open_segment C r l mac h" unfolding h_def by (subst active_ack_segment) (simp add: active_new_def)
  obtain fr ip where fr: "tcp_frame (host_ext env) ?ack = Ok fr" "ip_src_addr ip = fst r" "ip_dst_addr ip = fst l"
    "\<And>x. inet_do_receive env fr x = map_option (\<lambda>y. res_bind y (\<lambda>(q, out, r). Ok (set_tcp q x, map TcpPacket out, r)))
         (tcp_dispatch (host_open env (st_arp x)) ip h [] (tcp_of x))"
    unfolding seg' by (rule open_segment_received [OF E seg [unfolded seg'] no_options_norm [OF h(1,2)] cfg(1) addr(1)]) blast
  from rcvd(1) obtain s t where s: "tcp_peer_ok p" "map_of (tp_sockets p) qd = Some (Listening l)" "map_of (tp_established p) (l, r) = None"
      "map_of (tp_connecting p) (l, r) = None" "map_of (tp_passive p) l = Some s" "rs_ready (ps_ready s) = []"
      "map_of (ps_inflight s) r = Some ((accepted_syn ?S j i peer)\<lparr>ia_handle := t\<rparr>)"
    by (auto simp: syn_received_def)
  from tcp_dispatch_ack [OF s(5,3,4) addr(2) fr(2,3) _ _ s(7) _ _ h(3-6)] tcp_peer_ok_passive [OF s(1,5)] cfg(2,3) s(6) obtain q s' where
    q: "tcp_dispatch ?S ip h [] p = Some (Ok (q, [], Ok ()))" "map_of (tp_passive q) l = Some s'" "tp_sockets q = tp_sockets p"
      "tp_established q = tp_established p" "rs_ready (ps_ready s') = [Ok ?cb]" "r \<in> rs_endpoints (ps_ready s')" by auto
  have "cb_local ?cb = l" "cb_remote ?cb = r" by (simp_all add: opened_def control_block_new_def)
  from tcp_poll_accept_opened [OF _ q(2) _ q(5) _ this, of qd new_qd] q(3,4,6) s(2,3) rcvd(2) this obtain u where
    "tcp_poll_accept qd new_qd q = Ok (u, Some (Ok new_qd))" "map_of (tp_sockets u) new_qd = Some (SockEstablished l r)" "map_of (tp_established u) (l, r) = Some ?cb" by auto
  moreover have "inet_do_receive env fr (set_tcp p b) = Some (Ok (set_tcp q b, [], Ok ()))" using fr(4) q(1) by simp
  ultimately show ?thesis using fr(1) by (simp only: host_open_simps) blast
qed

text \<open>The control blocks that a handshake creates; they depend on the configurations and the initial sequence numbers only.\<close>

definition client_block :: "('f, 'c, 't) host_env \<Rightarrow> ('g, 'd, 'u) host_env \<Rightarrow> socket_addr \<Rightarrow> socket_addr \<Rightarrow> seq_number \<Rightarrow> seq_number \<Rightarrow> 'f conn_block" where
  "client_block ce se l r i j = opened (he_open ce) l r i j (oe_cfg (he_open se))
     (ucast (push_bit (unat (cfg_window_scale (oe_cfg (he_open ce)))) (cfg_receive_window_size (oe_cfg (he_open ce)))))"

definition server_block :: "('g, 'd, 'u) host_env \<Rightarrow> ('f, 'c, 't) host_env \<Rightarrow> socket_addr \<Rightarrow> socket_addr \<Rightarrow> seq_number \<Rightarrow> seq_number \<Rightarrow> 'f conn_block" where
  "server_block ce se r l j i = opened (he_open se) r l j i (oe_cfg (he_open ce))
     (push_bit (unat (cfg_window_scale (oe_cfg (he_open se)))) (ucast (cfg_receive_window_size (oe_cfg (he_open se)))))"

lemma handshake_blocks_agree:
  assumes "cfg_window_scale (oe_cfg (he_open ce)) \<le> 14" "cfg_window_scale (oe_cfg (he_open se)) \<le> 14"
  shows "ends_agree (client_block ce se l r i j) (server_block ce se r l j i)" "ends_agree (server_block ce se r l j i) (client_block ce se l r i j)"
  unfolding client_block_def server_block_def by (rule opened_agree [OF assms])+

text \<open>The whole handshake, with what it leaves behind: only the TCP peers of the two hosts change.\<close>

lemma handshake_completes:
  assumes E: "extern E" "host_ext ce = E" "host_ext se = E"
    and addr: "rt_local_ipv4_addr (host_rt ce) = fst l" "rt_local_ipv4_addr (host_rt se) = fst r" "unicast (fst l)" "unicast (fst r)"
    and arp: "arp_try_query (st_arp a) (fst r) = Some smac" "length smac = 6" "length cmac = 6"
      "length (rt_local_link_addr (host_rt ce)) = 6" "length (rt_local_link_addr (host_rt se)) = 6"
    and cfg: "cfg_window_scale (oe_cfg (he_open ce)) \<le> 14" "cfg_window_scale (oe_cfg (he_open se)) \<le> 14"
      "cfg_handshake_retries (oe_cfg (he_open ce)) \<noteq> 0" "cfg_handshake_retries (oe_cfg (he_open se)) \<noteq> 0"
      "cfg_rx_checksum_offload (oe_cfg (he_open ce)) = cfg_rx_checksum_offload (oe_cfg (he_open se))"
    and client: "ft_get (he_files ce) (st_file_table a) qd = Some TcpSocket" "map_of (tp_sockets (tcp_of a)) qd = Some (Inactive (Some l))"
      "map_of (tp_connecting (tcp_of a)) (l, r) = None" "map_of (tp_established (tcp_of a)) (l, r) = None"
    and server: "tcp_peer_ok (tcp_of b)" "map_of (tp_sockets (tcp_of b)) lqd = Some (Listening r)" "map_of (tp_passive (tcp_of b)) r = Some s"
      "map_of (tp_connecting (tcp_of b)) (r, l) = None" "map_of (tp_established (tcp_of b)) (r, l) = None"
      "\<not> pending s l" "rs_ready (ps_ready s) = []" "length (ps_inflight s) < ps_max_backlog s" "map_of (tp_sockets (tcp_of b)) new_qd = None"
  shows "\<exists>p1 p2 p3 p4 q1 q2 q3 q4 syn synack ack f1 f2 f3 ta tb i j.
     inet_connect ce qd r a = (set_tcp p1 a, Ok (FoTcp (TcpConnect qd None))) \<and>
     host_connecting_task ce (l, r) HsPolled (set_tcp p1 a) = Ok (set_tcp p2 a, []) \<and>
     host_connecting_task ce (l, r) (HsResolved (Ok smac)) (set_tcp p2 a) = Ok (set_tcp p3 a, [syn]) \<and>
     tcp_frame E syn = Ok f1 \<and> inet_do_receive se f1 b = Some (Ok (set_tcp q1 b, [], Ok ())) \<and>
     host_passive_task se r l HsPolled (set_tcp q1 b) = Ok (set_tcp q2 b, []) \<and>
     host_passive_task se r l (HsResolved (Ok cmac)) (set_tcp q2 b) = Ok (set_tcp q3 b, [synack]) \<and>
     tcp_frame E synack = Ok f2 \<and> inet_do_receive ce f2 (set_tcp p3 a) = Some (Ok (set_tcp p4 a, [TcpPacket ack], Ok ())) \<and>
     tcp_frame E ack = Ok f3 \<and> inet_do_receive se f3 (set_tcp q3 b) = Some (Ok (set_tcp q4 b, [], Ok ())) \<and>
     tcp_poll_connect_finished qd (tcp_of (set_tcp p4 a)) = Ok (ta, Some (Ok ())) \<and>
     tcp_poll_accept lqd new_qd (tcp_of (set_tcp q4 b)) = Ok (tb, Some (Ok new_qd)) \<and>
     map_of (tp_sockets ta) qd = Some (SockEstablished l r) \<and> map_of (tp_sockets tb) new_qd = Some (SockEstablished r l) \<and>
     map_of (tp_established ta) (l, r) = Some (client_block ce se l r i j) \<and>
     map_of (tp_established tb) (r, l) = Some (server_block ce se r l j i)"
proof -
  let ?C = "host_open ce (st_arp a)" and ?S = "host_open se (st_arp b)"
  let ?arx = "ucast (push_bit (unat (cfg_window_scale (oe_cfg ?C))) (cfg_receive_window_size (oe_cfg ?C))) :: u32"
  let ?srx = "push_bit (unat (cfg_window_scale (oe_cfg ?S))) (ucast (cfg_receive_window_size (oe_cfg ?S))) :: u32"
  have wf: "tcp_segment_wf (open_segment ?C l r smac h)" "tcp_segment_wf (open_segment ?S r l cmac h)" if "tcp_wf h" for h
    by (simp_all add: open_segment_wf that arp(2-5))
  from host_connects [OF client cfg(3), of smac] obtain p1 p2 p3 i where
    p: "inet_connect ce qd r a = (set_tcp p1 a, Ok (FoTcp (TcpConnect qd None)))"
      "host_connecting_task ce (l, r) HsPolled (set_tcp p1 a) = Ok (set_tcp p2 a, [])"
      "host_connecting_task ce (l, r) (HsResolved (Ok smac)) (set_tcp p2 a) = Ok (set_tcp p3 a, [syn_segment ?C l r smac i])"
      "syn_sent l r qd i p3" by blast
  have "tcp_segment_wf (syn_segment ?C l r smac i)" by (simp add: syn_segment_def wf)
  from host_answers_syn [OF _ this _ cfg(4) addr(2,3) server(1-8), of cmac] E cfg(5) obtain f1 q1 q2 q3 j where
    q: "tcp_frame E (syn_segment ?C l r smac i) = Ok f1" "inet_do_receive se f1 b = Some (Ok (set_tcp q1 b, [], Ok ()))"
      "host_passive_task se r l HsPolled (set_tcp q1 b) = Ok (set_tcp q2 b, [])"
      "host_passive_task se r l (HsResolved (Ok cmac)) (set_tcp q2 b) = Ok (set_tcp q3 b, [syn_ack_segment ?S r l cmac j i])"
      "syn_received ?S r l lqd (oe_cfg ?C) j i q3" "tp_sockets q3 = tp_sockets (tcp_of b)" by auto
  have "tcp_segment_wf (syn_ack_segment ?S r l cmac j i)" by (simp add: syn_ack_segment_def wf)
  from host_completes_connect [OF _ this p(4) _ cfg(1) _ addr(1,4) arp(1)] E cfg(2,5) obtain f2 p4 ta where
    c: "tcp_frame E (syn_ack_segment ?S r l cmac j i) = Ok f2"
      "inet_do_receive ce f2 (set_tcp p3 a) = Some (Ok (set_tcp p4 a, [TcpPacket (active_ack ?C (j + 1) smac (active_new i l r))], Ok ()))"
      "tcp_poll_connect_finished qd p4 = Ok (ta, Some (Ok ()))" "map_of (tp_established ta) (l, r) = Some (opened ?C l r i j (oe_cfg ?S) ?arx)"
      "map_of (tp_sockets ta) qd = Some (SockEstablished l r)" by auto
  have "tcp_segment_wf (active_ack ?C (j + 1) smac (active_new i l r))" 
    by (subst active_ack_segment) (simp add: active_new_def wf active_ack_wf [unfolded active_new_def])
  from host_completes_accept [OF _ this q(5) _ _ cfg(2) _ addr(2,3), of new_qd] E q(6) server(9) cfg(1,5) obtain f3 q4 tb where
    d: "tcp_frame E (active_ack ?C (j + 1) smac (active_new i l r)) = Ok f3"
      "inet_do_receive se f3 (set_tcp q3 b) = Some (Ok (set_tcp q4 b, [], Ok ()))"
      "tcp_poll_accept lqd new_qd q4 = Ok (tb, Some (Ok new_qd))" "map_of (tp_established tb) (r, l) = Some (opened ?S r l j i (oe_cfg ?C) ?srx)"
      "map_of (tp_sockets tb) new_qd = Some (SockEstablished r l)" by auto
  have "opened ?C l r i j (oe_cfg ?S) ?arx = client_block ce se l r i j" "opened ?S r l j i (oe_cfg ?C) ?srx = server_block ce se r l j i"
    by (simp_all add: client_block_def server_block_def opened_def host_open_def)
  with p(1-3) q(1-4) c d show ?thesis by (simp only: set_tcp_simps) blast
qed

section \<open>Pings\<close>

definition icmpv4_frame :: "ext \<Rightarrow> icmpv4_message \<Rightarrow> bytes res" where
  "icmpv4_frame E m = icmpv4_message_write_header E m (replicate (icmpv4_message_header_size m) 0)"

abbreviation icmpv4_of :: "('f, 'c, 't) inet_stack \<Rightarrow> icmpv4_peer" where
  "icmpv4_of s \<equiv> pe_icmpv4 (st_ipv4 s)"

definition set_icmpv4 :: "icmpv4_peer \<Rightarrow> ('f, 'c, 't) inet_stack \<Rightarrow> ('f, 'c, 't) inet_stack" where
  "set_icmpv4 p s = s\<lparr>st_ipv4 := (st_ipv4 s)\<lparr>pe_icmpv4 := p\<rparr>\<rparr>"

lemma set_icmpv4_simps [simp]:
  "icmpv4_of (set_icmpv4 p s) = p" "set_icmpv4 p (set_icmpv4 q s) = set_icmpv4 p s"
  by (simp_all add: set_icmpv4_def)

text \<open>A frame that carries an ICMPv4 message for this host reaches the ICMPv4 peer with the message that was sent.\<close>

lemma inet_receives_icmpv4:
  assumes "extern (host_ext env)" "icmpv4_message_wf m" "eth_ether_type (im_ethernet2_hdr m) = Ipv4" "ip_proto (im_ipv4_hdr m) = ICMPv4"
    and "ip_dst_addr (im_ipv4_hdr m) = rt_local_ipv4_addr (host_rt env)"
  shows "\<exists>fr ip t. icmpv4_frame (host_ext env) m = Ok fr \<and> ip_src_addr ip = ip_src_addr (im_ipv4_hdr m) \<and>
     icmpv4_parse (host_ext env) t = Ok (im_icmpv4_hdr m, []) \<and>
     (\<forall>s q r. icmpv4_receive (host_ext env) ip t (icmpv4_of s) = (q, Ok r) \<longrightarrow>
        inet_do_receive env fr s = Some (Ok (set_icmpv4 q s, [], Ok r)))"
proof -
  from extern.icmpv4_message_roundtrip [OF assms(1,2), of "replicate (icmpv4_message_header_size m) 0"]
  obtain bs q ip t where w: "icmpv4_message_write_header (host_ext env) m (replicate (icmpv4_message_header_size m) 0) = Ok bs"
    "ethernet2_parse (host_ext env) bs = Ok (im_ethernet2_hdr m, q)" "ipv4_parse (host_ext env) q = Ok (ip, t)"
    "ip_src_addr ip = ip_src_addr (im_ipv4_hdr m)" "ip_dst_addr ip = ip_dst_addr (im_ipv4_hdr m)" "ip_proto ip = ip_proto (im_ipv4_hdr m)"
    "icmpv4_parse (host_ext env) t = Ok (im_icmpv4_hdr m, [])" by auto
  have "inet_do_receive env bs s = Some (Ok (set_icmpv4 x s, [], Ok r))"
    if "icmpv4_receive (host_ext env) ip t (icmpv4_of s) = (x, Ok r)" for s x r
    using that w(2,3,5,6) assms(3-5) by (simp add: inet_do_receive_def ipv4_peer_receive_def set_icmpv4_def)
  with w(1,4,7) show ?thesis unfolding icmpv4_frame_def by blast
qed

lemma echo_fields [simp]:
  "eth_ether_type (im_ethernet2_hdr (icmpv4_echo_request rt mac dst i s)) = Ipv4" "ip_proto (im_ipv4_hdr (icmpv4_echo_request rt mac dst i s)) = ICMPv4"
  "ip_dst_addr (im_ipv4_hdr (icmpv4_echo_request rt mac dst i s)) = dst"
  "ip_src_addr (im_ipv4_hdr (icmpv4_echo_request rt mac dst i s)) = rt_local_ipv4_addr rt"
  "im_icmpv4_hdr (icmpv4_echo_request rt mac dst i s) = icmpv4_header_new (EchoRequest i s) 0"
  by (simp_all add: icmpv4_echo_request_def ethernet2_new_def ipv4_new_def)

section \<open>A host that only listens\<close>

text \<open>No connection is open or being opened, and no connection in flight has asked for a window scale that a shift cannot take.\<close>

definition tcp_idle :: "'f tcp_peer \<Rightarrow> bool" where
  "tcp_idle p \<longleftrightarrow> tp_established p = [] \<and> tp_connecting p = [] \<and>
     (\<forall>l s r ia w. map_of (tp_passive p) l = Some s \<longrightarrow> map_of (ps_inflight s) r = Some ia \<longrightarrow>
        ia_remote_window_scale ia = Some w \<longrightarrow> unat w < 16)"

lemma tcp_dispatch_idle:
  assumes ok: "tcp_peer_ok p" and idle: "tcp_idle p" and cfg: "cfg_window_scale (oe_cfg env) < 32"
  shows "\<exists>p' out r. tcp_dispatch env ip h d p = Some (Ok (p', out, r)) \<and> \<not> is_panic r \<and> tcp_peer_ok p'"
proof -
  let ?l = "(ip_dst_addr ip, tcp_dst_port h)"
  have none: "tp_established p = []" "tp_connecting p = []" using idle by (simp_all add: tcp_idle_def)
  have "\<exists>p' out r. tcp_dispatch env ip h d p = Some (Ok (p', out, r)) \<and> \<not> is_panic r"
  proof (cases "map_of (tp_passive p) ?l")
    case None
    then show ?thesis by (auto simp: tcp_dispatch_def Let_def none tcp_send_rst_def split: option.split)
  next
    case (Some s)
    have "\<not> is_panic (passive_receive env ip h s)"
      using passive_receive_panics [of s env ip h] tcp_peer_ok_passive [OF ok Some] cfg idle Some unfolding tcp_idle_def by fastforce
    moreover have "\<not> is_panic r" if "passive_receive env ip h s = Ok (s', r)" for s' r
      using that by (auto simp: passive_receive_def Let_def res_bind_Ok_iff split: if_splits option.splits prod.splits)
    moreover have "passive_receive env ip h s \<noteq> Err e" for e
      by (auto simp: passive_receive_def passive_connection_def ready_push_ok_def Let_def res_bind_Err_iff split: if_splits option.splits prod.splits)
    ultimately show ?thesis using Some by (cases "passive_receive env ip h s") (auto simp: tcp_dispatch_def Let_def none)
  qed
  with tcp_dispatch_ok [OF ok] show ?thesis by blast
qed

lemma arp_receive_returns:
  assumes "arp_ok p"
  shows "\<exists>p' out r. arp_receive E rt buf p = Ok (p', out, r) \<and> arp_ok p' \<and> \<not> is_panic r"
proof (cases "arp_parse E buf")
  case (Ok h)
  from arp_receive_cases [OF assms this, of rt] show ?thesis by (fastforce split: if_splits)
next
  case (Err e)
  with assms show ?thesis by (simp add: arp_receive_def)
next
  case (Panic m)
  with arp_parse_no_panic [of E buf] show ?thesis by simp
qed

lemma ipv4_receive_returns:
  assumes chan: "slot_chan (he_chan env) items cap" and ok: "udp_ok items cap (pe_udp p)" "tcp_peer_ok (pe_tcp p)"
    and idle: "tcp_idle (pe_tcp p)" "cfg_window_scale (oe_cfg (he_open env)) < 32"
  shows "\<exists>p' out r. ipv4_peer_receive env arp buf p = Some (Ok (p', out, r)) \<and> \<not> is_panic r \<and>
     udp_ok items cap (pe_udp p') \<and> tcp_peer_ok (pe_tcp p')"
proof (cases "ipv4_parse (host_ext env) buf")
  case (Ok x)
  obtain ip t where x: "x = (ip, t)" by fastforce
  show ?thesis
  proof (cases "ip_dst_addr ip \<noteq> rt_local_ipv4_addr (host_rt env) \<and> \<not> ipv4_is_broadcast (ip_dst_addr ip)")
    case True
    with Ok x ok show ?thesis by (simp add: ipv4_peer_receive_def)
  next
    case here: False
    show ?thesis
    proof (cases "ip_proto ip")
      case ICMPv4
      obtain q r where "icmpv4_receive (host_ext env) ip t (pe_icmpv4 p) = (q, r)" by fastforce
      with icmpv4_receive_no_panic [of "host_ext env" ip t "pe_icmpv4 p"] Ok x here ICMPv4 ok show ?thesis
        by (cases r) (auto simp: ipv4_peer_receive_def)
    next
      case TCP
      have "\<exists>p' out r. tcp_receive (host_open env arp) ip t (pe_tcp p) = Some (Ok (p', out, r)) \<and> \<not> is_panic r \<and> tcp_peer_ok p'"
        using tcp_dispatch_idle [OF ok(2) idle(1), of "host_open env arp"] idle(2) ok(2)
          tcp_parse_no_panic [of "host_ext env" ip t "cfg_rx_checksum_offload (oe_cfg (he_open env))"]
        by (auto simp: tcp_receive_def split: res.split)
      with Ok x here TCP ok show ?thesis by (auto simp: ipv4_peer_receive_def)
    next
      case UDP
      from slot_chan.udp_do_receive_total [OF chan ok(1), of "host_ext env" ip t] obtain q r where
        "udp_do_receive (host_ext env) (he_chan env) ip t (pe_udp p) = Some (q, r)" "\<not> is_panic r" "udp_ok items cap q" by blast
      with Ok x here UDP ok show ?thesis by (cases r) (auto simp: ipv4_peer_receive_def)
    qed
  qed
next
  case (Err e)
  with ok show ?thesis by (simp add: ipv4_peer_receive_def)
next
  case (Panic m)
  with ipv4_parse_no_panic [of "host_ext env" buf] show ?thesis by simp
qed

end
