(* ===== verification/Stack_Properties.thy ===== *)
theory Stack_Properties
  imports Stack_Lemmas Net_Properties
begin

text \<open>
  What the layers promise together: a connection is opened between two hosts, frame by frame; a ping is
  answered; the tables of the TCP peer stay consistent in every reachable state; what a listening socket and a
  connecting socket do when nobody answers; and the cases in which the stack does not do what it means to.
\<close>

section \<open>A connection between two hosts\<close>

text \<open>C2: A connection from application to application.  A socket of one host connects to a listening socket of another; the SYN, the
  SYN+ACK and the ACK each go over the wire as a frame, through the Ethernet, IPv4 and TCP parsers and the dispatch of the receiving
  host.  Then the connect and the accept both succeed, and the two control blocks agree on endpoints, sequence numbers, window scales
  and buffer bounds.\<close>

theorem tcp_handshake_end_to_end:
  assumes E: "extern E" "host_ext ce = E" "host_ext se = E"
    and addr: "rt_local_ipv4_addr (host_rt ce) = fst l" "rt_local_ipv4_addr (host_rt se) = fst r" "unicast (fst l)" "unicast (fst r)"
    and arp: "arp_try_query (st_arp a) (fst r) = Some smac" "length smac = 6" "length cmac = 6"
      "length (rt_local_link_addr (host_rt ce)) = 6" "length (rt_local_link_addr (host_rt se)) = 6"
    and cfg: "cfg_window_scale (oe_cfg (he_open ce)) \<le> 14" "cfg_window_scale (oe_cfg (he_open se)) \<le> 14"
      "cfg_handshake_retries (oe_cfg (he_open ce)) \<noteq> 0" "cfg_handshake_retries (oe_cfg (he_open se)) \<noteq> 0"
      "cfg_rx_checksum_offload (oe_cfg (he_open ce)) = cfg_rx_checksum_offload (oe_cfg (he_open se))"
    and client: "ft_get (he_files ce) (st_file_table a) qd = Some TcpSocket" "map_of (tp_sockets (tcp_of a)) qd = Some (Inactive (Some l))"
      "map_of (tp_connecting (tcp_of a)) (l, r) = None" "map_of (tp_established (tcp_of a)) (l, r) = None"
    and server: "tcp_peer_ok (tcp_of b)" "map_of (tp_sockets (tcp_of b)) lqd = Some (Listening r)" "map_of (tp_passive (tcp_of b)) r = Some s"
      "map_of (tp_connecting (tcp_of b)) (r, l) = None" "map_of (tp_established (tcp_of b)) (r, l) = None"
      "\<not> pending s l" "rs_ready (ps_ready s) = []" "length (ps_inflight s) < ps_max_backlog s" "map_of (tp_sockets (tcp_of b)) new_qd = None"
  shows "\<exists>a1 a2 a3 a4 b1 b2 b3 b4 syn synack ack f1 f2 f3 ta tb ca cb.
     inet_connect ce qd r a = (a1, Ok (FoTcp (TcpConnect qd None))) \<and>
     host_connecting_task ce (l, r) HsPolled a1 = Ok (a2, []) \<and>
     host_connecting_task ce (l, r) (HsResolved (Ok smac)) a2 = Ok (a3, [syn]) \<and>
     tcp_frame E syn = Ok f1 \<and> inet_do_receive se f1 b = Some (Ok (b1, [], Ok ())) \<and>
     host_passive_task se r l HsPolled b1 = Ok (b2, []) \<and>
     host_passive_task se r l (HsResolved (Ok cmac)) b2 = Ok (b3, [synack]) \<and>
     tcp_frame E synack = Ok f2 \<and> inet_do_receive ce f2 a3 = Some (Ok (a4, [TcpPacket ack], Ok ())) \<and>
     tcp_frame E ack = Ok f3 \<and> inet_do_receive se f3 b3 = Some (Ok (b4, [], Ok ())) \<and>
     tcp_poll_connect_finished qd (tcp_of a4) = Ok (ta, Some (Ok ())) \<and>
     tcp_poll_accept lqd new_qd (tcp_of b4) = Ok (tb, Some (Ok new_qd)) \<and>
     map_of (tp_established ta) (l, r) = Some ca \<and> map_of (tp_established tb) (r, l) = Some cb \<and>
     ends_agree ca cb \<and> ends_agree cb ca"
  using handshake_completes [OF assms]
  by (elim exE conjE, intro exI conjI) (assumption | rule handshake_blocks_agree [OF cfg(1,2)])+

text \<open>Two hosts, 10.0.0.1 with a bound socket and 10.0.0.2 with a listening one.\<close>

definition sample_host_env :: "mac_address \<Rightarrow> ipv4_addr \<Rightarrow> (rat, slot list_chan, (qdesc \<times> qtype) list) host_env" where
  "sample_host_env mac ip = \<lparr>he_open = \<lparr>oe_tcp = \<lparr>te_ext = documented_ext, te_fl = exact_flops, te_cc = none_ops, te_arp = (\<lambda>_. None),
        te_rt = \<lparr>rt_local_link_addr = mac, rt_local_ipv4_addr = ip\<rparr>, te_tx_offload = False, te_now = 0, te_inow = 0\<rparr>,
       oe_cfg = \<lparr>cfg_receive_window_size = 65535, cfg_window_scale = 7, cfg_advertised_mss = 1450, cfg_ack_delay_timeout = 5,
         cfg_handshake_retries = 5, cfg_rx_checksum_offload = False\<rparr>, oe_fallback_mss = 536, oe_crc = (\<lambda>bs. of_nat (length bs))\<rparr>,
     he_chan = documented_chan, he_files = documented_files\<rparr>"

definition sample_stack ::
    "(ipv4_addr \<times> mac_address) list \<Rightarrow> (qdesc \<times> socket) list \<Rightarrow> (socket_addr \<times> rat passive_socket) list \<Rightarrow>
     (rat, slot list_chan, (qdesc \<times> qtype) list) inet_stack" where
  "sample_stack arp sockets passive = \<lparr>
     st_arp = sample_arp_peer\<lparr>ap_cache := \<lparr>ac_cache = \<lparr>tc_map = map (\<lambda>(k, m). (k, \<lparr>tr_value = \<lparr>link_addr = m\<rparr>, tr_expiration = None\<rparr>)) arp,
        tc_graveyard = [], tc_default_ttl = Some 600, tc_clock = 0\<rparr>, ac_disable = False\<rparr>\<rparr>,
     st_ipv4 = \<lparr>pe_icmpv4 = icmpv4_peer_new, pe_tcp = \<lparr>tp_isn_generator = isn_generator_new 0, tp_ephemeral_ports = \<lparr>ports = []\<rparr>,
        tp_sockets = sockets, tp_passive = passive, tp_connecting = [], tp_established = []\<rparr>, pe_udp = sample_receiver\<rparr>,
     st_file_table = map (\<lambda>(qd, s). (qd, TcpSocket)) sockets, st_ts_iters = 0\<rparr>"

abbreviation sample_client where
  "sample_client \<equiv> sample_stack [(0x0A000002, [2, 0, 0, 0, 0, 2])] [(4, Inactive (Some (0x0A000001, 80)))] []"

abbreviation sample_server where
  "sample_server \<equiv> sample_stack [] [(3, Listening (0x0A000002, 443))] [((0x0A000002, 443), passive_new (0x0A000002, 443) 2 0)]"

lemmas sample_stack_eval = sample_host_env_def sample_stack_def host_ext_def host_rt_def unicast_def ipv4_is_broadcast_def ipv4_is_multicast_def
  ipv4_is_unspecified_def arp_try_query_def arp_cache_get_def ttl_get_def sample_arp_peer_def documented_files_def passive_new_def pending_def

lemma sample_server_ok: "tcp_peer_ok (tcp_of sample_server)"
  by (auto simp: tcp_peer_ok_def sample_stack_def pool_ok_def owners_ok_def conns_ok_def sockets_backed_def passives_ok_def
      accept_fresh_def actives_ok_def established_ok_def passive_new_ok pending_def passive_new_def passive_ok_def split: if_splits)

theorem tcp_handshake_end_to_end_witness:
  "\<exists>a1 a2 a3 a4 b1 b2 b3 b4 syn synack ack f1 f2 f3 ta tb ca cb.
     inet_connect (sample_host_env [2, 0, 0, 0, 0, 1] 0x0A000001) 4 (0x0A000002, 443) sample_client = (a1, Ok (FoTcp (TcpConnect 4 None))) \<and>
     host_connecting_task (sample_host_env [2, 0, 0, 0, 0, 1] 0x0A000001) ((0x0A000001, 80), (0x0A000002, 443)) HsPolled a1 = Ok (a2, []) \<and>
     host_connecting_task (sample_host_env [2, 0, 0, 0, 0, 1] 0x0A000001) ((0x0A000001, 80), (0x0A000002, 443))
       (HsResolved (Ok [2, 0, 0, 0, 0, 2])) a2 = Ok (a3, [syn]) \<and>
     tcp_frame documented_ext syn = Ok f1 \<and>
     inet_do_receive (sample_host_env [2, 0, 0, 0, 0, 2] 0x0A000002) f1 sample_server = Some (Ok (b1, [], Ok ())) \<and>
     host_passive_task (sample_host_env [2, 0, 0, 0, 0, 2] 0x0A000002) (0x0A000002, 443) (0x0A000001, 80) HsPolled b1 = Ok (b2, []) \<and>
     host_passive_task (sample_host_env [2, 0, 0, 0, 0, 2] 0x0A000002) (0x0A000002, 443) (0x0A000001, 80)
       (HsResolved (Ok [2, 0, 0, 0, 0, 1])) b2 = Ok (b3, [synack]) \<and>
     tcp_frame documented_ext synack = Ok f2 \<and>
     inet_do_receive (sample_host_env [2, 0, 0, 0, 0, 1] 0x0A000001) f2 a3 = Some (Ok (a4, [TcpPacket ack], Ok ())) \<and>
     tcp_frame documented_ext ack = Ok f3 \<and>
     inet_do_receive (sample_host_env [2, 0, 0, 0, 0, 2] 0x0A000002) f3 b3 = Some (Ok (b4, [], Ok ())) \<and>
     tcp_poll_connect_finished 4 (tcp_of a4) = Ok (ta, Some (Ok ())) \<and> tcp_poll_accept 3 5 (tcp_of b4) = Ok (tb, Some (Ok 5)) \<and>
     map_of (tp_established ta) ((0x0A000001, 80), (0x0A000002, 443)) = Some ca \<and>
     map_of (tp_established tb) ((0x0A000002, 443), (0x0A000001, 80)) = Some cb \<and> ends_agree ca cb \<and> ends_agree cb ca"
  by (rule tcp_handshake_end_to_end [where s = "passive_new (0x0A000002, 443) 2 0" and smac = "[2, 0, 0, 0, 0, 2]" and
        cmac = "[2, 0, 0, 0, 0, 1]", OF extern_documented _ _ _ _ _ _ _ _ _ _ _ _ _ _ _ _ _ _ _ _ sample_server_ok])
    (simp_all add: sample_stack_eval)

section \<open>Opening connections\<close>

text \<open>C6: In every state that the TCP peer can reach, whatever the application calls, the network sends and the background tasks do:
  a listening socket has its entry in the table of listening sockets and an established one its entry, with its own two ends, in the
  table of connections; no two sockets bound, listening or connecting own an address; and neither \<^verbatim>\<open>poll_accept\<close> with a new descriptor nor
  \<^verbatim>\<open>poll_connect_finished\<close> runs into one of its assertions.\<close>

theorem tcp_tables_consistent:
  assumes "\<And>xs. mset (shuffle xs) = mset xs" "tcp_reach (tcp_peer_new shuffle nonce) p"
  shows "(\<forall>fd. \<exists>p' x. tcp_poll_connect_finished fd p = Ok (p', x)) \<and>
     (\<forall>qd new_qd. map_of (tp_sockets p) new_qd = None \<longrightarrow> (\<exists>p' x. tcp_poll_accept qd new_qd p = Ok (p', x))) \<and>
     (\<forall>qd l. map_of (tp_sockets p) qd = Some (Listening l) \<longrightarrow> (\<exists>s. map_of (tp_passive p) l = Some s \<and> ps_local s = l)) \<and>
     (\<forall>qd l r. map_of (tp_sockets p) qd = Some (SockEstablished l r) \<longrightarrow>
        (\<exists>cb. map_of (tp_established p) (l, r) = Some cb \<and> cb_local cb = l \<and> cb_remote cb = r)) \<and>
     (\<forall>qd qd' s s' l. map_of (tp_sockets p) qd = Some s \<longrightarrow> map_of (tp_sockets p) qd' = Some s' \<longrightarrow>
        socket_owns s = Some l \<longrightarrow> socket_owns s' = Some l \<longrightarrow> qd = qd')"
proof -
  have ok: "tcp_peer_ok p" using tcp_reach_ok [OF assms(2)] tcp_peer_ok_new [of shuffle nonce] assms(1) by blast
  then have "owners_ok (map_of (tp_sockets p)) (set (ports (tp_ephemeral_ports p)))"
    "sockets_backed (map_of (tp_sockets p)) (map_of (tp_passive p)) (map_of (tp_established p))"
    "passives_ok (map_of (tp_passive p))" "established_ok (map_of (tp_established p))"
    by (simp_all add: tcp_peer_ok_def conns_ok_def)
  note c = this [unfolded owners_ok_def sockets_backed_def passives_ok_def established_ok_def]
  show ?thesis
  proof (intro conjI)
    show "\<forall>fd. \<exists>p' x. tcp_poll_connect_finished fd p = Ok (p', x)" using tcp_poll_connect_spec [OF ok] by blast
    show "\<forall>qd new_qd. map_of (tp_sockets p) new_qd = None \<longrightarrow> (\<exists>p' x. tcp_poll_accept qd new_qd p = Ok (p', x))"
      using tcp_poll_accept_spec [OF ok] by blast
    show "\<forall>qd l. map_of (tp_sockets p) qd = Some (Listening l) \<longrightarrow> (\<exists>s. map_of (tp_passive p) l = Some s \<and> ps_local s = l)"
      using c(2,3) by blast
    show "\<forall>qd l r. map_of (tp_sockets p) qd = Some (SockEstablished l r) \<longrightarrow>
        (\<exists>cb. map_of (tp_established p) (l, r) = Some cb \<and> cb_local cb = l \<and> cb_remote cb = r)" using c(2,4) by blast
  qed (use c(1) in blast)
qed

definition sample_listen :: "rat tcp_peer" where
  "sample_listen = fst (tcp_listen 7 3 2 (fst (tcp_bind 3 (5, 80) (fst (tcp_do_socket 3 (tcp_peer_new id 0))))))"

lemma sample_listen_reach: "tcp_reach (tcp_peer_new id 0) sample_listen"
proof -
  let ?p0 = "tcp_peer_new id 0 :: rat tcp_peer"
  let ?p1 = "fst (tcp_do_socket 3 ?p0)"
  let ?p2 = "fst (tcp_bind 3 (5, 80) ?p1)"
  have "tcp_step ?p0 ?p1" by (rule step_socket [of 3 _ _ "snd (tcp_do_socket 3 ?p0)"]) simp
  moreover have "tcp_step ?p1 ?p2" by (rule step_bind [of 3 "(5, 80)" _ _ "snd (tcp_bind 3 (5, 80) ?p1)"]) simp
  moreover have "tcp_step ?p2 sample_listen"
    by (rule step_listen [of 7 3 2 _ _ "snd (tcp_listen 7 3 2 ?p2)"]) (simp add: sample_listen_def)
  ultimately show ?thesis by (blast intro: tcp_start tcp_next)
qed

lemma sample_listen_socket: "map_of (tp_sockets sample_listen) 3 = Some (Listening (5, 80))"
  by (simp add: sample_listen_def tcp_listen_def tcp_bind_def tcp_bind_port_def tcp_do_socket_def tcp_peer_new_def tcp_address_in_use_def
      is_private_def FIRST_PRIVATE_PORT_def Let_def)

theorem tcp_tables_consistent_witness:
  "\<exists>s. map_of (tp_passive sample_listen) (5, 80) = Some s \<and> ps_local s = (5, 80)"
  using tcp_tables_consistent [OF _ sample_listen_reach] sample_listen_socket by (simp del: split_paired_All)

text \<open>C20: A listening socket with backlog \<open>n\<close> never holds more than \<open>2 n\<close> entries, however many segments arrive: the connections in flight and the
  results that wait for accept (an attempt that times out may leave one of each).  The set of endpoints is that of the connections that
  wait, each once, none of them in flight, and all opened on the address of the socket.\<close>

theorem passive_backlog_bound:
  assumes "passive_reach (passive_new local backlog nonce) s"
  shows "length (ps_inflight s) + length (rs_ready (ps_ready s)) \<le> 2 * backlog \<and>
     rs_endpoints (ps_ready s) = cb_remote ` set (ready_oks (rs_ready (ps_ready s))) \<and>
     distinct (map fst (ps_inflight s) @ map cb_remote (ready_oks (rs_ready (ps_ready s)))) \<and>
     (\<forall>cb \<in> set (ready_oks (rs_ready (ps_ready s))). cb_local cb = ps_local s)"
proof -
  have "passive_ok s" "passive_load s \<le> 2 * backlog"
    using passive_reach_inv [OF assms passive_new_ok] by (auto simp: passive_new_def passive_load_def)
  then show ?thesis using inflight_load_bounds(1) [of "ps_inflight s"] by (auto simp: passive_load_def passive_ok_def)
qed

theorem passive_backlog_bound_witness:
  "length (ps_inflight (passive_new (5, 80) 1 0 :: rat passive_socket)) + length (rs_ready (ps_ready (passive_new (5, 80) 1 0 :: rat passive_socket))) \<le> 2 * 1"
  using passive_backlog_bound [OF passive_start] by blast

text \<open>C21: An active open that nobody answers ends.  It sends exactly as many SYNs as it has attempts, all the same, and then fails with a
  timeout; and no order of events, whatever the address resolution and the timers do, makes it send more.\<close>

theorem active_open_gives_up:
  assumes "cfg_handshake_retries (oe_cfg env) = Suc n"
  shows "(\<exists>a. active_run env (HsPolled # concat (replicate (Suc n) [HsResolved (Ok mac), HsTimeout])) (active_new isn local remote) =
       Ok (a, replicate (Suc n) (open_segment env local remote mac (syn_header env local remote isn))) \<and>
     ao_result a = Some (Err (Fail ETIMEDOUT ''handshake timeout''))) \<and>
     (\<forall>evs b outs. active_run env evs (active_new isn local remote) = Ok (b, outs) \<longrightarrow> length outs \<le> Suc n)"
proof -
  have "active_run env (concat (replicate (Suc n) [HsResolved (Ok mac), HsTimeout])) ((active_new isn local remote)\<lparr>ao_handle := HsQuery n\<rparr>) =
      Ok ((active_new isn local remote)\<lparr>ao_handle := HsEnded, ao_result := Some (Err handshake_timeout)\<rparr>,
        replicate (Suc n) (open_segment env local remote mac (syn_header env local remote isn)))"
    using active_run_rounds [of "(active_new isn local remote)\<lparr>ao_handle := HsQuery n\<rparr>" n env mac] by (simp add: active_new_def)
  moreover have "length outs \<le> Suc n" if "active_run env evs (active_new isn local remote) = Ok (b, outs)" for evs b outs
    using active_run_bound [OF that] assms by (simp add: active_new_def)
  ultimately show ?thesis using assms
    by (simp add: active_background_eq active_new_def hs_loop_def handshake_timeout_def del: replicate.simps)
qed

definition sample_open :: "rat open_env" where
  "sample_open = he_open (sample_host_env [2, 0, 0, 0, 0, 1] 0x0A000001)"

theorem active_open_gives_up_witness:
  "\<exists>a. active_run sample_open (HsPolled # concat (replicate (Suc 4) [HsResolved (Ok [2, 0, 0, 0, 0, 2]), HsTimeout]))
       (active_new 9 (0x0A000001, 80) (0x0A000002, 443)) =
     Ok (a, replicate (Suc 4) (open_segment sample_open (0x0A000001, 80) (0x0A000002, 443) [2, 0, 0, 0, 0, 2]
         (syn_header sample_open (0x0A000001, 80) (0x0A000002, 443) 9))) \<and>
     ao_result a = Some (Err (Fail ETIMEDOUT ''handshake timeout''))"
proof -
  have "cfg_handshake_retries (oe_cfg sample_open) = Suc 4" by (simp add: sample_open_def sample_host_env_def)
  from active_open_gives_up [OF this, of "[2, 0, 0, 0, 0, 2]" 9 "(0x0A000001, 80)" "(0x0A000002, 443)"] show ?thesis by blast
qed

section \<open>Pings and arbitrary frames\<close>

text \<open>C19: A ping is answered.  The echo request, the reply of the background task of the other host and their frames go through both stacks; then
  the future of the ping ends with the time that has passed since it began.\<close>

theorem ping_answered:
  assumes E: "extern E" "host_ext ae = E" "host_ext be = E"
    and mac: "length amac = 6" "length bmac = 6" "length (rt_local_link_addr (host_rt ae)) = 6" "length (rt_local_link_addr (host_rt be)) = 6"
    and free: "map_of (ic_requests (icmpv4_of a)) (icmpv4_make_id E (host_rt ae) pid rand, ic_seq (icmpv4_of a)) = None" "ic_tx (icmpv4_of b) = []"
  shows "\<exists>p0 q0 p1 req q1 f1 b1 p2 x rep f2 a1.
     icmpv4_ping_start E (host_rt ae) pid rand t0 (rt_local_ipv4_addr (host_rt be)) (icmpv4_of a) = (p0, q0) \<and>
     icmpv4_ping_resolved (host_rt ae) (Ok bmac) q0 p0 = Ok (p1, [req], q1) \<and>
     icmpv4_frame E req = Ok f1 \<and> inet_do_receive be f1 b = Some (Ok (b1, [], Ok ())) \<and>
     icmpv4_background_take (icmpv4_of b1) = (p2, Some x) \<and> icmpv4_background_reply (host_rt be) x (Ok amac) = [rep] \<and>
     icmpv4_frame E rep = Ok f2 \<and> inet_do_receive ae f2 (set_icmpv4 p1 a) = Some (Ok (a1, [], Ok ())) \<and>
     icmpv4_ping_poll timer False now (icmpv4_of a1) q1 = PingDone (Ok (now - t0))"
proof -
  let ?i = "icmpv4_make_id E (host_rt ae) pid rand" and ?s = "ic_seq (icmpv4_of a)" and ?n = "ic_next_cell (icmpv4_of a)"
  let ?y = "rt_local_ipv4_addr (host_rt be)" and ?x = "rt_local_ipv4_addr (host_rt ae)"
  let ?req = "icmpv4_echo_request (host_rt ae) bmac ?y ?i ?s"
  obtain rep where rep: "icmpv4_background_reply (host_rt be) (?x, ?i, ?s) (Ok amac) = [rep]" "icmpv4_message_wf rep"
      "eth_ether_type (im_ethernet2_hdr rep) = Ipv4" "ip_proto (im_ipv4_hdr rep) = ICMPv4" "ip_dst_addr (im_ipv4_hdr rep) = ?x"
      "im_icmpv4_hdr rep = icmpv4_header_new (EchoReply ?i ?s) 0"
    using echo_wf(2) [OF mac(1,4), of ?x ?i ?s] by (simp add: icmpv4_background_reply_def ethernet2_new_def ipv4_new_def)
  define p1 where "p1 = (icmpv4_of a)\<lparr>ic_seq := ?s + 1, ic_next_cell := Suc ?n, ic_requests := AList.update (?i, ?s) ?n (ic_requests (icmpv4_of a))\<rparr>"
  have start: "icmpv4_ping_start E (host_rt ae) pid rand t0 ?y (icmpv4_of a) = ((icmpv4_of a)\<lparr>ic_seq := ?s + 1\<rparr>, PingArp ?y ?i ?s t0)"
    by (simp add: icmpv4_ping_start_def icmpv4_make_seq_num_def)
  have sent: "icmpv4_ping_resolved (host_rt ae) (Ok bmac) (PingArp ?y ?i ?s t0) ((icmpv4_of a)\<lparr>ic_seq := ?s + 1\<rparr>) = Ok (p1, [?req], PingWaiting ?n t0)"
    using free(1) by (simp add: icmpv4_ping_resolved_def req_insert_def p1_def Let_def)
  from inet_receives_icmpv4 [of be ?req] E echo_wf(1) [OF mac(2,3)] obtain f1 ip t where
    f1: "icmpv4_frame E ?req = Ok f1" "ip_src_addr ip = ?x" "icmpv4_parse E t = Ok (icmpv4_header_new (EchoRequest ?i ?s) 0, [])"
      "\<And>c q r. icmpv4_receive E ip t (icmpv4_of c) = (q, Ok r) \<Longrightarrow> inet_do_receive be f1 c = Some (Ok (set_icmpv4 q c, [], Ok r))" by auto
  from inet_receives_icmpv4 [of ae rep] E rep obtain f2 ip' t' where
    f2: "icmpv4_frame E rep = Ok f2" "icmpv4_parse E t' = Ok (icmpv4_header_new (EchoReply ?i ?s) 0, [])"
      "\<And>c q r. icmpv4_receive E ip' t' (icmpv4_of c) = (q, Ok r) \<Longrightarrow> inet_do_receive ae f2 c = Some (Ok (set_icmpv4 q c, [], Ok r))" by auto
  have "inet_do_receive be f1 b = Some (Ok (set_icmpv4 ((icmpv4_of b)\<lparr>ic_tx := [(?x, ?i, ?s)]\<rparr>) b, [], Ok ()))"
    using f1(4) [of b] icmpv4_receive_request [OF f1(3), of ip "icmpv4_of b"] f1(2) free(2) by simp
  moreover have "inet_do_receive ae f2 (set_icmpv4 p1 a) = Some (Ok (set_icmpv4 (p1\<lparr>ic_requests := AList.delete (?i, ?s) (ic_requests p1),
      ic_done := ?n # ic_done p1\<rparr>) a, [], Ok ()))"
    using f2(3) [of "set_icmpv4 p1 a"] icmpv4_receive_reply [OF f2(2), of p1 ?n ip'] by (simp add: p1_def update_conv')
  moreover have "icmpv4_background_take (icmpv4_of (set_icmpv4 ((icmpv4_of b)\<lparr>ic_tx := [(?x, ?i, ?s)]\<rparr>) b)) =
      ((icmpv4_of b)\<lparr>ic_tx := []\<rparr>, Some (?x, ?i, ?s))" by (simp add: icmpv4_background_take_def)
  moreover have "icmpv4_ping_poll timer False now (icmpv4_of (set_icmpv4 (p1\<lparr>ic_requests := AList.delete (?i, ?s) (ic_requests p1),
      ic_done := ?n # ic_done p1\<rparr>) a)) (PingWaiting ?n t0) = PingDone (Ok (now - t0))" by (simp add: icmpv4_ping_poll_def)
  ultimately show ?thesis using start sent f1(1) f2(1) rep(1) by blast
qed

theorem ping_answered_witness:
  "\<exists>p0 q0 p1 req q1 f1 b1 p2 x rep f2 a1.
     icmpv4_ping_start documented_ext (host_rt (sample_host_env [2, 0, 0, 0, 0, 1] 0x0A000001)) 77 [1, 2] 100
       (rt_local_ipv4_addr (host_rt (sample_host_env [2, 0, 0, 0, 0, 2] 0x0A000002))) (icmpv4_of sample_client) = (p0, q0) \<and>
     icmpv4_ping_resolved (host_rt (sample_host_env [2, 0, 0, 0, 0, 1] 0x0A000001)) (Ok [2, 0, 0, 0, 0, 2]) q0 p0 = Ok (p1, [req], q1) \<and>
     icmpv4_frame documented_ext req = Ok f1 \<and>
     inet_do_receive (sample_host_env [2, 0, 0, 0, 0, 2] 0x0A000002) f1 sample_server = Some (Ok (b1, [], Ok ())) \<and>
     icmpv4_background_take (icmpv4_of b1) = (p2, Some x) \<and>
     icmpv4_background_reply (host_rt (sample_host_env [2, 0, 0, 0, 0, 2] 0x0A000002)) x (Ok [2, 0, 0, 0, 0, 1]) = [rep] \<and>
     icmpv4_frame documented_ext rep = Ok f2 \<and>
     inet_do_receive (sample_host_env [2, 0, 0, 0, 0, 1] 0x0A000001) f2 (set_icmpv4 p1 sample_client) = Some (Ok (a1, [], Ok ())) \<and>
     icmpv4_ping_poll True False 350 (icmpv4_of a1) q1 = PingDone (Ok (350 - 100))"
  by (rule ping_answered [OF extern_documented]) (simp_all add: sample_stack_eval icmpv4_peer_new_def)



section \<open>Where the stack does not do what it means to\<close>

text \<open>C35: A refused connection attempt is not noticed.  A host that has nothing at the address of a SYN answers with a RST that carries no
  acknowledgement; the socket that sent the SYN ignores every segment without one, so the application waits for the timeout
  instead of being told that the connection is refused.\<close>

theorem refusal_ignored:
  assumes "map_of (tp_established q) (r, l) = None" "map_of (tp_connecting q) (r, l) = None" "map_of (tp_passive q) r = None"
    and "unicast (fst l)" "ip_src_addr ip = fst l" "ip_dst_addr ip = fst r" "te_arp (oe_tcp se) (fst l) = Some mac"
  shows "\<exists>rst. tcp_dispatch se ip (syn_header ce l r i) [] q = Some (Ok (q, [rst], Ok ())) \<and> tcp_rst (ts_tcp_hdr rst) \<and>
     (\<forall>a :: 'f active_open. active_receive ce (ts_tcp_hdr rst) a = Ok (a, []))"
proof -
  have "(ip_dst_addr ip, snd r) = r" "(ip_src_addr ip, snd l) = l" using assms(5,6) by simp_all
  with assms(1-4,7) show ?thesis
    by (simp add: tcp_dispatch_def tcp_send_rst_def unicast_def Let_def active_receive_def tcp_header_new_def)
qed

theorem refusal_ignored_witness:
  "\<exists>rst. tcp_dispatch (sample_open\<lparr>oe_tcp := (oe_tcp sample_open)\<lparr>te_arp := (\<lambda>_. Some [2, 0, 0, 0, 0, 1])\<rparr>\<rparr>) (ipv4_new 0x0A000001 0x0A000002 TCP)
       (syn_header sample_open (0x0A000001, 80) (0x0A000002, 443) 9) [] (tcp_peer_new id 0 :: rat tcp_peer) =
       Some (Ok (tcp_peer_new id 0, [rst], Ok ())) \<and> tcp_rst (ts_tcp_hdr rst) \<and>
     (\<forall>a. active_receive sample_open (ts_tcp_hdr rst) a = Ok (a, []))"
  by (rule refusal_ignored) (simp_all add: tcp_peer_new_def unicast_def ipv4_is_broadcast_def ipv4_is_multicast_def ipv4_is_unspecified_def ipv4_new_def)

text \<open>C34: Two segments stop a listening host.  A SYN whose window scale option is 16 or more is accepted, and the ACK that
  completes the handshake then panics, since a 16-bit window cannot be shifted that far.\<close>

theorem window_scale_panics_listener:
  assumes "passive_ok s" "cfg_window_scale (oe_cfg env) < 32" "\<not> pending s (ip_src_addr ip, tcp_src_port h)"
    and "length (ps_inflight s) + length (rs_ready (ps_ready s)) < ps_max_backlog s" "tcp_syn h" "\<not> tcp_ack h" "\<not> tcp_rst h"
    and "scan_options (tcp_iter_options h) None (oe_fallback_mss env) = (Some w, mss)" "16 \<le> unat w"
  shows "\<exists>s' isn. passive_receive env ip h s = Ok (s', Ok ()) \<and>
     (\<forall>h'. tcp_src_port h' = tcp_src_port h \<and> tcp_ack h' \<and> tcp_ack_num h' = isn + 1 \<longrightarrow> is_panic (passive_receive env ip h' s'))"
proof -
  obtain g isn where g: "isn_generate (oe_crc env) (ps_local s) (ip_src_addr ip, tcp_src_port h) (ps_isn_generator s) = (g, isn)" by fastforce
  let ?ia = "\<lparr>ia_local_isn = isn, ia_remote_isn = tcp_seq_num h, ia_header_window_size = tcp_window_size h,
      ia_remote_window_scale = Some w, ia_mss = mss, ia_handle = HsStart\<rparr>"
  let ?s = "s\<lparr>ps_isn_generator := g, ps_inflight := AList.update (ip_src_addr ip, tcp_src_port h) ?ia (ps_inflight s)\<rparr>"
  have rcv: "passive_receive env ip h s = Ok (?s, Ok ())"
    using assms(3-8) g by (simp add: passive_receive_def pending_def)
  have "map_of (ps_inflight ?s) (ip_src_addr ip, tcp_src_port h) = Some ?ia" by (simp add: update_conv')
  with passive_receive_panics [OF passive_receive_ok [OF assms(1) rcv] assms(2), of ip] assms(9)
  have "is_panic (passive_receive env ip h' ?s)" if "tcp_src_port h' = tcp_src_port h" "tcp_ack h'" "tcp_ack_num h' = isn + 1" for h'
    using that by fastforce
  with rcv show ?thesis by blast
qed

definition wide_syn :: tcp_header where
  "wide_syn = (tcp_header_new 80 443)\<lparr>tcp_syn := True, tcp_num_options := 1,
     tcp_option_list := [WindowScale 16, NoOperation, NoOperation, NoOperation, NoOperation]\<rparr>"

theorem window_scale_panics_listener_witness:
  "\<exists>s' isn. passive_receive sample_open (ipv4_new 0x0A000001 0x0A000002 TCP) wide_syn (passive_new (0x0A000002, 443) 2 0) = Ok (s', Ok ()) \<and>
     (\<forall>h'. tcp_src_port h' = tcp_src_port wide_syn \<and> tcp_ack h' \<and> tcp_ack_num h' = isn + 1 \<longrightarrow>
        is_panic (passive_receive sample_open (ipv4_new 0x0A000001 0x0A000002 TCP) h' s'))"
  by (rule window_scale_panics_listener [OF passive_new_ok, where w = 16 and mss = 536])
    (simp_all add: sample_open_def sample_host_env_def wide_syn_def tcp_header_new_def passive_new_def pending_def tcp_iter_options_def)

text \<open>C36: A handshake that times out keeps its place in the backlog.  The timeout is reported to accept, but the entry stays among the connections in
  flight, and nothing but an ACK from the same remote end removes it; when the backlog is full of such entries, every new SYN is refused.\<close>

theorem timed_out_handshake_stays:
  assumes "map_of (ps_inflight s) remote = Some ia" "ia_handle ia = HsTimer 0" "rs_ready (ps_ready s) = []"
    and "ps_max_backlog s \<le> length (ps_inflight s)"
  shows "\<exists>s1 s2. passive_background env remote HsTimeout s = Ok (s1, []) \<and>
     passive_poll_accept s1 = Ok (s2, Some (Err (Fail ETIMEDOUT ''handshake timeout''))) \<and>
     map_of (ps_inflight s2) remote = Some (ia\<lparr>ia_handle := HsEnded\<rparr>) \<and>
     (\<forall>ip h. tcp_syn h \<and> \<not> tcp_ack h \<and> \<not> tcp_rst h \<and> \<not> pending s (ip_src_addr ip, tcp_src_port h) \<longrightarrow>
        passive_receive env ip h s2 = Ok (s2, Err (Fail ECONNREFUSED ''connection refused'')))"
proof -
  let ?s2 = "s\<lparr>ps_inflight := AList.update remote (ia\<lparr>ia_handle := HsEnded\<rparr>) (ps_inflight s)\<rparr>"
  let ?s1 = "?s2\<lparr>ps_ready := ready_push_err handshake_timeout (ps_ready s)\<rparr>"
  have "passive_background env remote HsTimeout s = Ok (?s1, [])"
    using assms(1,2) by (simp add: passive_background_def hs_step_def hs_loop_def)
  moreover have "passive_poll_accept ?s1 = Ok (?s2, Some (Err (Fail ETIMEDOUT ''handshake timeout'')))"
    using assms(3) by (simp add: passive_poll_accept_def ready_poll_def ready_push_err_def handshake_timeout_def)
  moreover have "length (AList.update remote (ia\<lparr>ia_handle := HsEnded\<rparr>) (ps_inflight s)) = length (ps_inflight s)"
    using arg_cong [OF update_keys [of remote "ia\<lparr>ia_handle := HsEnded\<rparr>" "ps_inflight s"], of length] assms(1)
    by (auto dest!: map_of_SomeD intro: rev_image_eqI)
  ultimately show ?thesis using assms(1,4)
    by (auto simp: passive_receive_def pending_def update_conv' Let_def)
qed

theorem timed_out_handshake_stays_witness:
  "\<exists>s1 s2. passive_background sample_open (7, 80) HsTimeout ((passive_new (5, 443) 1 0)\<lparr>ps_inflight := [((7, 80), (accepted_syn sample_open 1 2
       (oe_cfg sample_open))\<lparr>ia_handle := HsTimer 0\<rparr>)]\<rparr>) = Ok (s1, []) \<and>
     passive_poll_accept s1 = Ok (s2, Some (Err (Fail ETIMEDOUT ''handshake timeout''))) \<and> map_of (ps_inflight s2) (7, 80) \<noteq> None"
  using timed_out_handshake_stays [where s = "(passive_new (5, 443) 1 0)\<lparr>ps_inflight := [((7, 80), (accepted_syn sample_open 1 2
       (oe_cfg sample_open))\<lparr>ia_handle := HsTimer 0\<rparr>)]\<rparr>" and remote = "(7, 80)" and env = sample_open]
  by (fastforce simp: passive_new_def)

end
