(* ===== verification/Inet_Runtime.thy ===== *)
theory Inet_Runtime
  imports Inet_Stack
begin

text \<open>
  The part of \<^verbatim>\<open>src/src/lib.rs\<close> that runs the stack: the polls of scheduled operations
  (\<^verbatim>\<open>protocols/tcp/operations.rs\<close>, \<^verbatim>\<open>protocols/udp/futures/operation.rs\<close>, \<^verbatim>\<open>futures/operation/mod.rs\<close>), the
  background round \<^verbatim>\<open>poll_bg_work\<close>, and \<^verbatim>\<open>wait2\<close> and \<^verbatim>\<open>wait_any2\<close>.

  The runtime is the object \<^verbatim>\<open>rt\<close> of another crate: the record \<open>runtime_ops\<close> of the methods that the stack calls, over a
  state \<open>'r\<close>.  \<^verbatim>\<open>rt.poll()\<close> polls futures that hold references to the stack, so it acts on the stack and the runtime
  together.  \<open>None\<close> is a call that does not return.
\<close>

section \<open>Polling an operation\<close>

text \<open>
  A \<^verbatim>\<open>FutureResult\<close> keeps in \<^verbatim>\<open>done\<close> what its future returned; the boolean says that the operation is ready.
\<close>

definition connect_future_poll :: "qdesc \<Rightarrow> 'f tcp_peer \<Rightarrow> ('f tcp_peer \<times> unit res option) res" where
  "connect_future_poll fd p = tcp_poll_connect_finished fd p"

definition accept_future_poll :: "qdesc \<Rightarrow> qdesc \<Rightarrow> 'f tcp_peer \<Rightarrow> ('f tcp_peer \<times> qdesc res option) res" where
  "accept_future_poll qd new_qd p = tcp_poll_accept qd new_qd p"

definition pop_future_poll :: "qdesc \<Rightarrow> 'f tcp_peer \<Rightarrow> 'f tcp_peer \<times> bytes res option" where
  "pop_future_poll fd p = tcp_poll_recv fd p"

lemmas future_polls [simp] = connect_future_poll_def accept_future_poll_def pop_future_poll_def

fun tcp_operation_poll :: "tcp_operation \<Rightarrow> 'f tcp_peer \<Rightarrow> ('f tcp_peer \<times> tcp_operation \<times> bool) res" where
  "tcp_operation_poll (TcpAccept qd new_qd d) p =
     res_bind (accept_future_poll qd new_qd p) (\<lambda>(p, r). Ok (p, TcpAccept qd new_qd r, r \<noteq> None))"
| "tcp_operation_poll (TcpConnect fd d) p =
     res_bind (connect_future_poll fd p) (\<lambda>(p, r). Ok (p, TcpConnect fd r, r \<noteq> None))"
| "tcp_operation_poll (TcpPush fd err d) p = Ok (p, TcpPush fd None (Some (push_future_poll err)), True)"
| "tcp_operation_poll (TcpPop fd d) p =
     (case pop_future_poll fd p of
        (p, Some (Panic m)) \<Rightarrow> Panic m
      | (p, r) \<Rightarrow> Ok (p, TcpPop fd r, r \<noteq> None))"

fun udp_operation_poll ::
    "('c, slot) chan \<Rightarrow> udp_operation \<Rightarrow> 'c udp_peer \<Rightarrow> ('c udp_peer \<times> udp_operation \<times> bool) res" where
  "udp_operation_poll C (UdpPop qd ref d) p =
     (case udp_pop_poll C ref p of
        (p, Some (Panic m)) \<Rightarrow> Panic m
      | (p, r) \<Rightarrow> Ok (p, UdpPop qd ref r, r \<noteq> None))"
| "udp_operation_poll C (UdpPushto qd r) p = Ok (p, UdpPushto qd r, True)"

text \<open>The background tasks are the steps of the peers; what their futures hold is not in the operation.\<close>

fun future_operation_poll ::
    "('f, 'c, 't) host_env \<Rightarrow> future_operation \<Rightarrow> ('f, 'c, 't) inet_stack \<Rightarrow>
     (('f, 'c, 't) inet_stack \<times> future_operation \<times> bool) res" where
  "future_operation_poll env (FoTcp f) s =
     res_bind (tcp_operation_poll f (tcp_of s)) (\<lambda>(p, f, ready). Ok (set_tcp p s, FoTcp f, ready))"
| "future_operation_poll env (FoUdp f) s =
     res_bind (udp_operation_poll (he_chan env) f (udp_of s)) (\<lambda>(p, f, ready). Ok (set_udp p s, FoUdp f, ready))"
| "future_operation_poll env FoBackground s = Ok (s, FoBackground, False)"

section \<open>The runtime\<close>

type_synonym qtoken = nat

record ('s, 'r, 'h) runtime_ops =
  ro_poll :: "'s \<times> 'r \<Rightarrow> ('s \<times> 'r) res option"
  ro_receive :: "'r \<Rightarrow> 'r \<times> bytes list"
  ro_transmit :: "packet list \<Rightarrow> 'r \<Rightarrow> 'r"
  ro_advance_clock :: "'r \<Rightarrow> 'r"
  ro_get_handle :: "qtoken \<Rightarrow> 'r \<Rightarrow> 'h option"
  ro_has_completed :: "'h \<Rightarrow> 'r \<Rightarrow> bool"
  ro_take_key :: "'h \<Rightarrow> 'r \<Rightarrow> 'r"
  ro_take :: "'h \<Rightarrow> 'r \<Rightarrow> 'r \<times> future_operation"

text \<open>Sequencing of calls that may panic or not return.\<close>

fun run_bind :: "'a res option \<Rightarrow> ('a \<Rightarrow> 'b res option) \<Rightarrow> 'b res option" where
  "run_bind None f = None"
| "run_bind (Some (Ok x)) f = f x"
| "run_bind (Some (Err e)) f = Some (Err e)"
| "run_bind (Some (Panic m)) f = Some (Panic m)"

lemma run_bind_Ok_iff: "run_bind x f = Some (Ok y) \<longleftrightarrow> (\<exists>z. x = Some (Ok z) \<and> f z = Some (Ok y))"
  by (cases "(x, f)" rule: run_bind.cases) auto

lemma run_bind_assoc: "run_bind (run_bind x f) g = run_bind x (\<lambda>y. run_bind (f y) g)"
  by (cases "(x, f)" rule: run_bind.cases) auto

section \<open>A background round\<close>

text \<open>A frame that is not handled is dropped with a warning.\<close>

fun inet_receive_batch ::
    "(('f, 'c, 't) inet_stack, 'r, 'h) runtime_ops \<Rightarrow> ('f, 'c, 't) host_env \<Rightarrow> bytes list \<Rightarrow>
     ('f, 'c, 't) inet_stack \<times> 'r \<Rightarrow> (('f, 'c, 't) inet_stack \<times> 'r) res option" where
  "inet_receive_batch R env [] w = Some (Ok w)"
| "inet_receive_batch R env (pkt # batch) w =
     run_bind (inet_do_receive env pkt (fst w)) (\<lambda>(s, out, r).
     run_bind (ro_poll R (s, ro_transmit R out (snd w))) (inet_receive_batch R env batch))"

definition MAX_RECV_ITERS :: nat where "MAX_RECV_ITERS = 2"
definition TIMER_RESOLUTION :: nat where "TIMER_RESOLUTION = 64"

fun inet_receive_loop ::
    "(('f, 'c, 't) inet_stack, 'r, 'h) runtime_ops \<Rightarrow> ('f, 'c, 't) host_env \<Rightarrow> nat \<Rightarrow>
     ('f, 'c, 't) inet_stack \<times> 'r \<Rightarrow> (('f, 'c, 't) inet_stack \<times> 'r) res option" where
  "inet_receive_loop R env 0 w = Some (Ok w)"
| "inet_receive_loop R env (Suc n) w =
     (let (rt, batch) = ro_receive R (snd w);
          w = (fst w, rt)
      in if batch = [] then Some (Ok w)
         else run_bind (inet_receive_batch R env batch w) (inet_receive_loop R env n))"

definition inet_poll_bg_work ::
    "(('f, 'c, 't) inet_stack, 'r, 'h) runtime_ops \<Rightarrow> ('f, 'c, 't) host_env \<Rightarrow>
     ('f, 'c, 't) inet_stack \<times> 'r \<Rightarrow> (('f, 'c, 't) inet_stack \<times> 'r) res option" where
  "inet_poll_bg_work R env w =
     run_bind (ro_poll R w) (\<lambda>w.
     run_bind (inet_receive_loop R env MAX_RECV_ITERS w) (\<lambda>(s, rt).
       let rt = (if st_ts_iters s = 0 then ro_advance_clock R rt else rt)
       in Some (Ok (s\<lparr>st_ts_iters := (st_ts_iters s + 1) mod TIMER_RESOLUTION\<rparr>, rt))))"

section \<open>Waiting\<close>

definition inet_take ::
    "(('f, 'c, 't) inet_stack, 'r, 'h) runtime_ops \<Rightarrow> ('f, 'c, 't) host_env \<Rightarrow> 'h \<Rightarrow>
     ('f, 'c, 't) inet_stack \<times> 'r \<Rightarrow> ((('f, 'c, 't) inet_stack \<times> 'r) \<times> qdesc \<times> operation_result) res" where
  "inet_take R env h w =
     (let (rt, fo) = ro_take R h (snd w)
      in res_bind (inet_take_operation env fo (fst w)) (\<lambda>(s, qd, r). Ok ((s, rt), qd, r)))"

partial_function (option) inet_wait_loop ::
    "(('f, 'c, 't) inet_stack, 'r, 'h) runtime_ops \<Rightarrow> ('f, 'c, 't) host_env \<Rightarrow> 'h \<Rightarrow>
     ('f, 'c, 't) inet_stack \<times> 'r \<Rightarrow> ((('f, 'c, 't) inet_stack \<times> 'r) \<times> qdesc \<times> operation_result) res option" where
  "inet_wait_loop R env h w =
     (case inet_poll_bg_work R env w of
        None \<Rightarrow> None
      | Some x \<Rightarrow>
        (case x of
           Err e \<Rightarrow> Some (Err e)
         | Panic m \<Rightarrow> Some (Panic m)
         | Ok w \<Rightarrow> if ro_has_completed R h (snd w) then Some (inet_take R env h w) else inet_wait_loop R env h w))"

definition inet_wait2 ::
    "(('f, 'c, 't) inet_stack, 'r, 'h) runtime_ops \<Rightarrow> ('f, 'c, 't) host_env \<Rightarrow> qtoken \<Rightarrow>
     ('f, 'c, 't) inet_stack \<times> 'r \<Rightarrow> ((('f, 'c, 't) inet_stack \<times> 'r) \<times> (qdesc \<times> operation_result) res) res option" where
  "inet_wait2 R env qt w =
     (case ro_get_handle R qt (snd w) of
        None \<Rightarrow> Some (Ok (w, Err (Fail EINVAL ''invalid queue token'')))
      | Some h \<Rightarrow> run_bind (inet_wait_loop R env h w) (\<lambda>(w, qd, r). Some (Ok (w, Ok (qd, r)))))"

text \<open>One pass over the tokens; \<open>None\<close> when none of the operations has completed.\<close>

fun inet_wait_any_scan ::
    "(('f, 'c, 't) inet_stack, 'r, 'h) runtime_ops \<Rightarrow> ('f, 'c, 't) host_env \<Rightarrow> nat \<Rightarrow> qtoken list \<Rightarrow>
     ('f, 'c, 't) inet_stack \<times> 'r \<Rightarrow>
     ((('f, 'c, 't) inet_stack \<times> 'r) \<times> (nat \<times> qdesc \<times> operation_result) res option) res" where
  "inet_wait_any_scan R env i [] w = Ok (w, None)"
| "inet_wait_any_scan R env i (qt # qts) w =
     (case ro_get_handle R qt (snd w) of
        None \<Rightarrow> Ok (w, Some (Err (Fail EINVAL ''invalid queue token'')))
      | Some h \<Rightarrow>
        if ro_has_completed R h (snd w)
        then res_bind (inet_take R env h w) (\<lambda>(w, qd, r). Ok (w, Some (Ok (i, qd, r))))
        else inet_wait_any_scan R env (Suc i) qts (fst w, ro_take_key R h (snd w)))"

partial_function (option) inet_wait_any2 ::
    "(('f, 'c, 't) inet_stack, 'r, 'h) runtime_ops \<Rightarrow> ('f, 'c, 't) host_env \<Rightarrow> qtoken list \<Rightarrow>
     ('f, 'c, 't) inet_stack \<times> 'r \<Rightarrow>
     ((('f, 'c, 't) inet_stack \<times> 'r) \<times> (nat \<times> qdesc \<times> operation_result) res) res option" where
  "inet_wait_any2 R env qts w =
     (case inet_poll_bg_work R env w of
        None \<Rightarrow> None
      | Some x \<Rightarrow>
        (case x of
           Err e \<Rightarrow> Some (Err e)
         | Panic m \<Rightarrow> Some (Panic m)
         | Ok w \<Rightarrow>
           (case inet_wait_any_scan R env 0 qts w of
              Err e \<Rightarrow> Some (Err e)
            | Panic m \<Rightarrow> Some (Panic m)
            | Ok (w, Some r) \<Rightarrow> Some (Ok (w, r))
            | Ok (w, None) \<Rightarrow> inet_wait_any2 R env qts w)))"

section \<open>Waiting and rounds\<close>

text \<open>\<open>n\<close> background rounds.\<close>

fun inet_rounds ::
    "(('f, 'c, 't) inet_stack, 'r, 'h) runtime_ops \<Rightarrow> ('f, 'c, 't) host_env \<Rightarrow> nat \<Rightarrow>
     ('f, 'c, 't) inet_stack \<times> 'r \<Rightarrow> (('f, 'c, 't) inet_stack \<times> 'r) res option" where
  "inet_rounds R env 0 w = Some (Ok w)"
| "inet_rounds R env (Suc n) w = run_bind (inet_poll_bg_work R env w) (inet_rounds R env n)"

text \<open>Round \<open>n\<close>, counted from 0, is the first after which \<open>P\<close> holds, and \<open>w'\<close> is the state after it.\<close>

definition rounds_until ::
    "(('f, 'c, 't) inet_stack, 'r, 'h) runtime_ops \<Rightarrow> ('f, 'c, 't) host_env \<Rightarrow> ('r \<Rightarrow> bool) \<Rightarrow> nat \<Rightarrow>
     ('f, 'c, 't) inet_stack \<times> 'r \<Rightarrow> ('f, 'c, 't) inet_stack \<times> 'r \<Rightarrow> bool" where
  "rounds_until R env P n w w' \<longleftrightarrow>
     inet_rounds R env (Suc n) w = Some (Ok w') \<and> P (snd w') \<and>
     (\<forall>k < n. \<forall>v. inet_rounds R env (Suc k) w = Some (Ok v) \<longrightarrow> \<not> P (snd v))"

lemma rounds_until_0: "rounds_until R env P 0 w w' \<longleftrightarrow> inet_poll_bg_work R env w = Some (Ok w') \<and> P (snd w')"
  by (cases w') (auto simp: rounds_until_def run_bind_Ok_iff)

lemma rounds_until_Suc:
  "rounds_until R env P (Suc n) w w' \<longleftrightarrow>
     (\<exists>v. inet_poll_bg_work R env w = Some (Ok v) \<and> \<not> P (snd v) \<and> rounds_until R env P n v w')"
proof -
  have "(\<forall>k < Suc n. Q k) \<longleftrightarrow> Q 0 \<and> (\<forall>k < n. Q (Suc k))" for Q :: "nat \<Rightarrow> bool" by (auto simp: less_Suc_eq_0_disj)
  then show ?thesis by (cases "inet_poll_bg_work R env w") (auto simp: rounds_until_def run_bind_Ok_iff)
qed

lemma rounds_until_step:
  assumes "inet_poll_bg_work R env w = Some (Ok v)"
  shows "P (snd v) \<Longrightarrow> \<exists>n. rounds_until R env P n w v"
    and "\<not> P (snd v) \<Longrightarrow> \<exists>n. rounds_until R env P n v w' \<Longrightarrow> \<exists>n. rounds_until R env P n w w'"
  using assms rounds_until_0 [of R env P w v] rounds_until_Suc [of R env P _ w w'] by blast+

text \<open>The operation of a handle completes in round \<open>n\<close> and in none before.\<close>

abbreviation completes_in ::
    "(('f, 'c, 't) inet_stack, 'r, 'h) runtime_ops \<Rightarrow> ('f, 'c, 't) host_env \<Rightarrow> 'h \<Rightarrow> nat \<Rightarrow>
     ('f, 'c, 't) inet_stack \<times> 'r \<Rightarrow> ('f, 'c, 't) inet_stack \<times> 'r \<Rightarrow> bool" where
  "completes_in R env h \<equiv> rounds_until R env (ro_has_completed R h)"

lemma inet_wait_loop_returns:
  "completes_in R env h n w w' \<Longrightarrow> inet_wait_loop R env h w = Some (inet_take R env h w')"
proof (induction n arbitrary: w)
  case 0
  then show ?case by (subst inet_wait_loop.simps) (simp add: rounds_until_0)
next
  case (Suc n)
  then show ?case by (subst inet_wait_loop.simps) (auto simp: rounds_until_Suc)
qed

lemma inet_wait_loop_only:
  assumes "inet_wait_loop R env h w = Some (Ok y)"
  shows "\<exists>n w'. completes_in R env h n w w' \<and> inet_take R env h w' = Ok y"
proof -
  let ?Q = "\<lambda>R env h w x. x = Ok y \<longrightarrow> (\<exists>w'. (\<exists>n. completes_in R env h n w w') \<and> inet_take R env h w' = Ok y)"
  have "?Q R env h w x" if "inet_wait_loop R env h w = Some x" for x
  proof (rule inet_wait_loop.raw_induct [OF _ that, of ?Q])
    fix loop R env h w x
    assume IH: "\<And>R env h w x. loop R env h w = Some x \<Longrightarrow> ?Q R env h w x"
      and x: "(case inet_poll_bg_work R env w of None \<Rightarrow> None | Some x \<Rightarrow> (case x of Err e \<Rightarrow> Some (Err e) | Panic m \<Rightarrow> Some (Panic m)
         | Ok w \<Rightarrow> if ro_has_completed R h (snd w) then Some (inet_take R env h w) else loop R env h w)) = Some x"
    show "?Q R env h w x"
    proof
      assume "x = Ok y"
      with x obtain v where v: "inet_poll_bg_work R env w = Some (Ok v)"
        "(if ro_has_completed R h (snd v) then Some (inet_take R env h v) else loop R env h v) = Some (Ok y)"
        by (auto split: option.splits res.splits)
      note step = rounds_until_step [where P = "ro_has_completed R h", OF v(1)]
      show "\<exists>w'. (\<exists>n. completes_in R env h n w w') \<and> inet_take R env h w' = Ok y"
      proof (cases "ro_has_completed R h (snd v)")
        case True
        with v(2) have "inet_take R env h v = Ok y" by simp
        with step(1) [OF True] show ?thesis by blast
      next
        case False
        with v(2) have "loop R env h v = Some (Ok y)" by simp
        with IH have "\<exists>w'. (\<exists>n. completes_in R env h n v w') \<and> inet_take R env h w' = Ok y" by blast
        with step(2) [OF False] show ?thesis by blast
      qed
    qed
  qed
  with assms show ?thesis by blast
qed

section \<open>Waiting for one of several operations\<close>

text \<open>A token decides a pass when its operation has completed or the scheduler does not know it.\<close>

definition decides :: "(('f, 'c, 't) inet_stack, 'r, 'h) runtime_ops \<Rightarrow> 'r \<Rightarrow> qtoken \<Rightarrow> bool" where
  "decides R rt qt \<longleftrightarrow> (case ro_get_handle R qt rt of None \<Rightarrow> True | Some h \<Rightarrow> ro_has_completed R h rt)"

text \<open>What a pass returns for the token that decides it, the \<open>i\<close>-th.\<close>

definition any_result ::
    "(('f, 'c, 't) inet_stack, 'r, 'h) runtime_ops \<Rightarrow> ('f, 'c, 't) host_env \<Rightarrow> nat \<Rightarrow> qtoken \<Rightarrow>
     ('f, 'c, 't) inet_stack \<times> 'r \<Rightarrow> ((('f, 'c, 't) inet_stack \<times> 'r) \<times> (nat \<times> qdesc \<times> operation_result) res) res" where
  "any_result R env i qt w =
     (case ro_get_handle R qt (snd w) of
        None \<Rightarrow> Ok (w, Err (Fail EINVAL ''invalid queue token''))
      | Some h \<Rightarrow> res_bind (inet_take R env h w) (\<lambda>(w, qd, r). Ok (w, Ok (i, qd, r))))"

text \<open>\<^verbatim>\<open>take_key\<close> forgets a handle; the operation behind it stays scheduled.\<close>

definition keeps_operations :: "(('f, 'c, 't) inet_stack, 'r, 'h) runtime_ops \<Rightarrow> bool" where
  "keeps_operations R \<longleftrightarrow> (\<forall>h rt. ro_take_key R h rt = rt)"

lemma scan_quiet:
  "keeps_operations R \<Longrightarrow> \<not> (\<exists>qt \<in> set qts. decides R (snd w) qt) \<Longrightarrow> inet_wait_any_scan R env i qts w = Ok (w, None)"
  by (induction qts arbitrary: i) (auto simp: decides_def keeps_operations_def split: option.splits)

lemma scan_decided:
  "keeps_operations R \<Longrightarrow> \<forall>q \<in> set xs. \<not> decides R (snd w) q \<Longrightarrow> decides R (snd w) qt \<Longrightarrow>
   inet_wait_any_scan R env i (xs @ qt # ys) w = res_bind (any_result R env (i + length xs) qt w) (\<lambda>(w, r). Ok (w, Some r))"
proof (induction xs arbitrary: i)
  case Nil
  then show ?case
    by (cases "ro_get_handle R qt (snd w)"; cases "inet_take R env (the (ro_get_handle R qt (snd w))) w")
      (auto simp: decides_def any_result_def split_def)
next
  case (Cons a xs)
  then show ?case by (auto simp: decides_def keeps_operations_def split: option.splits)
qed

lemma wait_any2_returns:
  assumes "keeps_operations R"
  shows "rounds_until R env (\<lambda>rt. \<exists>q \<in> set (xs @ qt # ys). decides R rt q) n w w' \<Longrightarrow> \<forall>q \<in> set xs. \<not> decides R (snd w') q \<Longrightarrow>
     decides R (snd w') qt \<Longrightarrow> inet_wait_any2 R env (xs @ qt # ys) w = Some (any_result R env (length xs) qt w')"
proof (induction n arbitrary: w)
  case 0
  then have "inet_poll_bg_work R env w = Some (Ok w')" by (simp add: rounds_until_0)
  with scan_decided [OF assms 0(2,3), of env 0 ys] show ?case
    by (subst inet_wait_any2.simps) (cases "any_result R env (length xs) qt w'"; auto)
next
  case (Suc n)
  then obtain v where v: "inet_poll_bg_work R env w = Some (Ok v)" "\<not> (\<exists>q \<in> set (xs @ qt # ys). decides R (snd v) q)"
    "rounds_until R env (\<lambda>rt. \<exists>q \<in> set (xs @ qt # ys). decides R rt q) n v w'" by (auto simp: rounds_until_Suc)
  with scan_quiet [OF assms v(2), of env 0] Suc.IH [OF v(3) Suc.prems(2,3)] show ?case by (subst inet_wait_any2.simps) simp
qed

lemma wait_any2_only:
  assumes "keeps_operations R" "inet_wait_any2 R env qts w = Some (Ok y)"
  shows "\<exists>n w' xs qt ys. qts = xs @ qt # ys \<and> rounds_until R env (\<lambda>rt. \<exists>q \<in> set qts. decides R rt q) n w w' \<and>
     (\<forall>q \<in> set xs. \<not> decides R (snd w') q) \<and> decides R (snd w') qt \<and> any_result R env (length xs) qt w' = Ok y"
proof -
  let ?D = "\<lambda>R qts rt. \<exists>q \<in> set qts. decides R rt q"
  let ?E = "\<lambda>R env qts w. \<exists>w' xs qt ys. qts = xs @ qt # ys \<and> (\<exists>n. rounds_until R env (?D R qts) n w w') \<and>
     (\<forall>q \<in> set xs. \<not> decides R (snd w') q) \<and> decides R (snd w') qt \<and> any_result R env (length xs) qt w' = Ok y"
  let ?Q = "\<lambda>R env qts w x. keeps_operations R \<longrightarrow> x = Ok y \<longrightarrow> ?E R env qts w"
  have "?Q R env qts w x" if "inet_wait_any2 R env qts w = Some x" for x
  proof (rule inet_wait_any2.raw_induct [OF _ that, of ?Q], intro impI)
    fix loop R env qts w x
    assume IH: "\<And>R env qts w x. loop R env qts w = Some x \<Longrightarrow> ?Q R env qts w x"
      and x: "(case inet_poll_bg_work R env w of None \<Rightarrow> None | Some x \<Rightarrow> (case x of Err e \<Rightarrow> Some (Err e) | Panic m \<Rightarrow> Some (Panic m)
         | Ok w \<Rightarrow> (case inet_wait_any_scan R env 0 qts w of Err e \<Rightarrow> Some (Err e) | Panic m \<Rightarrow> Some (Panic m)
            | Ok (w, Some r) \<Rightarrow> Some (Ok (w, r)) | Ok (w, None) \<Rightarrow> loop R env qts w))) = Some x"
      and R: "keeps_operations R" and y: "x = Ok y"
    from x y obtain v where v: "inet_poll_bg_work R env w = Some (Ok v)"
      "(case inet_wait_any_scan R env 0 qts v of Err e \<Rightarrow> Some (Err e) | Panic m \<Rightarrow> Some (Panic m)
            | Ok (w, Some r) \<Rightarrow> Some (Ok (w, r)) | Ok (w, None) \<Rightarrow> loop R env qts w) = Some (Ok y)"
      by (cases "inet_poll_bg_work R env w"; cases "the (inet_poll_bg_work R env w)") auto
    note step = rounds_until_step [where P = "?D R qts", OF v(1)]
    show "?E R env qts w"
    proof (cases "?D R qts (snd v)")
      case True
      then obtain xs qt ys where s: "qts = xs @ qt # ys" "decides R (snd v) qt" "\<forall>q \<in> set xs. \<not> decides R (snd v) q"
        by (rule split_list_first_propE)
      with scan_decided [OF R s(3,2), of env 0 ys] v(2) have "any_result R env (length xs) qt v = Ok y"
        by (cases "any_result R env (length xs) qt v") auto
      with s step(1) [OF True] show ?thesis by blast
    next
      case False
      with scan_quiet [OF R False, of env 0] v(2) have "loop R env qts v = Some (Ok y)" by simp
      with IH R have "?E R env qts v" by blast
      with step(2) [OF False] show ?thesis by blast
    qed
  qed
  with assms show ?thesis by blast
qed

end
