(* ===== verification/Stack_Steps.thy ===== *)
theory Stack_Steps
  imports Inet_Runtime Tcp_Tables Net_Properties
begin

text \<open>
  The reachable states of a whole stack together with the operations that are scheduled: the calls of the application, polls and
  results of operations, frames and background tasks, in every order.  The descriptor table types the sockets of the two
  transport peers, and the descriptor that an accept has reserved is in no socket table; with that every step of the stack is a step of
  the TCP peer and of the UDP peer, so what holds of their reachable states holds in the stack.
\<close>

section \<open>The descriptors of the TCP peer\<close>

definition tcp_qds :: "'f tcp_peer \<Rightarrow> qdesc set" where
  "tcp_qds p = dom (map_of (tp_sockets p))"

definition udp_qds :: "'c udp_peer \<Rightarrow> qdesc set" where
  "udp_qds p = dom (map_of (up_sockets p))"

declare update_conv' [simp] delete_conv' [simp]

lemma tcp_do_socket_qds: "tcp_do_socket qd p = (p', r) \<Longrightarrow> tcp_qds p' = insert qd (tcp_qds p)"
  by (auto simp: tcp_qds_def tcp_do_socket_def split: if_splits)

lemma tcp_bind_qds: "tcp_bind qd addr p = (p', r) \<Longrightarrow> tcp_qds p' = tcp_qds p"
  by (auto simp: tcp_qds_def tcp_bind_def Let_def split: if_splits prod.splits res.splits option.splits socket.splits)

lemma tcp_listen_qds: "tcp_listen nonce qd backlog p = (p', r) \<Longrightarrow> tcp_qds p' = tcp_qds p"
  by (auto simp: tcp_qds_def tcp_listen_def split: if_splits option.splits socket.splits)

lemma tcp_connect_qds:
  assumes "tcp_connect env qd remote p = (p', r)"
  shows "tcp_qds p' = tcp_qds p"
proof (cases "snd (tcp_connect_local env qd p)")
  case (Ok l)
  then have "qd \<in> tcp_qds p" by (auto simp: tcp_qds_def tcp_connect_local_def split: option.splits socket.splits prod.splits)
  with assms Ok show ?thesis by (auto simp: tcp_qds_def tcp_connect_def Let_def insert_absorb split: prod.splits if_splits)
qed (use assms in \<open>auto simp: tcp_qds_def tcp_connect_def Let_def split: prod.splits\<close>)

lemma tcp_poll_connect_qds: "tcp_poll_connect_finished fd p = Ok (p', x) \<Longrightarrow> tcp_qds p' = tcp_qds p"
  by (auto simp: tcp_qds_def tcp_poll_connect_finished_def Let_def insert_absorb split: option.splits socket.splits prod.splits res.splits if_splits)

lemma tcp_poll_accept_qds:
  assumes "tcp_poll_accept qd new_qd p = Ok (p', x)"
  shows "tcp_qds p' = (if \<exists>y. x = Some (Ok y) then insert new_qd (tcp_qds p) else tcp_qds p)"
proof (cases "\<exists>l s. map_of (tp_sockets p) qd = Some (Listening l) \<and> map_of (tp_passive p) l = Some s")
  case False
  with assms show ?thesis by (auto simp: tcp_qds_def tcp_poll_accept_def split: option.splits socket.splits)
next
  case True
  then obtain l s where s: "map_of (tp_sockets p) qd = Some (Listening l)" "map_of (tp_passive p) l = Some s" by blast
  with assms obtain s' r where r: "passive_poll_accept s = Ok (s', r)" by (auto simp: tcp_qds_def tcp_poll_accept_def res_bind_Ok_iff)
  show ?thesis
  proof (cases r)
    case (Some y)
    with assms s r show ?thesis by (cases y) (auto simp: tcp_qds_def tcp_poll_accept_def Let_def split: if_splits)
  qed (use assms s r in \<open>auto simp: tcp_qds_def tcp_poll_accept_def\<close>)
qed

lemma tcp_poll_recv_qds: "tcp_poll_recv fd p = (p', x) \<Longrightarrow> tcp_qds p' = tcp_qds p"
  by (auto simp: tcp_qds_def tcp_poll_recv_def split: option.splits socket.splits prod.splits)

lemma tcp_send_qds: "tcp_send env fd buf p = Ok (p', out, r) \<Longrightarrow> tcp_qds p' = tcp_qds p"
  by (auto simp: tcp_qds_def tcp_send_def res_bind_Ok_iff split: res.splits)

lemma tcp_push_sends:
  assumes "tcp_push env fd buf p = Ok (p', out, r)"
  shows "\<exists>x. tcp_send env fd buf p = Ok (p', out, x)"
proof -
  from assms obtain q o' x where "tcp_send env fd buf p = Ok (q, o', x)" by (auto simp: tcp_qds_def tcp_push_def res_bind_Ok_iff)
  with assms show ?thesis by (cases x) (auto simp: tcp_qds_def tcp_push_def)
qed

lemma tcp_push_qds: "tcp_push env fd buf p = Ok (p', out, r) \<Longrightarrow> tcp_qds p' = tcp_qds p"
  using tcp_push_sends tcp_send_qds by metis

lemma tcp_do_close_qds: "tcp_do_close env qd p = Ok (p', out, r) \<Longrightarrow> tcp_qds p' = tcp_qds p - {qd}"
  by (auto simp: tcp_qds_def tcp_do_close_def Let_def res_bind_Ok_iff split: option.splits socket.splits if_splits)

lemma tcp_receive_qds: "tcp_receive env ip buf p = Some (Ok (p', out, r)) \<Longrightarrow> tcp_qds p' = tcp_qds p"
  by (auto simp: tcp_qds_def tcp_receive_def tcp_dispatch_def Let_def res_bind_Ok_iff split: res.splits if_splits option.splits prod.splits)

lemma tcp_connecting_task_qds: "tcp_connecting_task env k ev p = Ok (p', out) \<Longrightarrow> tcp_qds p' = tcp_qds p"
  by (auto simp: tcp_qds_def tcp_connecting_task_def res_bind_Ok_iff split: option.splits)

lemma tcp_passive_task_qds: "tcp_passive_task env l r ev p = Ok (p', out) \<Longrightarrow> tcp_qds p' = tcp_qds p"
  by (auto simp: tcp_qds_def tcp_passive_task_def res_bind_Ok_iff split: option.splits)

section \<open>The descriptors of the UDP peer\<close>

lemma udp_do_socket_qds: "udp_do_socket qd p = (p', r) \<Longrightarrow> udp_qds p' = insert qd (udp_qds p)"
  by (auto simp: udp_qds_def udp_do_socket_def split: if_splits)

lemma udp_do_bind_qds: "udp_do_bind C qd addr p = (p', r) \<Longrightarrow> udp_qds p' = udp_qds p"
  by (auto simp: udp_qds_def udp_do_bind_def Let_def insert_absorb split: if_splits prod.splits res.splits option.splits)

lemma udp_do_close_qds: "udp_do_close qd p = (p', r) \<Longrightarrow> udp_qds p' = udp_qds p - {qd}"
  by (auto simp: udp_qds_def udp_do_close_def Let_def split: option.splits if_splits)

lemma udp_do_pushto_qds: "udp_do_pushto C arp qd data remote p = Some (p', out, r) \<Longrightarrow> udp_qds p' = udp_qds p"
  by (auto simp: udp_qds_def udp_do_pushto_def split: option.splits)

lemma udp_pop_poll_qds: "udp_pop_poll C ref p = (p', x) \<Longrightarrow> udp_qds p' = udp_qds p"
  by (auto simp: udp_qds_def udp_pop_poll_def Let_def split: option.splits prod.splits)

lemma udp_background_take_qds: "udp_background_take C p = (p', x) \<Longrightarrow> udp_qds p' = udp_qds p"
  by (auto simp: udp_qds_def udp_background_take_def Let_def split: prod.splits)

lemma udp_do_receive_qds:
  assumes "udp_do_receive E C ip buf p = Some (p', r)"
  shows "udp_qds p' = udp_qds p"
proof (cases "udp_parse E ip buf (up_checksum_offload p)")
  case (Ok x)
  with assms show ?thesis by (cases x) (auto simp: udp_qds_def udp_do_receive_def Let_def split: option.splits)
qed (use assms in \<open>auto simp: udp_qds_def udp_do_receive_def\<close>)

section \<open>Typed descriptors\<close>

text \<open>
  \<open>T\<close> and \<open>U\<close> are the descriptors of the TCP and of the UDP peer, \<open>R\<close> those that accepts have reserved.
\<close>

definition typed :: "(qdesc \<Rightarrow> qtype option) \<Rightarrow> qdesc set \<Rightarrow> qdesc set \<Rightarrow> qdesc list \<Rightarrow> bool" where
  "typed get T U R \<longleftrightarrow> (\<forall>qd \<in> T. get qd = Some TcpSocket) \<and> (\<forall>qd \<in> U. get qd = Some UdpSocket) \<and>
     distinct R \<and> (\<forall>qd \<in> set R. get qd = Some TcpSocket \<and> qd \<notin> T)"

lemma typed_open_tcp: "typed get T U R \<Longrightarrow> get qd = None \<Longrightarrow> typed (get(qd \<mapsto> TcpSocket)) (insert qd T) U R"
  by (auto simp: typed_def)

lemma typed_open_udp: "typed get T U R \<Longrightarrow> get qd = None \<Longrightarrow> typed (get(qd \<mapsto> UdpSocket)) T (insert qd U) R"
  by (auto simp: typed_def)

lemma typed_reserve: "typed get T U R \<Longrightarrow> get qd = None \<Longrightarrow> typed (get(qd \<mapsto> TcpSocket)) T U (qd # R)"
  by (auto simp: typed_def)

lemma typed_fulfil: "typed get T U (xs @ qd # ys) \<Longrightarrow> typed get (insert qd T) U (xs @ ys)"
  by (auto simp: typed_def)

lemma typed_release: "typed get T U (xs @ qd # ys) \<Longrightarrow> typed (get(qd := None)) T U (xs @ ys)"
  by (auto simp: typed_def)

lemma typed_close_tcp: "typed get T U R \<Longrightarrow> qd \<in> T \<Longrightarrow> typed (get(qd := None)) (T - {qd}) U R"
  by (auto simp: typed_def)

lemma typed_close_udp: "typed get T U R \<Longrightarrow> get qd = Some UdpSocket \<Longrightarrow> typed (get(qd := None)) T (U - {qd}) R"
  by (auto simp: typed_def)

lemma typed_less: "typed get T U R \<Longrightarrow> T' \<subseteq> T \<Longrightarrow> U' \<subseteq> U \<Longrightarrow> typed get T' U' R"
  by (auto simp: typed_def)

section \<open>The steps of a stack\<close>

fun op_reserved :: "future_operation \<Rightarrow> qdesc list" where
  "op_reserved (FoTcp (TcpAccept qd new_qd (Some (Ok x)))) = []"
| "op_reserved (FoTcp (TcpAccept qd new_qd d)) = [new_qd]"
| "op_reserved _ = []"

fun op_done :: "future_operation \<Rightarrow> bool" where
  "op_done (FoTcp (TcpAccept qd new_qd d)) = (d \<noteq> None)"
| "op_done (FoTcp (TcpConnect fd d)) = (d \<noteq> None)"
| "op_done (FoTcp (TcpPush fd err d)) = (d \<noteq> None)"
| "op_done (FoTcp (TcpPop fd d)) = (d \<noteq> None)"
| "op_done (FoUdp (UdpPop qd ref d)) = (d \<noteq> None)"
| "op_done (FoUdp (UdpPushto qd r)) = True"
| "op_done FoBackground = False"

type_synonym ('f, 'c, 't) system = "('f, 'c, 't) inet_stack \<times> future_operation list"

text \<open>The ARP and ICMPv4 peers may change in any way between the steps of the others.\<close>

inductive stack_step :: "('f, 'c, 't) host_env \<Rightarrow> ('f, 'c, 't) system \<Rightarrow> ('f, 'c, 't) system \<Rightarrow> bool" for env where
  on_socket: "inet_socket env domain ty s = (s', r) \<Longrightarrow> stack_step env (s, ops) (s', ops)"
| on_bind: "inet_bind env qd addr s = (s', r) \<Longrightarrow> stack_step env (s, ops) (s', ops)"
| on_listen: "inet_listen env nonce qd backlog s = (s', r) \<Longrightarrow> stack_step env (s, ops) (s', ops)"
| on_accept: "inet_accept env qd s = (s', Ok f) \<Longrightarrow> stack_step env (s, ops) (s', f # ops)"
| on_connect: "inet_connect env qd remote s = (s', Ok f) \<Longrightarrow> stack_step env (s, ops) (s', f # ops)"
| on_connect_failed: "inet_connect env qd remote s = (s', Err e) \<Longrightarrow> stack_step env (s, ops) (s', ops)"
| on_close: "inet_close env qd s = Ok (s', out, r) \<Longrightarrow> stack_step env (s, ops) (s', ops)"
| on_push: "inet_push2 env qd data s = Ok (s', out, Ok f) \<Longrightarrow> stack_step env (s, ops) (s', f # ops)"
| on_pushto: "inet_pushto2 env qd data remote s = Some (s', out, Ok f) \<Longrightarrow> stack_step env (s, ops) (s', f # ops)"
| on_pop: "inet_pop env qd s = Ok f \<Longrightarrow> stack_step env (s, ops) (s, f # ops)"
| on_poll: "future_operation_poll env f s = Ok (s', f', ready) \<Longrightarrow> \<not> op_done f \<Longrightarrow> stack_step env (s, xs @ f # ys) (s', xs @ f' # ys)"
| on_take: "inet_take_operation env f s = Ok (s', qd, r) \<Longrightarrow> stack_step env (s, xs @ f # ys) (s', xs @ ys)"
| on_frame: "inet_do_receive env frame s = Some (Ok (s', out, r)) \<Longrightarrow> stack_step env (s, ops) (s', ops)"
| on_connecting: "tcp_connecting_task (host_open env (st_arp s)) k ev (tcp_of s) = Ok (p, out) \<Longrightarrow> stack_step env (s, ops) (set_tcp p s, ops)"
| on_passive: "tcp_passive_task (host_open env (st_arp s)) l remote ev (tcp_of s) = Ok (p, out) \<Longrightarrow> stack_step env (s, ops) (set_tcp p s, ops)"
| on_connection: "map_of (tp_established (tcp_of s)) k = Some cb \<Longrightarrow> conn_task (oe_tcp (host_open env (st_arp s))) cb cb' \<Longrightarrow>
    stack_step env (s, ops) (set_tcp ((tcp_of s)\<lparr>tp_established := AList.update k cb' (tp_established (tcp_of s))\<rparr>) s, ops)"
| on_udp: "udp_background_take (he_chan env) (udp_of s) = (p, x) \<Longrightarrow> stack_step env (s, ops) (set_udp p s, ops)"
| on_arp: "stack_step env (s, ops) (s\<lparr>st_arp := a\<rparr>, ops)"
| on_icmpv4: "stack_step env (s, ops) (s\<lparr>st_ipv4 := (st_ipv4 s)\<lparr>pe_icmpv4 := q\<rparr>\<rparr>, ops)"
| on_round: "stack_step env (s, ops) (s\<lparr>st_ts_iters := n\<rparr>, ops)"

inductive stack_reach :: "('f, 'c, 't) host_env \<Rightarrow> ('f, 'c, 't) system \<Rightarrow> ('f, 'c, 't) system \<Rightarrow> bool" for env x0 where
  stack_start: "stack_reach env x0 x0"
| stack_next: "stack_reach env x0 x \<Longrightarrow> stack_step env x y \<Longrightarrow> stack_reach env x0 y"

text \<open>The descriptor table, the reserved descriptors, and the peers seen from a system.\<close>

definition sys_typed :: "('f, 'c, 't) host_env \<Rightarrow> ('f, 'c, 't) system \<Rightarrow> bool" where
  "sys_typed env x \<longleftrightarrow> typed (ft_get (he_files env) (st_file_table (fst x))) (tcp_qds (tcp_of (fst x))) (udp_qds (udp_of (fst x)))
     (concat (map op_reserved (snd x)))"

text \<open>What a step may do to the two peers.\<close>

definition peers_step :: "('f, 'c, 't) host_env \<Rightarrow> ('f, 'c, 't) inet_stack \<Rightarrow> ('f, 'c, 't) inet_stack \<Rightarrow> bool" where
  "peers_step env s s' \<longleftrightarrow> (tcp_step\<^sup>=\<^sup>= (tcp_of s) (tcp_of s')) \<and> (udp_step (host_ext env) (he_chan env))\<^sup>=\<^sup>= (udp_of s) (udp_of s')"

lemma set_peers_simps [simp]:
  "tcp_of (set_tcp p s) = p" "udp_of (set_tcp p s) = udp_of s" "st_file_table (set_tcp p s) = st_file_table s"
  "tcp_of (set_udp q s) = tcp_of s" "udp_of (set_udp q s) = q" "st_file_table (set_udp q s) = st_file_table s"
  by (simp_all add: set_tcp_def set_udp_def)

section \<open>Every step keeps the types\<close>

lemma peers_step_tcp: "tcp_step\<^sup>=\<^sup>= (tcp_of s) p \<Longrightarrow> peers_step env s (set_tcp p s)"
  by (simp add: peers_step_def)

lemma peers_step_udp: "(udp_step (host_ext env) (he_chan env))\<^sup>=\<^sup>= (udp_of s) p \<Longrightarrow> peers_step env s (set_udp p s)"
  by (simp add: peers_step_def)

lemma sys_typed_tcp:
  "sys_typed env (s, ops) \<Longrightarrow> tcp_qds p \<subseteq> tcp_qds (tcp_of s) \<Longrightarrow> concat (map op_reserved ops') = concat (map op_reserved ops) \<Longrightarrow>
   sys_typed env (set_tcp p s, ops')"
  by (auto simp: sys_typed_def intro: typed_less)

lemma sys_typed_udp:
  "sys_typed env (s, ops) \<Longrightarrow> udp_qds p \<subseteq> udp_qds (udp_of s) \<Longrightarrow> concat (map op_reserved ops') = concat (map op_reserved ops) \<Longrightarrow>
   sys_typed env (set_udp p s, ops')"
  by (auto simp: sys_typed_def intro: typed_less)

text \<open>A call that keeps the table of descriptors and reserves nothing.\<close>

lemma sys_typed_same:
  "sys_typed env (s, ops) \<Longrightarrow> st_file_table s' = st_file_table s \<Longrightarrow> tcp_qds (tcp_of s') \<subseteq> tcp_qds (tcp_of s) \<Longrightarrow>
   udp_qds (udp_of s') \<subseteq> udp_qds (udp_of s) \<Longrightarrow> concat (map op_reserved ops') = concat (map op_reserved ops) \<Longrightarrow> sys_typed env (s', ops')"
  by (auto simp: sys_typed_def intro: typed_less)

lemma inet_bind_step:
  assumes "inet_bind env qd addr s = (s', r)" "sys_typed env (s, ops)"
  shows "sys_typed env (s', ops) \<and> peers_step env s s'"
proof (cases "ft_get (he_files env) (st_file_table s) qd")
  case (Some q)
  show ?thesis
  proof (cases q)
    case TcpSocket
    with assms(1) Some obtain p where p: "tcp_bind qd addr (tcp_of s) = (p, r)" "s' = set_tcp p s"
      by (auto simp: inet_bind_def split: prod.splits)
    then show ?thesis using assms(2) by (auto intro!: sys_typed_tcp peers_step_tcp dest: tcp_bind_qds step_bind)
  next
    case UdpSocket
    with assms(1) Some obtain p where p: "udp_do_bind (he_chan env) qd addr (udp_of s) = (p, r)" "s' = set_udp p s"
      by (auto simp: inet_bind_def split: prod.splits)
    then show ?thesis using assms(2) by (auto intro!: sys_typed_udp peers_step_udp dest: udp_do_bind_qds intro: udp_bind)
  qed (use assms Some in \<open>auto simp: inet_bind_def peers_step_def\<close>)
qed (use assms in \<open>auto simp: inet_bind_def peers_step_def\<close>)

lemma inet_listen_step:
  assumes "inet_listen env nonce qd backlog s = (s', r)" "sys_typed env (s, ops)"
  shows "sys_typed env (s', ops) \<and> peers_step env s s'"
proof (cases "backlog \<noteq> 0 \<and> ft_get (he_files env) (st_file_table s) qd = Some TcpSocket")
  case True
  with assms(1) obtain p where p: "tcp_listen nonce qd backlog (tcp_of s) = (p, r)" "s' = set_tcp p s"
    by (auto simp: inet_listen_def split: prod.splits)
  then show ?thesis using assms(2) by (auto intro!: sys_typed_tcp peers_step_tcp dest: tcp_listen_qds step_listen)
next
  case False
  with assms(1) have "s' = s" by (auto simp: inet_listen_def split: if_splits option.splits qtype.splits)
  with assms(2) show ?thesis by (simp add: peers_step_def)
qed

lemma inet_connect_step:
  assumes "inet_connect env qd remote s = (s', r)" "sys_typed env (s, ops)"
    and "(\<exists>f. r = Ok f \<and> ops' = f # ops) \<or> (\<exists>e. r = Err e \<and> ops' = ops)"
  shows "sys_typed env (s', ops') \<and> peers_step env s s'"
proof (cases "ft_get (he_files env) (st_file_table s) qd = Some TcpSocket")
  case True
  with assms(1) obtain p x where p: "tcp_connect (host_open env (st_arp s)) qd remote (tcp_of s) = (p, x)" "s' = set_tcp p s"
    "r = res_bind x (\<lambda>_. Ok (FoTcp (TcpConnect qd None)))" by (auto simp: inet_connect_def split: prod.splits)
  have "concat (map op_reserved ops') = concat (map op_reserved ops)" using assms(3) p(3) by (cases x) auto
  with p assms(2) show ?thesis by (auto intro!: sys_typed_tcp peers_step_tcp dest: tcp_connect_qds step_connect)
next
  case False
  with assms(1) have "s' = s" "\<exists>e. r = Err e"
    by (auto simp: inet_connect_def bad_qtype_def bad_qdesc_def split: option.splits qtype.splits)
  with assms show ?thesis by (auto simp: peers_step_def)
qed

lemma inet_push2_step:
  assumes "inet_push2 env qd data s = Ok (s', out, Ok f)" "sys_typed env (s, ops)"
  shows "sys_typed env (s', f # ops) \<and> peers_step env s s'"
proof -
  from assms(1) obtain p o' err where p: "tcp_push (host_open env (st_arp s)) qd data (tcp_of s) = Ok (p, o', err)" "s' = set_tcp p s"
    "f = FoTcp (TcpPush qd err None)"
    by (auto simp: inet_push2_def inet_do_push_def bad_qtype_def bad_qdesc_def res_bind_Ok_iff split: if_splits option.splits qtype.splits)
  with tcp_push_qds [OF p(1)] tcp_push_sends [OF p(1)] assms(2) show ?thesis
    by (auto intro!: sys_typed_tcp peers_step_tcp intro: step_send)
qed

lemma inet_pushto2_step:
  assumes "inet_pushto2 env qd data remote s = Some (s', out, Ok f)" "sys_typed env (s, ops)"
  shows "sys_typed env (s', f # ops) \<and> peers_step env s s'"
proof -
  from assms(1) obtain p o' r where p: "udp_do_pushto (he_chan env) (arp_try_query (st_arp s)) qd data remote (udp_of s) = Some (p, o', r)"
    "s' = set_udp p s" "f = FoUdp (UdpPushto qd r)"
    by (auto simp: inet_pushto2_def inet_do_pushto_def bad_qtype_def bad_qdesc_def split: if_splits option.splits qtype.splits)
  with udp_do_pushto_qds [OF p(1)] assms(2) show ?thesis by (auto intro!: sys_typed_udp peers_step_udp intro: udp_pushto)
qed

lemma inet_pop_reserves: "inet_pop env qd s = Ok f \<Longrightarrow> op_reserved f = []"
  by (auto simp: inet_pop_def bad_qtype_def bad_qdesc_def res_bind_Ok_iff split: option.splits qtype.splits)

lemma future_operation_poll_step:
  assumes "future_operation_poll env f s = Ok (s', f', ready)" "\<not> op_done f" "sys_typed env (s, xs @ f # ys)"
  shows "sys_typed env (s', xs @ f' # ys) \<and> peers_step env s s'"
proof (cases "\<exists>qd new_qd. f = FoTcp (TcpAccept qd new_qd None)")
  case True
  then obtain qd new_qd where f: "f = FoTcp (TcpAccept qd new_qd None)" by blast
  with assms(1) obtain p x where p: "tcp_poll_accept qd new_qd (tcp_of s) = Ok (p, x)" "s' = set_tcp p s" "f' = FoTcp (TcpAccept qd new_qd x)"
    by (auto simp: res_bind_Ok_iff)
  have new: "map_of (tp_sockets (tcp_of s)) new_qd = None" using assms(3) f by (auto simp: sys_typed_def typed_def tcp_qds_def)
  have "peers_step env s s'" using p new by (auto intro!: peers_step_tcp intro: step_accept)
  moreover have "sys_typed env (s', xs @ f' # ys)"
  proof (cases "\<exists>y. x = Some (Ok y)")
    case True
    with tcp_poll_accept_qds [OF p(1)] assms(3) p(2,3) f show ?thesis by (auto simp: sys_typed_def intro: typed_fulfil)
  next
    case False
    then have "op_reserved f' = [new_qd]" using p(3) by (cases "FoTcp (TcpAccept qd new_qd x)" rule: op_reserved.cases) auto
    with False tcp_poll_accept_qds [OF p(1)] assms(3) p(2) f show ?thesis by (auto simp: sys_typed_def)
  qed
  ultimately show ?thesis by simp
next
  case False
  show ?thesis
  proof (cases f)
    case (FoTcp g)
    with assms(1) obtain p g' where g: "tcp_operation_poll g (tcp_of s) = Ok (p, g', ready)" "s' = set_tcp p s" "f' = FoTcp g'"
      by (auto simp: res_bind_Ok_iff)
    with False FoTcp assms(2) have "tcp_qds p = tcp_qds (tcp_of s) \<and> op_reserved f' = [] \<and> op_reserved f = [] \<and> tcp_step\<^sup>=\<^sup>= (tcp_of s) p"
      by (cases g) (auto simp: res_bind_Ok_iff dest: tcp_poll_connect_qds tcp_poll_recv_qds intro: step_connected step_recv
          split: prod.splits option.splits res.splits)
    then show ?thesis using g(2) assms(3) by (auto intro!: sys_typed_tcp peers_step_tcp)
  next
    case (FoUdp g)
    with assms(1) obtain p g' where g: "udp_operation_poll (he_chan env) g (udp_of s) = Ok (p, g', ready)" "s' = set_udp p s" "f' = FoUdp g'"
      by (auto simp: res_bind_Ok_iff)
    with FoUdp assms(2) have "udp_qds p = udp_qds (udp_of s) \<and> (udp_step (host_ext env) (he_chan env))\<^sup>=\<^sup>= (udp_of s) p"
      by (cases g) (auto dest: udp_pop_poll_qds intro: udp_pop split: prod.splits option.splits res.splits)
    then show ?thesis using g(2,3) FoUdp assms(3) by (auto intro!: sys_typed_udp peers_step_udp)
  qed (use assms in \<open>auto simp: peers_step_def\<close>)
qed

lemma ipv4_peer_receive_step:
  assumes "ipv4_peer_receive env arp buf p = Some (Ok (p', out, r))"
  shows "tcp_qds (pe_tcp p') = tcp_qds (pe_tcp p) \<and> udp_qds (pe_udp p') = udp_qds (pe_udp p) \<and>
     tcp_step\<^sup>=\<^sup>= (pe_tcp p) (pe_tcp p') \<and> (udp_step (host_ext env) (he_chan env))\<^sup>=\<^sup>= (pe_udp p) (pe_udp p')"
proof (cases "ipv4_parse (host_ext env) buf")
  case (Ok x)
  obtain ip t where x: "x = (ip, t)" by fastforce
  show ?thesis
  proof (cases "ip_dst_addr ip \<noteq> rt_local_ipv4_addr (host_rt env) \<and> \<not> ipv4_is_broadcast (ip_dst_addr ip)")
    case True
    with assms Ok x show ?thesis by (simp add: ipv4_peer_receive_def)
  next
    case here: False
    show ?thesis
    proof (cases "ip_proto ip")
      case ICMPv4
      with assms Ok x here have "pe_tcp p' = pe_tcp p" "pe_udp p' = pe_udp p"
        by (auto simp: ipv4_peer_receive_def split: prod.splits res.splits)
      then show ?thesis by simp
    next
      case TCP
      with assms Ok x here obtain q o' where q: "tcp_receive (host_open env arp) ip t (pe_tcp p) = Some (Ok (q, o', r))" "p' = p\<lparr>pe_tcp := q\<rparr>"
        by (auto simp: ipv4_peer_receive_def res_bind_Ok_iff)
      with tcp_receive_qds [OF q(1)] show ?thesis by (auto intro: step_segment)
    next
      case UDP
      with assms Ok x here obtain q x where q: "udp_do_receive (host_ext env) (he_chan env) ip t (pe_udp p) = Some (q, x)" "p' = p\<lparr>pe_udp := q\<rparr>"
        by (auto simp: ipv4_peer_receive_def split: option.splits prod.splits res.splits)
      with udp_do_receive_qds [OF q(1)] show ?thesis by (auto intro: udp_receive)
    qed
  qed
qed (use assms in \<open>auto simp: ipv4_peer_receive_def\<close>)

lemma inet_do_receive_step:
  assumes "inet_do_receive env frame s = Some (Ok (s', out, r))" "sys_typed env (s, ops)"
  shows "sys_typed env (s', ops) \<and> peers_step env s s'"
proof (cases "ethernet2_parse (host_ext env) frame")
  case (Ok x)
  obtain h payload where x: "x = (h, payload)" by fastforce
  show ?thesis
  proof (cases "eth_ether_type h")
    case Ipv4
    with assms(1) Ok x obtain p o' where p: "ipv4_peer_receive env (st_arp s) payload (st_ipv4 s) = Some (Ok (p, o', r))" "s' = s\<lparr>st_ipv4 := p\<rparr>"
      by (auto simp: inet_do_receive_def res_bind_Ok_iff)
    with ipv4_peer_receive_step [OF p(1)] assms(2) show ?thesis by (auto simp: peers_step_def intro!: sys_typed_same [OF assms(2)])
  next
    case Arp
    with assms(1) Ok x obtain a where "s' = s\<lparr>st_arp := a\<rparr>" by (auto simp: inet_do_receive_def res_bind_Ok_iff)
    with assms(2) show ?thesis by (auto simp: peers_step_def intro!: sys_typed_same [OF assms(2)])
  qed (use assms Ok x in \<open>auto simp: inet_do_receive_def peers_step_def\<close>)
qed (use assms in \<open>auto simp: inet_do_receive_def peers_step_def\<close>)

context io_queue_table
begin

lemma new_descriptors:
  assumes "sys_typed env (s, ops)" "he_files env = T"
  obtains tt tq ut uq where "ft_alloc T TcpSocket (st_file_table s) = (tt, tq)" "ft_alloc T UdpSocket (st_file_table s) = (ut, uq)"
    "ft_get T (st_file_table s) tq = None" "ft_get T (st_file_table s) uq = None"
    "map_of (tp_sockets (tcp_of s)) tq = None" "map_of (up_sockets (udp_of s)) uq = None"
proof -
  obtain tt tq where tcp: "ft_alloc T TcpSocket (st_file_table s) = (tt, tq)" by fastforce
  obtain ut uq where udp: "ft_alloc T UdpSocket (st_file_table s) = (ut, uq)" by fastforce
  have fresh: "ft_get T (st_file_table s) tq = None" "ft_get T (st_file_table s) uq = None"
    using alloc_unused tcp udp by blast+
  have "map_of (tp_sockets (tcp_of s)) tq = None" "map_of (up_sockets (udp_of s)) uq = None"
    using assms fresh by (force simp: sys_typed_def typed_def tcp_qds_def udp_qds_def domIff)+
  with tcp udp fresh show ?thesis by (rule that)
qed

lemma inet_socket_step:
  assumes "inet_socket env domain ty s = (s', r)" "sys_typed env (s, ops)" "he_files env = T"
  shows "sys_typed env (s', ops) \<and> peers_step env s s'"
proof -
  from assms(2,3) obtain tt tq ut uq where tcp: "ft_alloc T TcpSocket (st_file_table s) = (tt, tq)"
    and udp: "ft_alloc T UdpSocket (st_file_table s) = (ut, uq)"
    and fresh: "ft_get T (st_file_table s) tq = None" "ft_get T (st_file_table s) uq = None"
    and "map_of (tp_sockets (tcp_of s)) tq = None" "map_of (up_sockets (udp_of s)) uq = None" by (rule new_descriptors)
  then consider "s' = s" | p where "tcp_do_socket tq (tcp_of s) = (p, Ok ())" "s' = set_tcp p (s\<lparr>st_file_table := tt\<rparr>)"
    | p where "udp_do_socket uq (udp_of s) = (p, Ok ())" "s' = set_udp p (s\<lparr>st_file_table := ut\<rparr>)"
    using assms(1,3) tcp udp by (auto simp: inet_socket_def tcp_do_socket_def udp_do_socket_def split: if_splits)
  then show ?thesis
  proof cases
    case 1
    with assms(2) show ?thesis by (simp add: peers_step_def)
  next
    case (2 p)
    with tcp_do_socket_qds [OF 2(1)] alloc_get [OF tcp] fresh(1) assms(2,3) show ?thesis
      by (auto simp: sys_typed_def peers_step_def intro!: typed_open_tcp step_socket)
  next
    case (3 p)
    with udp_do_socket_qds [OF 3(1)] alloc_get [OF udp] fresh(2) assms(2,3) show ?thesis
      by (auto simp: sys_typed_def peers_step_def intro!: typed_open_udp udp_socket)
  qed
qed

lemma inet_accept_step:
  assumes "inet_accept env qd s = (s', Ok f)" "sys_typed env (s, ops)" "he_files env = T"
  shows "sys_typed env (s', f # ops) \<and> peers_step env s s'"
proof -
  obtain t q where alloc: "ft_alloc T TcpSocket (st_file_table s) = (t, q)" by fastforce
  with assms(1,3) have "s' = s\<lparr>st_file_table := t\<rparr>" "f = FoTcp (TcpAccept qd q None)"
    by (auto simp: inet_accept_def bad_qtype_def bad_qdesc_def split: option.splits qtype.splits)
  with alloc_get [OF alloc] alloc_unused [OF alloc] assms(2,3) show ?thesis
    by (auto simp: sys_typed_def peers_step_def intro!: typed_reserve)
qed

lemma inet_close_step:
  assumes "inet_close env qd s = Ok (s', out, r)" "sys_typed env (s, ops)" "he_files env = T"
  shows "sys_typed env (s', ops) \<and> peers_step env s s'"
proof (cases "ft_get T (st_file_table s) qd")
  case (Some q)
  show ?thesis
  proof (cases q)
    case TcpSocket
    with assms(1,3) Some obtain p o' x where p: "tcp_do_close (host_open env (st_arp s)) qd (tcp_of s) = Ok (p, o', x)"
      by (auto simp: inet_close_def res_bind_Ok_iff)
    with assms(1,3) Some TcpSocket have s': "s' = (if x = Ok () then (set_tcp p s)\<lparr>st_file_table := ft_free T qd (st_file_table s)\<rparr> else set_tcp p s)"
      by (cases x) (auto simp: inet_close_def)
    have "x = Ok () \<Longrightarrow> qd \<in> tcp_qds (tcp_of s)"
      using p by (auto simp: tcp_do_close_def tcp_qds_def Let_def res_bind_Ok_iff split: option.splits socket.splits)
    with s' tcp_do_close_qds [OF p] free_get assms(2,3) show ?thesis
      by (auto simp: sys_typed_def peers_step_def intro!: typed_close_tcp step_close [OF p] elim: typed_less)
  next
    case UdpSocket
    obtain p x where p: "udp_do_close qd (udp_of s) = (p, x)" by fastforce
    with assms(1,3) Some UdpSocket have s': "s' = (if x = Ok () then (set_udp p s)\<lparr>st_file_table := ft_free T qd (st_file_table s)\<rparr> else set_udp p s)"
      by (cases x) (auto simp: inet_close_def)
    from this udp_do_close_qds [OF p] free_get assms(2,3) Some UdpSocket show ?thesis
      by (auto simp: sys_typed_def peers_step_def intro!: typed_close_udp udp_close [OF p] elim: typed_less)
  qed (use assms Some in \<open>auto simp: inet_close_def peers_step_def bad_qtype_def\<close>)
qed (use assms in \<open>auto simp: inet_close_def peers_step_def bad_qdesc_def\<close>)

lemma inet_take_step:
  assumes "inet_take_operation env f s = Ok (s', qd, r)" "sys_typed env (s, xs @ f # ys)" "he_files env = T"
  shows "sys_typed env (s', xs @ ys) \<and> peers_step env s s'"
proof (cases "\<exists>a q e. f = FoTcp (TcpAccept a q (Some (Err e)))")
  case True
  then obtain a q e where f: "f = FoTcp (TcpAccept a q (Some (Err e)))" by blast
  with assms(1,3) have "s' = s\<lparr>st_file_table := ft_free T q (st_file_table s)\<rparr>" by (auto simp: inet_take_operation_def)
  with f assms(2,3) free_get show ?thesis by (auto simp: sys_typed_def peers_step_def intro!: typed_release)
next
  case False
  have "s' = s \<and> op_reserved f = []"
  proof (cases f)
    case (FoTcp g)
    with False assms(1) show ?thesis
      by (cases g rule: tcp_expect_result.cases) (auto simp: inet_take_operation_def)
  next
    case (FoUdp g)
    with assms(1) show ?thesis by (auto simp: inet_take_operation_def res_bind_Ok_iff)
  qed (use assms in \<open>simp add: inet_take_operation_def\<close>)
  with assms(2) show ?thesis by (auto simp: sys_typed_def peers_step_def)
qed

lemma stack_step_typed:
  assumes "stack_step env x y" "sys_typed env x" "he_files env = T"
  shows "sys_typed env y \<and> peers_step env (fst x) (fst y)"
  using assms
proof (cases rule: stack_step.cases)
  case (on_connection s k cb cb' ops)
  with assms(2) show ?thesis
    by (auto intro!: sys_typed_tcp peers_step_tcp simp: tcp_qds_def intro: step_background)
next
  case (on_pop qd s f ops)
  with assms(2) inet_pop_reserves [of env qd s f] show ?thesis by (auto simp: sys_typed_def peers_step_def)
qed (auto dest: inet_socket_step inet_bind_step inet_listen_step inet_accept_step inet_connect_step inet_close_step inet_push2_step inet_pushto2_step
    future_operation_poll_step inet_take_step inet_do_receive_step tcp_connecting_task_qds tcp_passive_task_qds udp_background_take_qds
    intro: step_connecting step_passive udp_background intro!: sys_typed_tcp sys_typed_udp peers_step_tcp peers_step_udp
    simp: peers_step_def sys_typed_def)

lemma inet_socket_granted:
  assumes "sys_typed env (s, ops)" "ty \<in> {SOCK_STREAM, SOCK_DGRAM}" "he_files env = T"
  shows "\<exists>s' qd. inet_socket env AF_INET ty s = (s', Ok qd) \<and> ft_get T (st_file_table s) qd = None"
  by (rule new_descriptors [OF assms(1,3)]) (use assms(2,3) in \<open>auto simp: inet_socket_def tcp_do_socket_def udp_do_socket_def SOCK_STREAM_def SOCK_DGRAM_def\<close>)

lemma stack_reach_typed:
  assumes "stack_reach env x0 x" "sys_typed env x0" "he_files env = T"
  shows "sys_typed env x \<and> tcp_reach (tcp_of (fst x0)) (tcp_of (fst x)) \<and>
     udp_reach (host_ext env) (he_chan env) (udp_of (fst x0)) (udp_of (fst x))"
  using assms
proof (induction rule: stack_reach.induct)
  case (stack_next x y)
  with stack_step_typed [OF stack_next.hyps(2)] show ?case
    by (auto simp: peers_step_def intro: tcp_next udp_next)
qed (auto intro: tcp_start udp_start)

end

section \<open>Polls of pending operations\<close>

lemma cb_poll_recv_no_panic: "cb_poll_recv cb \<noteq> (cb', Some (Panic m))"
  by (auto simp: cb_poll_recv_def receiver_pop_def split: list.splits prod.splits option.splits)

lemma tcp_poll_recv_no_panic: "tcp_poll_recv fd p \<noteq> (p', Some (Panic m))"
  using cb_poll_recv_no_panic by (auto simp: tcp_poll_recv_def split: option.splits socket.splits prod.splits)

lemma udp_pop_poll_no_panic: "udp_pop_poll C ref p \<noteq> (p', Some (Panic m))"
  by (auto simp: udp_pop_poll_def sq_try_pop_def split: option.splits prod.splits next_msg.splits)

lemma future_operation_poll_ok:
  assumes "tcp_peer_ok (tcp_of s)" "sys_typed env (s, ops)" "f \<in> set ops" "\<not> op_done f"
  shows "\<exists>s' f' ready. future_operation_poll env f s = Ok (s', f', ready)"
proof (cases f)
  case (FoTcp g)
  have "\<exists>p g' ready. tcp_operation_poll g (tcp_of s) = Ok (p, g', ready)"
  proof (cases g)
    case (TcpAccept qd new_qd d)
    with FoTcp assms(4) have "new_qd \<in> set (op_reserved f)" by simp
    with assms(2,3) have "map_of (tp_sockets (tcp_of s)) new_qd = None" by (auto simp: sys_typed_def typed_def tcp_qds_def)
    then show ?thesis using tcp_poll_accept_spec [OF assms(1), of new_qd qd] TcpAccept by auto
  next
    case (TcpConnect fd d)
    then show ?thesis using tcp_poll_connect_spec [OF assms(1), of fd] by auto
  next
    case (TcpPop fd d)
    obtain p x where x: "tcp_poll_recv fd (tcp_of s) = (p, x)" by fastforce
    with tcp_poll_recv_no_panic [of fd "tcp_of s" p] TcpPop show ?thesis by (auto split: option.splits res.splits)
  qed auto
  with FoTcp show ?thesis by auto
next
  case (FoUdp g)
  have "\<exists>p g' ready. udp_operation_poll (he_chan env) g (udp_of s) = Ok (p, g', ready)"
  proof (cases g)
    case (UdpPop qd ref d)
    obtain p x where x: "udp_pop_poll (he_chan env) ref (udp_of s) = (p, x)" by fastforce
    with udp_pop_poll_no_panic [of "he_chan env" ref "udp_of s" p] UdpPop show ?thesis by (auto split: option.splits res.splits)
  qed auto
  with FoUdp show ?thesis by auto
qed auto

end
