(* ===== verification/Tcp_Transfer.thy ===== *)
theory Tcp_Transfer
  imports Stack_Lemmas Inet_Runtime
begin

text \<open>
  One buffer from application to application on an open connection, on a network that loses nothing: the push, the
  frame of the segment, the pop of the other side, the delayed acknowledgement and its frame.  Each lemma takes the state
  of one control block before to its state after; the invariant \<open>ready\<close> of the two control blocks holds again at the end, so buffers follow one another.
\<close>

section \<open>Round-trip samples\<close>

text \<open>What is relied on of the floating-point arithmetic: the calculators for which it stays defined.\<close>

locale rto_total =
  fixes F :: "'f flops" and good :: "'f rto_calculator \<Rightarrow> bool"
  assumes estimate: "good c \<Longrightarrow> \<exists>d. rto_estimate F c = Ok d"
    and sample: "good c \<Longrightarrow> \<exists>c'. rto_add_sample F rtt c = Ok c' \<and> good c'"

definition exact_good :: "rat rto_calculator \<Rightarrow> bool" where
  "exact_good c \<longleftrightarrow> 0 \<le> rc_srtt c \<and> 0 \<le> rc_rttvar c \<and> 0 \<le> rc_rto c"

lemma exact_update_good: "exact_good c \<Longrightarrow> 0 \<le> x \<Longrightarrow> \<exists>c'. update_rto exact_flops x c = Ok c' \<and> exact_good c'"
  by (auto simp: update_rto_def exact_good_def exact_flops_def rat_cmp_def LBOUND_SEC_def UBOUND_SEC_def Let_def)

lemma exact_ops:
  "f_lit exact_flops x = x" "f_add exact_flops x y = x + y" "f_sub exact_flops x y = x - y" "f_mul exact_flops x y = x * y"
  "f_div exact_flops x y = x / y" "f_abs exact_flops x = \<bar>x\<bar>" "f_cmp exact_flops x y = rat_cmp x y" "f_of_dur exact_flops n = of_nat n / 1000000000"
  by (simp_all add: exact_flops_def)

lemma exact_sample_good: "exact_good c \<Longrightarrow> \<exists>c'. rto_add_sample exact_flops rtt c = Ok c' \<and> exact_good c'"
  unfolding rto_add_sample_def Let_def exact_ops
  by (auto simp: rat_cmp_def GRANULARITY_def intro!: exact_update_good) (auto simp: exact_good_def)

interpretation exact_rto: rto_total exact_flops exact_good
  by unfold_locales (auto simp: exact_sample_good, simp add: rto_estimate_def exact_good_def exact_flops_def)

section \<open>A data segment\<close>

definition data_segment :: "('f, 'cc) tcp_env \<Rightarrow> socket_addr \<Rightarrow> socket_addr \<Rightarrow> mac_address \<Rightarrow> tcp_header \<Rightarrow> bytes \<Rightarrow> tcp_segment" where
  "data_segment env l r mac h d = \<lparr>ts_ethernet2_hdr = ethernet2_new mac (rt_local_link_addr (te_rt env)) Ipv4,
     ts_ipv4_hdr = ipv4_new (fst l) (fst r) TCP, ts_tcp_hdr = h, ts_data = d, ts_tx_checksum_offload = te_tx_offload env\<rparr>"

text \<open>The header of a connection, with its sequence number \<open>q\<close>, acknowledgement \<open>a\<close> and window \<open>w\<close>.\<close>

definition conn_header :: "socket_addr \<Rightarrow> socket_addr \<Rightarrow> seq_number \<Rightarrow> seq_number \<Rightarrow> u16 \<Rightarrow> tcp_header" where
  "conn_header l r q a w = (tcp_header_new (snd l) (snd r))\<lparr>tcp_window_size := w, tcp_ack := True, tcp_ack_num := a, tcp_seq_num := q\<rparr>"

definition wire_window :: "('f, 'cc) control_block \<Rightarrow> u16" where
  "wire_window cb = ucast (drop_bit (unat (cb_window_scale cb) mod 32) (get_receive_window_size cb))"

lemma conn_header_simps [simp]:
  "tcp_src_port (conn_header l r q a w) = snd l" "tcp_dst_port (conn_header l r q a w) = snd r" "tcp_seq_num (conn_header l r q a w) = q"
  "tcp_ack_num (conn_header l r q a w) = a" "tcp_window_size (conn_header l r q a w) = w" "tcp_ack (conn_header l r q a w)"
  "\<not> tcp_syn (conn_header l r q a w)" "\<not> tcp_fin (conn_header l r q a w)" "\<not> tcp_rst (conn_header l r q a w)"
  "tcp_num_options (conn_header l r q a w) = 0" "tcp_option_list (conn_header l r q a w) = replicate 5 NoOperation"
  by (simp_all add: conn_header_def tcp_header_new_def MAX_TCP_OPTIONS_def)

lemma conn_header_norm [simp]: "tcp_norm (conn_header l r q a w) = conn_header l r q a w"
  by (simp add: tcp_norm_def tcp_iter_options_def conn_header_def tcp_header_new_def MAX_TCP_OPTIONS_def)

lemma hdr_window_size_fits: "window_fits cb \<Longrightarrow> hdr_window_size cb = Ok (wire_window cb)"
  using hdr_window_size_total [of cb] by (auto simp: window_fits_def hdr_window_size_def wire_window_def Let_def split: if_splits)

lemma cb_tcp_header_fits:
  assumes "window_fits cb"
  obtains h where "cb_tcp_header cb = Ok h" "\<not> tcp_fin h"
    "\<And>q. h\<lparr>tcp_seq_num := q\<rparr> = conn_header (cb_local cb) (cb_remote cb) q (receive_next (cb_receiver cb)) (wire_window cb)"
  using hdr_window_size_fits [OF assms] by (simp add: cb_tcp_header_def conn_header_def tcp_header_new_def)

lemma no_congestion_state [simp]: "(cb :: 'f conn_block)\<lparr>cb_cc := x\<rparr> = cb"
  by simp

lemma none_ops_simps [simp]:
  "cc_get_cwnd none_ops c = - 1" "cc_get_limited_transmit_cwnd_increase none_ops c = 0" "cc_on_rto none_ops w c = c"
  "\<not> cc_get_retransmit_now_flag none_ops c"
  by (simp_all add: none_ops_def)

section \<open>Sending\<close>

lemma cb_send_data:
  assumes "window_fits cb" "\<not> cb_user_is_done_sending cb" "unsent_queue (cb_sender cb) = []" "te_cc env = none_ops"
    and "send_next (cb_sender cb) = send_unacked (cb_sender cb)" "rto_estimate (te_fl env) (cb_rto cb) = Ok rto"
    and "te_arp env (fst (cb_remote cb)) = Some mac" "d \<noteq> []" "length d < 2 ^ 31" "length d \<le> unat (send_window (cb_sender cb))"
  shows "\<exists>t. cb_send env d cb = Ok (cb\<lparr>
     cb_sender := (cb_sender cb)\<lparr>send_next := send_next (cb_sender cb) + of_nat (length d), unsent_seq_no := unsent_seq_no (cb_sender cb) + of_nat (length d),
       unacked_queue := unacked_queue (cb_sender cb) @ [\<lparr>us_bytes = d, us_initial_tx = Some (te_now env)\<rparr>]\<rparr>,
     cb_ack_deadline := None, cb_retransmit_deadline := t,
     cb_tx := cb_tx cb @ [data_segment env (cb_local cb) (cb_remote cb) mac
        (conn_header (cb_local cb) (cb_remote cb) (send_next (cb_sender cb)) (receive_next (cb_receiver cb)) (wire_window cb)) d]\<rparr>, Ok ())"
proof -
  let ?n = "of_nat (length d) :: u32"
  have n: "unat ?n = length d" using assms(9) by (simp add: unat_of_nat_u32)
  then have "?n \<noteq> 0" "?n \<le> send_window (cb_sender cb)" "0 < send_window (cb_sender cb)" using assms(8,10) less_le_trans [of 0 "length d"]
    by (auto simp: word_le_nat_alt word_less_nat_alt)
  moreover obtain h where h: "cb_tcp_header cb = Ok h" "\<not> tcp_fin h"
    "\<And>q. h\<lparr>tcp_seq_num := q\<rparr> = conn_header (cb_local cb) (cb_remote cb) q (receive_next (cb_receiver cb)) (wire_window cb)"
    using assms(1) by (rule cb_tcp_header_fits) blast
  moreover have "?n \<le> - 1" by simp
  ultimately show ?thesis
    using assms by (intro exI [of _ "if cb_retransmit_deadline cb = None then Some (te_now env + rto) else cb_retransmit_deadline cb"])
      (simp add: cb_send_def send_immediate_def seq_sub_def seq_add_def cb_emit_def data_segment_def push_unacked_segment_def Let_def;
       cases cb; simp)
qed


section \<open>Receiving\<close>

lemma cb_receive_data:
  assumes seg: "next_segment h d cb" and fits: "window_fits cb" and store: "cb_out_of_order cb = []" "cb_ack_deadline cb = None"
    and rto: "rto_estimate (te_fl env) (cb_rto cb) = Ok rto" and st: "receives_data (cb_state cb)"
  shows "cb_receive env h d (cb :: 'f conn_block) = Some (Ok (cb\<lparr>cb_receiver := receiver_push d (cb_receiver cb), cb_waker := False,
     cb_ack_deadline := Some (te_now env + cb_ack_delay_timeout cb)\<rparr>))"
proof -
  have ack: "cb_process_ack env h cb = Some (Ok (cb, True))"
    using cb_process_ack_nothing_new [OF rto] seg by (auto simp: next_segment_def)
  have "cb\<lparr>cb_receiver := r, cb_out_of_order := [], cb_waker := False, cb_ack_deadline := t\<rparr> =
      cb\<lparr>cb_receiver := r, cb_waker := False, cb_ack_deadline := t\<rparr>" for r t using store(1) by (cases cb) simp
  then have "cb_receive_in_order env h d cb = Ok (cb\<lparr>cb_receiver := receiver_push d (cb_receiver cb), cb_waker := False,
     cb_ack_deadline := Some (te_now env + cb_ack_delay_timeout cb)\<rparr>)"
    using seg st store by (simp add: cb_receive_in_order_def receive_data_nothing_stored next_segment_def Let_def)
  with cb_accept_next_segment [OF seg] fits ack seg show ?thesis
    by (simp add: cb_receive_def next_segment_def window_fits_def Let_def)
qed

lemma cb_acknowledges:
  assumes "window_fits cb" "cb_ack_deadline cb = Some t" "t \<le> te_now env" "te_arp env (fst (cb_remote cb)) = Some mac"
  shows "acknowledger_timer env cb = Ok (cb\<lparr>cb_ack_deadline := None, cb_tx := cb_tx cb @ [data_segment env (cb_local cb) (cb_remote cb) mac
     (conn_header (cb_local cb) (cb_remote cb) (send_next (cb_sender cb)) (receive_next (cb_receiver cb)) (wire_window cb)) []]\<rparr>)"
proof -
  obtain h where "cb_tcp_header cb = Ok h" "\<not> tcp_fin h"
    "\<And>q. h\<lparr>tcp_seq_num := q\<rparr> = conn_header (cb_local cb) (cb_remote cb) q (receive_next (cb_receiver cb)) (wire_window cb)"
    using assms(1) by (rule cb_tcp_header_fits) blast
  with assms show ?thesis
    by (simp add: acknowledger_timer_def cb_send_ack_def cb_emit_def data_segment_def Let_def)
qed

lemma remove_acked_one:
  assumes "us_initial_tx u = Some t" "us_bytes u \<noteq> []" "rto_add_sample F (now - t) rto = Ok c"
  shows "remove_acked E F now (length (us_bytes u)) [u] rto = Some (Ok ([], c))"
  using assms by (simp add: remove_acked.simps [of E F now _ "[u]"] remove_acked_zero)

text \<open>A bare acknowledgement of everything outstanding, data or FIN.\<close>

lemma cb_receive_ack_of_all:
  assumes h: "tcp_seq_num h = receive_next (cb_receiver cb)" "tcp_ack h" "\<not> tcp_rst h" "\<not> tcp_syn h" "\<not> tcp_fin h"
    and q: "seq_lt (send_unacked (cb_sender cb)) (send_next (cb_sender cb))" "tcp_ack_num h = send_next (cb_sender cb)"
      "remove_acked (te_ext env) (te_fl env) (te_now env) (unat (seq_sub (send_next (cb_sender cb)) (send_unacked (cb_sender cb))))
         (unacked_queue (cb_sender cb)) (cb_rto cb) = Some (Ok ([], c))"
    and rto: "rto_estimate (te_fl env) (cb_rto cb) = Ok rto"
  shows "cb_receive env h [] (cb :: 'f conn_block) = Some (Ok (cb\<lparr>
     cb_sender := update_send_window h ((cb_sender cb)\<lparr>unacked_queue := [], send_unacked := tcp_ack_num h\<rparr>),
     cb_rto := c, cb_retransmit_deadline := None, cb_state := state_after_ack_of_all (cb_state cb)\<rparr>))"
proof -
  have "cb_process_ack env h cb = Some (Ok (cb\<lparr>
     cb_sender := update_send_window h ((cb_sender cb)\<lparr>unacked_queue := [], send_unacked := tcp_ack_num h\<rparr>),
     cb_rto := c, cb_retransmit_deadline := None, cb_state := state_after_ack_of_all (cb_state cb)\<rparr>, True))"
    using q rto by (simp add: cb_process_ack_def Let_def seq_le_dist)
  with cb_accept_bare_ack [OF h(1,4,5)] h show ?thesis
    by (simp add: cb_receive_def cb_receive_in_order_def Let_def)
qed

lemma cb_receive_all_acked:
  assumes h: "tcp_seq_num h = receive_next (cb_receiver cb)" "tcp_ack h" "\<not> tcp_rst h" "\<not> tcp_syn h" "\<not> tcp_fin h"
    and q: "unacked_queue (cb_sender cb) = [\<lparr>us_bytes = d, us_initial_tx = Some t\<rparr>]" "d \<noteq> []" "length d < 2 ^ 31"
      "send_next (cb_sender cb) = send_unacked (cb_sender cb) + of_nat (length d)" "tcp_ack_num h = send_next (cb_sender cb)"
    and st: "cb_state cb = Established"
    and rto: "rto_estimate (te_fl env) (cb_rto cb) = Ok rto" "rto_add_sample (te_fl env) (te_now env - t) (cb_rto cb) = Ok c"
  shows "cb_receive env h [] (cb :: 'f conn_block) = Some (Ok (cb\<lparr>
     cb_sender := update_send_window h ((cb_sender cb)\<lparr>unacked_queue := [], send_unacked := tcp_ack_num h\<rparr>),
     cb_rto := c, cb_retransmit_deadline := None\<rparr>))"
proof -
  have "seq_lt (send_unacked (cb_sender cb)) (send_next (cb_sender cb))"
    using seq_lt_offsets [of 0 "length d" "send_unacked (cb_sender cb)"] q(2-4) by simp
  moreover have "unat (seq_sub (send_next (cb_sender cb)) (send_unacked (cb_sender cb))) = length d"
    using q(3,4) by (simp add: seq_sub_def unat_of_nat_u32)
  moreover have "remove_acked (te_ext env) (te_fl env) (te_now env) (length d) [\<lparr>us_bytes = d, us_initial_tx = Some t\<rparr>] (cb_rto cb) = Some (Ok ([], c))"
    using remove_acked_one [of "\<lparr>us_bytes = d, us_initial_tx = Some t\<rparr>" t, OF _ _ rto(2)] q(2) by simp
  moreover have "cb\<lparr>cb_sender := x, cb_rto := c, cb_retransmit_deadline := None, cb_state := Established\<rparr> =
      cb\<lparr>cb_sender := x, cb_rto := c, cb_retransmit_deadline := None\<rparr>" for x using st by (cases cb) simp
  ultimately show ?thesis
    using cb_receive_ack_of_all [OF h _ q(5) _ rto(1), of c] q(1) st by (simp add: state_after_ack_of_all_def)
qed


section \<open>The two ends of a connection\<close>

text \<open>
  Both ends agree, nothing is outstanding or unread from \<open>a\<close> to \<open>b\<close>, and \<open>m\<close> bytes fit into what \<open>a\<close> knows of the window of \<open>b\<close> now and
  when \<open>b\<close> announces its window again.
\<close>

definition ready :: "nat \<Rightarrow> 'f conn_block \<Rightarrow> 'f conn_block \<Rightarrow> bool" where
  "ready m a b \<longleftrightarrow> ends_agree a b \<and> ends_agree b a \<and> window_fits a \<and> window_fits b \<and>
     \<not> cb_user_is_done_sending a \<and> cb_ack_deadline b = None \<and> m \<le> unat (send_window (cb_sender a)) \<and>
     m \<le> unat (push_bit (unat (cb_window_scale b) mod 32) (drop_bit (unat (cb_window_scale b) mod 32) (cb_receive_buffer_size b)))"

text \<open>The states of the two ends after the segment has been sent and after it has been read.\<close>

definition cb_rest :: "'f conn_block \<Rightarrow> _" where
  "cb_rest cb = ((cb_local cb, cb_remote cb, cb_state cb, cb_ack_delay_timeout cb), cb_receive_buffer_size cb, cb_window_scale cb,
     cb_out_of_order cb, cb_user_is_done_sending cb)"

definition sent_to :: "bytes \<Rightarrow> nat \<Rightarrow> 'f conn_block \<Rightarrow> 'f conn_block \<Rightarrow> bool" where
  "sent_to d t a a' \<longleftrightarrow> cb_rest a' = cb_rest a \<and> cb_receiver a' = cb_receiver a \<and> cb_rto a' = cb_rto a \<and> cb_ack_deadline a' = None \<and>
     cb_sender a' = (cb_sender a)\<lparr>send_next := send_next (cb_sender a) + of_nat (length d), unsent_seq_no := unsent_seq_no (cb_sender a) + of_nat (length d),
       unacked_queue := [\<lparr>us_bytes = d, us_initial_tx = Some t\<rparr>]\<rparr>"

definition read_from :: "bytes \<Rightarrow> 'f conn_block \<Rightarrow> 'f conn_block \<Rightarrow> bool" where
  "read_from d b b' \<longleftrightarrow> cb_rest b' = cb_rest b \<and> cb_sender b' = cb_sender b \<and> cb_rto b' = cb_rto b \<and>
     cb_receiver b' = receiver_new (receive_next (cb_receiver b) + of_nat (length d)) (receive_next (cb_receiver b) + of_nat (length d))"

text \<open>The facts are stated one by one: rewriting with both agreements at once does not end.\<close>

lemma readyD:
  assumes "ready m a b"
  shows "ends_agree a b" "ends_agree b a" "window_fits a" "window_fits b" "cb_ack_deadline b = None" "\<not> cb_user_is_done_sending a"
    "cb_local a = cb_remote b" "cb_remote a = cb_local b" "cb_state a = Established" "cb_state b = Established"
    "unsent_queue (cb_sender a) = []" "unacked_queue (cb_sender a) = []" "recv_queue (cb_receiver b) = []" "cb_out_of_order b = []"
    "send_next (cb_sender a) = receive_next (cb_receiver b)" "send_unacked (cb_sender a) = receive_next (cb_receiver b)"
    "reader_next (cb_receiver b) = receive_next (cb_receiver b)" "send_unacked (cb_sender b) = receive_next (cb_receiver a)"
    "send_next (cb_sender b) = receive_next (cb_receiver a)"
    "m \<le> unat (send_window (cb_sender a))" "send_window (cb_sender a) \<le> cb_receive_buffer_size b"
    "m \<le> unat (push_bit (unat (cb_window_scale b) mod 32) (drop_bit (unat (cb_window_scale b) mod 32) (cb_receive_buffer_size b)))"
  using assms unfolding ready_def ends_agree_def by blast+

lemma idle_window: "ends_agree a b \<Longrightarrow> get_receive_window_size b = cb_receive_buffer_size b"
  by (simp add: ends_agree_def get_receive_window_size_def seq_sub_def)

lemma ready_sends:
  assumes "ready m a b" "d \<noteq> []" "length d \<le> m" "length d < 2 ^ 31" "te_cc env = none_ops" "rto_estimate (te_fl env) (cb_rto a) = Ok rto"
    and "te_arp env (fst (cb_remote a)) = Some mac"
  shows "\<exists>a'. cb_send env d a = Ok (a', Ok ()) \<and> sent_to d (te_now env) a a' \<and>
     cb_tx a' = cb_tx a @ [data_segment env (cb_local a) (cb_remote a) mac
        (conn_header (cb_local a) (cb_remote a) (send_next (cb_sender a)) (receive_next (cb_receiver a)) (wire_window a)) d]"
proof -
  note r = readyD [OF assms(1)]
  have "send_next (cb_sender a) = send_unacked (cb_sender a)" "length d \<le> unat (send_window (cb_sender a))"
    using r(15,16,20) assms(3) by simp_all
  note a = r(3,6,11) r(12) this
  from cb_send_data [OF a(1-3) assms(5) a(5) assms(6,7,2,4) a(6)] obtain t where
    "cb_send env d a = Ok (a\<lparr>
     cb_sender := (cb_sender a)\<lparr>send_next := send_next (cb_sender a) + of_nat (length d), unsent_seq_no := unsent_seq_no (cb_sender a) + of_nat (length d),
       unacked_queue := [\<lparr>us_bytes = d, us_initial_tx = Some (te_now env)\<rparr>]\<rparr>,
     cb_ack_deadline := None, cb_retransmit_deadline := t,
     cb_tx := cb_tx a @ [data_segment env (cb_local a) (cb_remote a) mac
        (conn_header (cb_local a) (cb_remote a) (send_next (cb_sender a)) (receive_next (cb_receiver a)) (wire_window a)) d]\<rparr>, Ok ())"
    using a(4) by (auto simp only: append_Nil)
  then show ?thesis by (simp add: sent_to_def cb_rest_def)
qed

lemma ready_receives:
  assumes "ready m a b" "d \<noteq> []" "length d \<le> m" "length d < 2 ^ 31" "rto_estimate (te_fl env) (cb_rto b) = Ok rto"
  shows "\<exists>b'. cb_receive env (conn_header (cb_local a) (cb_remote a) (send_next (cb_sender a)) (receive_next (cb_receiver a)) w) d b = Some (Ok b') \<and>
     (\<exists>b''. cb_poll_recv b' = (b'', Some (Ok d)) \<and> read_from d b b'' \<and> cb_tx b'' = cb_tx b \<and> cb_ack_deadline b'' = Some (te_now env + cb_ack_delay_timeout b)) \<and>
     cb_tx b' = cb_tx b"
proof -
  let ?h = "conn_header (cb_local a) (cb_remote a) (send_next (cb_sender a)) (receive_next (cb_receiver a)) w"
  note r = readyD [OF assms(1)]
  have "length d \<le> unat (get_receive_window_size b)"
    using r(20,21) assms(3) by (simp add: idle_window [OF r(1)] word_le_nat_alt)
  then have "next_segment ?h d b" using assms(2,4) r(15,18) by (simp add: next_segment_def seq_lt_dist)
  from cb_receive_data [OF this r(4,14,5) assms(5)] r(10) have "cb_receive env ?h d b = Some (Ok (b\<lparr>cb_receiver := receiver_push d (cb_receiver b), cb_waker := False,
     cb_ack_deadline := Some (te_now env + cb_ack_delay_timeout b)\<rparr>))" by (simp add: receives_data_def)
  then show ?thesis using r(13,17)
    by (simp add: read_from_def cb_rest_def cb_poll_recv_def receiver_pop_def receiver_push_def receiver_new_def seq_add_def)
qed


lemma read_window_fits: "window_fits b \<Longrightarrow> read_from d b b' \<Longrightarrow> ends_agree a b \<Longrightarrow> window_fits b'"
  using idle_window [of a b] by (simp add: window_fits_def read_from_def cb_rest_def get_receive_window_size_def receiver_new_def seq_sub_def)

lemma read_acknowledges:
  assumes "ready m a b" "read_from d b b'" "cb_ack_deadline b' = Some t" "t \<le> te_now env" "te_arp env (fst (cb_remote b)) = Some mac"
  shows "\<exists>b''. acknowledger_timer env b' = Ok b'' \<and> read_from d b b'' \<and> cb_ack_deadline b'' = None \<and>
     cb_tx b'' = cb_tx b' @ [data_segment env (cb_local b) (cb_remote b) mac
       (conn_header (cb_local b) (cb_remote b) (send_next (cb_sender b)) (receive_next (cb_receiver b) + of_nat (length d)) (wire_window b')) []]"
proof -
  have "window_fits b'" using read_window_fits assms(2) readyD(1,4) [OF assms(1)] by blast
  moreover have "cb_remote b' = cb_remote b" "cb_local b' = cb_local b" "cb_sender b' = cb_sender b"
    "receive_next (cb_receiver b') = receive_next (cb_receiver b) + of_nat (length d)"
    using assms(2) by (simp_all add: read_from_def cb_rest_def receiver_new_def)
  ultimately show ?thesis using cb_acknowledges [of b' t env mac] assms(2-5)
    by (simp add: read_from_def cb_rest_def)
qed

text \<open>The acknowledgement empties the queue of the sender, and both ends are ready again.\<close>

lemma wire_window_back:
  assumes "window_fits b" "get_receive_window_size b = cb_receive_buffer_size b"
  shows "(ucast (wire_window b) :: u32) = drop_bit (unat (cb_window_scale b) mod 32) (cb_receive_buffer_size b)"
proof -
  have "unat (drop_bit (unat (cb_window_scale b) mod 32) (cb_receive_buffer_size b)) < 2 ^ 16" using assms(1) by (simp add: window_fits_def)
  then show ?thesis unfolding wire_window_def assms(2)
    by (simp add: word_unat_eq_iff unsigned_ucast_eq unsigned_take_bit_eq take_bit_nat_eq_self)
qed

lemma push_drop_le: "push_bit k (drop_bit k (x :: u32)) \<le> x"
proof -
  have "take_bit k x \<le> x" by (simp add: word_le_nat_alt unsigned_take_bit_eq)
  moreover have "push_bit k (drop_bit k x) = x - take_bit k x" using bits_ident [of k x] by (simp add: algebra_simps)
  ultimately show ?thesis by (simp add: word_sub_le)
qed


lemma acked_again:
  assumes r: "ready m a b" and a': "sent_to d t a a'" and b': "read_from d b b'" and d: "d \<noteq> []" "length d < 2 ^ 31"
    and rto: "rto_estimate (te_fl env) (cb_rto a) = Ok rto" "rto_add_sample (te_fl env) (te_now env - t) (cb_rto a) = Ok c"
  shows "\<exists>a''. cb_receive env (conn_header (cb_local b) (cb_remote b) (send_next (cb_sender b)) (receive_next (cb_receiver b) + of_nat (length d))
      (wire_window b')) [] a' = Some (Ok a'') \<and> cb_tx a'' = cb_tx a' \<and> cb_rto a'' = c \<and> cb_ack_deadline a'' = None \<and> cb_rest a'' = cb_rest a \<and> cb_receiver a'' = cb_receiver a \<and>
     cb_sender a'' = update_send_window (conn_header (cb_local b) (cb_remote b) (send_next (cb_sender b)) (receive_next (cb_receiver b) + of_nat (length d)) (wire_window b'))
       ((cb_sender a)\<lparr>send_next := receive_next (cb_receiver b) + of_nat (length d), unsent_seq_no := receive_next (cb_receiver b) + of_nat (length d),
         send_unacked := receive_next (cb_receiver b) + of_nat (length d)\<rparr>)"
proof -
  let ?n = "receive_next (cb_receiver b) + of_nat (length d)"
  let ?h = "conn_header (cb_local b) (cb_remote b) (send_next (cb_sender b)) ?n (wire_window b')"
  note r = readyD [OF r]
  have u: "unsent_seq_no (cb_sender a) = receive_next (cb_receiver b)" using r(1) by (simp add: ends_agree_def)
  have a: "tcp_seq_num ?h = receive_next (cb_receiver a')" "unacked_queue (cb_sender a') = [\<lparr>us_bytes = d, us_initial_tx = Some t\<rparr>]"
    "send_next (cb_sender a') = send_unacked (cb_sender a') + of_nat (length d)" "tcp_ack_num ?h = send_next (cb_sender a')" "cb_state a' = Established"
    "cb_rto a' = cb_rto a"
    using a' r(9,15,16,19) by (simp_all add: sent_to_def cb_rest_def)
  have "(cb_sender a')\<lparr>unacked_queue := [], send_unacked := tcp_ack_num ?h\<rparr> =
      (cb_sender a)\<lparr>send_next := ?n, unsent_seq_no := ?n, send_unacked := ?n\<rparr>"
    using a' r(12,15) u by (cases "cb_sender a") (simp add: sent_to_def)
  with cb_receive_all_acked [of ?h a' d t env rto c] a rto d show ?thesis
    by (simp add: a' [unfolded sent_to_def] cb_rest_def) (use a' in \<open>simp add: sent_to_def cb_rest_def\<close>)
qed

lemma ready_after_ack:
  assumes r: "ready m a b" and b': "read_from d b b'" "read_from d b b''" "cb_ack_deadline b'' = None"
    and a'': "cb_rest a'' = cb_rest a" "cb_receiver a'' = cb_receiver a"
      "cb_sender a'' = update_send_window (conn_header l r q (receive_next (cb_receiver b) + of_nat (length d)) (wire_window b'))
       ((cb_sender a)\<lparr>send_next := receive_next (cb_receiver b) + of_nat (length d), unsent_seq_no := receive_next (cb_receiver b) + of_nat (length d),
         send_unacked := receive_next (cb_receiver b) + of_nat (length d)\<rparr>)"
  shows "ready m a'' b''"
proof -
  let ?k = "unat (cb_window_scale b) mod 32"
  have rest: "cb_rest b'' = cb_rest b" "cb_rest b' = cb_rest b" using b'(1,2) by (simp_all add: read_from_def)
  have "cb_window_scale b = ucast (snd_window_scale (cb_sender a))" using r unfolding ready_def ends_agree_def by (elim conjE) (rule sym)
  then have scale: "unat (snd_window_scale (cb_sender a)) mod 32 = ?k"
    using unsigned_less [of "snd_window_scale (cb_sender a)", where 'a = nat] by (simp add: unsigned_ucast_eq take_bit_nat_eq_self)
  have fits: "window_fits b'" "window_fits b''" using read_window_fits r b'(1,2) by (auto simp: ready_def)
  have "window_fits a''" using r a'' by (simp add: ready_def window_fits_def cb_rest_def get_receive_window_size_def)
  have "get_receive_window_size b' = cb_receive_buffer_size b'"
    using b'(1) by (simp add: read_from_def get_receive_window_size_def receiver_new_def seq_sub_def)
  from wire_window_back [OF fits(1) this] rest(2) have win: "(ucast (wire_window b') :: u32) = drop_bit ?k (cb_receive_buffer_size b)"
    by (simp add: cb_rest_def)
  have "send_window (cb_sender a'') \<in> {send_window (cb_sender a), push_bit ?k (drop_bit ?k (cb_receive_buffer_size b))}"
    using a''(3) win scale by (simp add: update_send_window_def)
  then have w: "m \<le> unat (send_window (cb_sender a''))" "send_window (cb_sender a'') \<le> cb_receive_buffer_size b''"
    using readyD(20-22) [OF r] rest(1) push_drop_le [of ?k "cb_receive_buffer_size b"] by (auto simp: cb_rest_def)
  have a: "cb_local a'' = cb_local a" "cb_remote a'' = cb_remote a" "cb_state a'' = cb_state a" "cb_out_of_order a'' = cb_out_of_order a"
    "cb_window_scale a'' = cb_window_scale a" "cb_receive_buffer_size a'' = cb_receive_buffer_size a"
    "cb_user_is_done_sending a'' = cb_user_is_done_sending a" "unacked_queue (cb_sender a'') = unacked_queue (cb_sender a)"
    "unsent_queue (cb_sender a'') = unsent_queue (cb_sender a)" "snd_window_scale (cb_sender a'') = snd_window_scale (cb_sender a)"
    "send_next (cb_sender a'') = receive_next (cb_receiver b'')" "send_unacked (cb_sender a'') = receive_next (cb_receiver b'')"
    "unsent_seq_no (cb_sender a'') = receive_next (cb_receiver b'')"
    using a'' b'(2) by (simp_all add: cb_rest_def read_from_def receiver_new_def)
  have b: "cb_local b'' = cb_local b" "cb_remote b'' = cb_remote b" "cb_state b'' = cb_state b" "cb_out_of_order b'' = cb_out_of_order b"
    "cb_window_scale b'' = cb_window_scale b" "cb_receive_buffer_size b'' = cb_receive_buffer_size b" "cb_sender b'' = cb_sender b"
    "reader_next (cb_receiver b'') = receive_next (cb_receiver b'')" "recv_queue (cb_receiver b'') = []"
    using b'(2) by (simp_all add: cb_rest_def read_from_def receiver_new_def)
  show ?thesis
    using r w fits(2) b'(3) \<open>window_fits a''\<close> unfolding ready_def ends_agree_def a b a''(2) by blast
qed


section \<open>On two hosts\<close>

definition set_conn :: "conn_key \<Rightarrow> 'f conn_block \<Rightarrow> ('f, 'c, 't) inet_stack \<Rightarrow> ('f, 'c, 't) inet_stack" where
  "set_conn k cb s = set_tcp ((tcp_of s)\<lparr>tp_established := AList.update k cb (tp_established (tcp_of s))\<rparr>) s"

text \<open>The acknowledger of a connection of a host.\<close>

definition host_acknowledger ::
    "('f, 'c, 't) host_env \<Rightarrow> conn_key \<Rightarrow> ('f, 'c, 't) inet_stack \<Rightarrow> (('f, 'c, 't) inet_stack \<times> tcp_segment list) res" where
  "host_acknowledger env k s =
     (case map_of (tp_established (tcp_of s)) k of
        None \<Rightarrow> Ok (s, [])
      | Some cb \<Rightarrow> res_bind (acknowledger_timer (oe_tcp (host_open env (st_arp s))) cb) (\<lambda>cb'. Ok (set_conn k cb' s, emitted cb cb')))"

definition at_time :: "nat \<Rightarrow> ('f, 'c, 't) host_env \<Rightarrow> ('f, 'c, 't) host_env" where
  "at_time t env = env\<lparr>he_open := (he_open env)\<lparr>oe_tcp := (oe_tcp (he_open env))\<lparr>te_now := t\<rparr>\<rparr>\<rparr>"

definition host_conn :: "('f, 'c, 't) host_env \<Rightarrow> qdesc \<Rightarrow> socket_addr \<Rightarrow> socket_addr \<Rightarrow> 'f conn_block \<Rightarrow> ('f, 'c, 't) inet_stack \<Rightarrow> bool" where
  "host_conn env qd l r cb s \<longleftrightarrow> ft_get (he_files env) (st_file_table s) qd = Some TcpSocket \<and>
     map_of (tp_sockets (tcp_of s)) qd = Some (SockEstablished l r) \<and> map_of (tp_established (tcp_of s)) (l, r) = Some cb"

lemma host_conn_block: "host_conn env qd l r cb s \<Longrightarrow> map_of (tp_established (tcp_of s)) (l, r) = Some cb"
  by (simp add: host_conn_def)

lemma host_conn_set: "host_conn env qd l r cb s \<Longrightarrow> host_conn env qd l r cb' (set_conn (l, r) cb' s)"
  by (simp add: host_conn_def set_conn_def update_conv')

lemma set_conn_arp [simp]: "st_arp (set_conn k cb s) = st_arp s" by (simp add: set_conn_def)

lemma emitted_append: "cb_tx cb' = cb_tx cb @ out \<Longrightarrow> emitted cb cb' = out"
  by (simp add: emitted_def)

lemma host_pushes:
  assumes "host_conn env qd l r cb s" "cb_send (oe_tcp (host_open env (st_arp s))) d cb = Ok (cb', Ok ())" "cb_tx cb' = cb_tx cb @ out" "d \<noteq> []"
  shows "inet_push2 env qd d s = Ok (set_conn (l, r) cb' s, map TcpPacket out, Ok (FoTcp (TcpPush qd None None)))"
  using assms emitted_append [OF assms(3)]
  by (simp add: host_conn_def inet_push2_def inet_do_push_def tcp_push_def tcp_send_def tcp_lookup_def set_conn_def)

text \<open>The frame of a segment of a connection reaches the control block, whatever that makes of it.\<close>

lemma host_dispatches:
  assumes "extern (host_ext env)" "tcp_segment_wf (data_segment e r l mac h d)" "tcp_norm h = h"
    and "te_tx_offload e \<longrightarrow> cfg_rx_checksum_offload (oe_cfg (he_open env))" "rt_local_ipv4_addr (host_rt env) = fst l" "unicast (fst r)"
    and "tcp_src_port h = snd r" "tcp_dst_port h = snd l"
  shows "\<exists>fr. tcp_frame (host_ext env) (data_segment e r l mac h d) = Ok fr \<and>
     (\<forall>s cb cb' m. map_of (tp_established (tcp_of s)) (l, r) = Some cb \<longrightarrow>
       (cb_receive (oe_tcp (host_open env (st_arp s))) h d cb = Some (Ok cb') \<longrightarrow>
          inet_do_receive env fr s = Some (Ok (set_conn (l, r) cb' s, map TcpPacket (emitted cb cb'), Ok ()))) \<and>
       (cb_receive (oe_tcp (host_open env (st_arp s))) h d cb = Some (Panic m) \<longrightarrow> inet_do_receive env fr s = Some (Panic m)))"
proof (rule inet_receives_segment [OF assms(1,2)])
  fix fr ip
  assume fr: "tcp_frame (host_ext env) (data_segment e r l mac h d) = Ok fr"
    "ip_src_addr ip = ip_src_addr (ts_ipv4_hdr (data_segment e r l mac h d))" "ip_dst_addr ip = ip_dst_addr (ts_ipv4_hdr (data_segment e r l mac h d))"
    "\<And>x. inet_do_receive env fr x = map_option (\<lambda>y. res_bind y (\<lambda>(q, out, r). Ok (set_tcp q x, map TcpPacket out, r)))
         (tcp_dispatch (host_open env (st_arp x)) ip (tcp_norm (ts_tcp_hdr (data_segment e r l mac h d))) (ts_data (data_segment e r l mac h d)) (tcp_of x))"
  have "ip_src_addr ip = fst r" "ip_dst_addr ip = fst l" using fr(2,3) by (simp_all add: data_segment_def ipv4_new_def)
  then have dispatched: "tcp_dispatch (host_open env (st_arp s)) ip h d (tcp_of s) =
      (case cb_receive (oe_tcp (host_open env (st_arp s))) h d cb of
         None \<Rightarrow> None
       | Some (Ok cb') \<Rightarrow> Some (Ok ((tcp_of s)\<lparr>tp_established := AList.update (l, r) cb' (tp_established (tcp_of s))\<rparr>, emitted cb cb', Ok ()))
       | Some (Err e) \<Rightarrow> Some (Ok (tcp_of s, [], Ok ()))
       | Some (Panic m) \<Rightarrow> Some (Panic m))" if "map_of (tp_established (tcp_of s)) (l, r) = Some cb" for s cb
    using assms(6-8) that by (simp add: tcp_dispatch_def unicast_def)
  have received: "inet_do_receive env fr s = map_option (\<lambda>y. res_bind y (\<lambda>(q, out, r). Ok (set_tcp q s, map TcpPacket out, r)))
      (tcp_dispatch (host_open env (st_arp s)) ip h d (tcp_of s))" for s
    using fr(4) [of s] assms(3) by (simp add: data_segment_def)
  show ?thesis by (intro exI [of _ fr] conjI allI impI fr(1)) (simp_all add: received dispatched set_conn_def)
qed (use assms(4,5) in \<open>simp_all add: data_segment_def ethernet2_new_def ipv4_new_def\<close>)

lemma host_receives:
  assumes "extern (host_ext env)" "tcp_segment_wf (data_segment e r l mac h d)" "tcp_norm h = h"
    and "te_tx_offload e \<longrightarrow> cfg_rx_checksum_offload (oe_cfg (he_open env))" "rt_local_ipv4_addr (host_rt env) = fst l" "unicast (fst r)"
    and "map_of (tp_established (tcp_of s)) (l, r) = Some cb" "tcp_src_port h = snd r" "tcp_dst_port h = snd l"
    and "cb_receive (oe_tcp (host_open env (st_arp s))) h d cb = Some (Ok cb')" "cb_tx cb' = cb_tx cb @ out"
  shows "\<exists>fr. tcp_frame (host_ext env) (data_segment e r l mac h d) = Ok fr \<and>
     inet_do_receive env fr s = Some (Ok (set_conn (l, r) cb' s, map TcpPacket out, Ok ()))"
  using host_dispatches [OF assms(1-6,8,9)] assms(7,10) emitted_append [OF assms(11)] by fastforce

lemma host_pops:
  assumes "host_conn env qd l r cb s" "cb_poll_recv cb = (cb', Some (Ok d))"
  shows "future_operation_poll env (FoTcp (TcpPop qd None)) s = Ok (set_conn (l, r) cb' s, FoTcp (TcpPop qd (Some (Ok d))), True)"
  using assms by (simp add: host_conn_def tcp_poll_recv_def set_conn_def)

lemma host_acknowledges:
  assumes "host_conn env qd l r cb s" "acknowledger_timer (oe_tcp (host_open env' (st_arp s))) cb = Ok cb'" "cb_tx cb' = cb_tx cb @ out"
  shows "host_acknowledger env' (l, r) s = Ok (set_conn (l, r) cb' s, out)"
  using assms emitted_append [OF assms(3)] by (simp add: host_conn_def host_acknowledger_def)

lemma at_time_simps [simp]:
  "host_ext (at_time t env) = host_ext env" "host_rt (at_time t env) = host_rt env" "he_files (at_time t env) = he_files env"
  "oe_cfg (he_open (at_time t env)) = oe_cfg (he_open env)" "te_now (oe_tcp (host_open (at_time t env) arp)) = t"
  "te_cc (oe_tcp (host_open (at_time t env) arp)) = te_cc (oe_tcp (he_open env))" "te_fl (oe_tcp (host_open (at_time t env) arp)) = te_fl (oe_tcp (he_open env))"
  "te_tx_offload (oe_tcp (host_open (at_time t env) arp)) = te_tx_offload (oe_tcp (he_open env))"
  "host_conn (at_time t env) = host_conn env"
  by (simp_all add: at_time_def host_ext_def host_rt_def host_open_def host_conn_def fun_eq_iff)


section \<open>Exchanges\<close>

text \<open>
  A buffer is pushed and its frame is received and popped at the time \<open>t0\<close>; the other side acknowledges it at the time \<open>t1\<close>.
\<close>

definition exchange ::
    "('f, 'c, 't) host_env \<Rightarrow> ('f, 'c, 't) host_env \<Rightarrow> conn_key \<Rightarrow> qdesc \<Rightarrow> qdesc \<Rightarrow> nat \<times> nat \<times> bytes \<Rightarrow>
     ('f, 'c, 't) inet_stack \<times> ('f, 'c, 't) inet_stack \<Rightarrow> ('f, 'c, 't) inet_stack \<times> ('f, 'c, 't) inet_stack \<Rightarrow> bool" where
  "exchange ae be k qd rqd x s s' \<longleftrightarrow> (case (x, s, s') of ((t0, t1, d), (a, b), (a', b')) \<Rightarrow>
     \<exists>a1 b1 b2 seg ack f1 f2.
       inet_push2 (at_time t0 ae) qd d a = Ok (a1, [TcpPacket seg], Ok (FoTcp (TcpPush qd None None))) \<and>
       tcp_frame (host_ext ae) seg = Ok f1 \<and> inet_do_receive (at_time t0 be) f1 b = Some (Ok (b1, [], Ok ())) \<and>
       future_operation_poll (at_time t0 be) (FoTcp (TcpPop rqd None)) b1 = Ok (b2, FoTcp (TcpPop rqd (Some (Ok d))), True) \<and>
       host_acknowledger (at_time t1 be) (snd k, fst k) b2 = Ok (b', [ack]) \<and>
       tcp_frame (host_ext be) ack = Ok f2 \<and> inet_do_receive (at_time t1 ae) f2 a1 = Some (Ok (a', [], Ok ())))"

text \<open>Buffers that follow one another, each from the first host to the second or back.\<close>

fun conversation ::
    "('f, 'c, 't) host_env \<Rightarrow> ('f, 'c, 't) host_env \<Rightarrow> conn_key \<Rightarrow> qdesc \<Rightarrow> qdesc \<Rightarrow> (bool \<times> nat \<times> nat \<times> bytes) list \<Rightarrow>
     ('f, 'c, 't) inet_stack \<times> ('f, 'c, 't) inet_stack \<Rightarrow> ('f, 'c, 't) inet_stack \<times> ('f, 'c, 't) inet_stack \<Rightarrow> bool" where
  "conversation ae be k qd rqd [] s s' \<longleftrightarrow> s' = s"
| "conversation ae be k qd rqd ((forth, x) # xs) s s' \<longleftrightarrow> (\<exists>u.
     (if forth then exchange ae be k qd rqd x s u else exchange be ae (prod.swap k) rqd qd x (prod.swap s) (prod.swap u)) \<and>
     conversation ae be k qd rqd xs u s')"

text \<open>What the two hosts have in common, and that each resolves the address of the other.\<close>

definition linked :: "'f flops \<Rightarrow> ('f, 'c, 't) host_env \<Rightarrow> ('f, 'c, 't) host_env \<Rightarrow> conn_key \<Rightarrow> bool" where
  "linked F ae be k \<longleftrightarrow> host_ext be = host_ext ae \<and> te_fl (oe_tcp (he_open ae)) = F \<and> te_fl (oe_tcp (he_open be)) = F \<and>
     te_cc (oe_tcp (he_open ae)) = none_ops \<and> te_cc (oe_tcp (he_open be)) = none_ops \<and>
     rt_local_ipv4_addr (host_rt ae) = fst (fst k) \<and> rt_local_ipv4_addr (host_rt be) = fst (snd k) \<and> unicast (fst (fst k)) \<and> unicast (fst (snd k)) \<and>
     length (rt_local_link_addr (host_rt ae)) = 6 \<and> length (rt_local_link_addr (host_rt be)) = 6 \<and>
     (te_tx_offload (oe_tcp (he_open ae)) \<longrightarrow> cfg_rx_checksum_offload (oe_cfg (he_open be))) \<and>
     (te_tx_offload (oe_tcp (he_open be)) \<longrightarrow> cfg_rx_checksum_offload (oe_cfg (he_open ae)))"

definition resolves :: "arp_peer \<Rightarrow> ipv4_addr \<Rightarrow> bool" where
  "resolves p ip \<longleftrightarrow> (\<exists>mac. arp_try_query p ip = Some mac \<and> length mac = 6)"

lemma data_segment_wf:
  assumes "length mac = 6" "length (rt_local_link_addr (te_rt env)) = 6" "length d < 2 ^ 16 - 40"
  shows "tcp_segment_wf (data_segment env l r mac (conn_header l r q a w) d)"
proof -
  have "tcp_wf (conn_header l r q a w)" by (rule no_options_wf) simp_all
  moreover have "tcp_compute_size (conn_header l r q a w) = 20" by (simp add: tcp_compute_size_bounds(3))
  ultimately show ?thesis using assms
    by (simp add: data_segment_def tcp_segment_wf_def eth_wf_def ethernet2_new_def ipv4_wf_def ipv4_new_def)
qed


text \<open>
  An open connection between two sockets with the control blocks \<open>ca\<close> and \<open>cb\<close>, ready in both directions: the state that every
  exchange keeps.  The two bounds on buffers and the two delays are those of the two directions.
\<close>

definition blocks_ready ::
    "('f rto_calculator \<Rightarrow> bool) \<Rightarrow> nat \<times> nat \<Rightarrow> nat \<times> nat \<Rightarrow> conn_key \<Rightarrow> 'f conn_block \<Rightarrow> 'f conn_block \<Rightarrow> bool" where
  "blocks_ready good m delay k ca cb \<longleftrightarrow> ready (fst m) ca cb \<and> ready (snd m) cb ca \<and> cb_local ca = fst k \<and> cb_remote ca = snd k \<and>
     cb_ack_delay_timeout cb = fst delay \<and> cb_ack_delay_timeout ca = snd delay \<and> good (cb_rto ca) \<and> good (cb_rto cb)"

definition session ::
    "('f rto_calculator \<Rightarrow> bool) \<Rightarrow> nat \<times> nat \<Rightarrow> nat \<times> nat \<Rightarrow> ('f, 'c, 't) host_env \<Rightarrow> ('f, 'c, 't) host_env \<Rightarrow> conn_key \<Rightarrow> qdesc \<Rightarrow> qdesc \<Rightarrow>
     ('f, 'c, 't) inet_stack \<times> ('f, 'c, 't) inet_stack \<Rightarrow> bool" where
  "session good m delay ae be k qd rqd s \<longleftrightarrow> (\<exists>ca cb.
     host_conn ae qd (fst k) (snd k) ca (fst s) \<and> host_conn be rqd (snd k) (fst k) cb (snd s) \<and> blocks_ready good m delay k ca cb \<and>
     resolves (st_arp (fst s)) (fst (snd k)) \<and> resolves (st_arp (snd s)) (fst (fst k)))"

text \<open>What one side may send next: the direction, the times of the push and of the acknowledgement, and the bytes.\<close>

definition admissible :: "nat \<times> nat \<Rightarrow> nat \<times> nat \<Rightarrow> bool \<times> nat \<times> nat \<times> bytes \<Rightarrow> bool" where
  "admissible m delay x \<longleftrightarrow> (case x of (forth, t0, t1, d) \<Rightarrow> d \<noteq> [] \<and> length d < 2 ^ 16 - 40 \<and>
     length d \<le> (if forth then fst m else snd m) \<and> t0 + (if forth then fst delay else snd delay) \<le> t1)"

lemma blocks_ready_swap: "blocks_ready good m delay k ca cb \<Longrightarrow> blocks_ready good (prod.swap m) (prod.swap delay) (prod.swap k) cb ca"
  using readyD(7,8) [of "fst m" ca cb] by (simp add: blocks_ready_def)

lemma session_swap: "session good m delay ae be k qd rqd s \<Longrightarrow> session good (prod.swap m) (prod.swap delay) be ae (prod.swap k) rqd qd (prod.swap s)"
  unfolding session_def by (auto dest: blocks_ready_swap)

lemma linked_swap: "linked F ae be k \<Longrightarrow> linked F be ae (prod.swap k)"
  by (auto simp: linked_def)

text \<open>The direction back is untouched by an exchange.\<close>

lemma ready_back:
  assumes "ready m a b" "ready n b a" "ready m a' b'" "cb_rest a' = cb_rest a" "cb_ack_deadline a' = None" "read_from d b b'"
  shows "ready n b' a'"
proof -
  have "cb_sender b' = cb_sender b" "cb_user_is_done_sending b' = cb_user_is_done_sending b"
    "cb_window_scale a' = cb_window_scale a" "cb_receive_buffer_size a' = cb_receive_buffer_size a"
    using assms(4,6) by (simp_all add: cb_rest_def read_from_def)
  with readyD(6,20,22) [OF assms(2)] readyD(1-4) [OF assms(3)] assms(5) show ?thesis by (simp only: ready_def) blast
qed

context rto_total
begin

text \<open>The exchange on the two control blocks, with the surroundings \<open>A0\<close> and \<open>B0\<close> first and \<open>A1\<close> and \<open>B1\<close> later.\<close>

lemma exchange_blocks:
  assumes c: "ready m ca cb" "cb_local ca = l" "cb_remote ca = r" "good (cb_rto ca)" "good (cb_rto cb)"
    and d: "d \<noteq> []" "length d \<le> m" "length d < 2 ^ 31"
    and env: "te_cc A0 = none_ops" "te_fl A0 = F" "te_fl A1 = F" "te_fl B0 = F"
      "te_arp A0 (fst r) = Some bmac" "te_arp B1 (fst l) = Some amac" "te_now B0 + cb_ack_delay_timeout cb \<le> te_now B1"
  obtains h g ca1 ca2 cb1 cb2 cb3 where
    "cb_send A0 d ca = Ok (ca1, Ok ())" "cb_tx ca1 = cb_tx ca @ [data_segment A0 l r bmac h d]" "cb_receive B0 h d cb = Some (Ok cb1)" "cb_tx cb1 = cb_tx cb"
    "cb_poll_recv cb1 = (cb2, Some (Ok d))" "acknowledger_timer B1 cb2 = Ok cb3" "cb_tx cb3 = cb_tx cb2 @ [data_segment B1 r l amac g []]"
    "cb_receive A1 g [] ca1 = Some (Ok ca2)" "cb_tx ca2 = cb_tx ca1" "ready m ca2 cb3" "good (cb_rto ca2)" "cb_rest ca2 = cb_rest ca" "read_from d cb cb3"
    "cb_ack_deadline ca2 = None" "\<exists>q x w. h = conn_header l r q x w" "\<exists>q x w. g = conn_header r l q x w"
proof -
  have ends: "cb_local cb = r" "cb_remote cb = l" using readyD(7,8) [OF c(1)] c(2,3) by simp_all
  obtain rto c' where rto: "rto_estimate F (cb_rto ca) = Ok rto" "rto_add_sample F (te_now A1 - te_now A0) (cb_rto ca) = Ok c'" "good c'"
    using estimate [OF c(4)] sample [OF c(4)] by blast
  obtain rto' where rto': "rto_estimate F (cb_rto cb) = Ok rto'" using estimate [OF c(5)] by blast
  let ?h = "conn_header l r (send_next (cb_sender ca)) (receive_next (cb_receiver ca)) (wire_window ca)"
  from ready_sends [OF c(1) d env(1), of rto bmac] env rto(1) c(2,3) obtain ca1 where
    a1: "cb_send A0 d ca = Ok (ca1, Ok ())" "sent_to d (te_now A0) ca ca1" "cb_tx ca1 = cb_tx ca @ [data_segment A0 l r bmac ?h d]" by auto
  from ready_receives [OF c(1) d, of B0 rto' "wire_window ca"] env rto' c(2,3) obtain cb1 cb2 where
    b1: "cb_receive B0 ?h d cb = Some (Ok cb1)" "cb_tx cb1 = cb_tx cb"
    and b2: "cb_poll_recv cb1 = (cb2, Some (Ok d))" "read_from d cb cb2" "cb_ack_deadline cb2 = Some (te_now B0 + cb_ack_delay_timeout cb)"
    by auto
  let ?g = "conn_header r l (send_next (cb_sender cb)) (receive_next (cb_receiver cb) + of_nat (length d)) (wire_window cb2)"
  from read_acknowledges [OF c(1) b2(2,3) env(7), of amac] env(6) ends obtain cb3 where
    b3: "acknowledger_timer B1 cb2 = Ok cb3" "read_from d cb cb3" "cb_ack_deadline cb3 = None"
      "cb_tx cb3 = cb_tx cb2 @ [data_segment B1 r l amac ?g []]" by auto
  from acked_again [OF c(1) a1(2) b2(2) d(1,3), of A1 rto c'] env(3) rto(1,2) ends obtain ca2 where
    a2: "cb_receive A1 ?g [] ca1 = Some (Ok ca2)" "cb_tx ca2 = cb_tx ca1" "cb_rto ca2 = c'" "cb_rest ca2 = cb_rest ca" "cb_ack_deadline ca2 = None"
      "cb_receiver ca2 = cb_receiver ca" "cb_sender ca2 = update_send_window ?g ((cb_sender ca)\<lparr>
         send_next := receive_next (cb_receiver cb) + of_nat (length d), unsent_seq_no := receive_next (cb_receiver cb) + of_nat (length d),
         send_unacked := receive_next (cb_receiver cb) + of_nat (length d)\<rparr>)" by auto
  have "ready m ca2 cb3" by (rule ready_after_ack [OF c(1) b2(2) b3(2,3) a2(4,6,7)])
  then show thesis using that [OF a1(1,3) b1 b2(1) b3(1,4) a2(1,2) _ _ a2(4) b3(2) a2(5)] a2(3) rto(3) by blast
qed

lemma exchange_session:
  assumes E: "extern (host_ext ae)" and link: "linked F ae be (l, r)" and ses: "session good m delay ae be (l, r) qd rqd (a, b)"
    and d: "d \<noteq> []" "length d \<le> fst m" "length d < 2 ^ 16 - 40" and t: "t0 + fst delay \<le> t1"
  shows "\<exists>s'. exchange ae be (l, r) qd rqd (t0, t1, d) (a, b) s' \<and> session good m delay ae be (l, r) qd rqd s'"
proof -
  let ?A = "\<lambda>t. oe_tcp (host_open (at_time t ae) (st_arp a))" and ?B = "\<lambda>t. oe_tcp (host_open (at_time t be) (st_arp b))"
  from ses obtain ca cb amac bmac where
    c: "host_conn ae qd l r ca a" "host_conn be rqd r l cb b" "ready (fst m) ca cb" "cb_local ca = l" "cb_remote ca = r" "cb_ack_delay_timeout cb = fst delay"
      "good (cb_rto ca)" "good (cb_rto cb)" "ready (snd m) cb ca" "cb_ack_delay_timeout ca = snd delay"
    and arp: "arp_try_query (st_arp a) (fst r) = Some bmac" "length bmac = 6" "arp_try_query (st_arp b) (fst l) = Some amac" "length amac = 6"
    by (auto simp: session_def blocks_ready_def resolves_def)
  have len: "length d < 2 ^ 31" using d(3) by simp
  obtain h g ca1 ca2 cb1 cb2 cb3 where
    x: "cb_send (?A t0) d ca = Ok (ca1, Ok ())" "cb_tx ca1 = cb_tx ca @ [data_segment (?A t0) l r bmac h d]"
      "cb_receive (?B t0) h d cb = Some (Ok cb1)" "cb_tx cb1 = cb_tx cb"
      "cb_poll_recv cb1 = (cb2, Some (Ok d))" "acknowledger_timer (?B t1) cb2 = Ok cb3" "cb_tx cb3 = cb_tx cb2 @ [data_segment (?B t1) r l amac g []]"
      "cb_receive (?A t1) g [] ca1 = Some (Ok ca2)" "cb_tx ca2 = cb_tx ca1" "ready (fst m) ca2 cb3" "good (cb_rto ca2)" "cb_rest ca2 = cb_rest ca" "read_from d cb cb3"
      "cb_ack_deadline ca2 = None" "\<exists>q x w. h = conn_header l r q x w" "\<exists>q x w. g = conn_header r l q x w"
    by (rule exchange_blocks [OF c(3-5,7,8) d(1,2) len, of "?A t0" "?A t1" "?B t0" bmac "?B t1" amac]) (use link arp t c(6) in \<open>simp_all add: linked_def\<close>)
  let ?a1 = "set_conn (l, r) ca1 a" and ?b1 = "set_conn (r, l) cb1 b"
  let ?b2 = "set_conn (r, l) cb2 ?b1"
  let ?a2 = "set_conn (l, r) ca2 ?a1" and ?b3 = "set_conn (r, l) cb3 ?b2"
  have hosts: "host_conn ae qd l r ca1 ?a1" "host_conn be rqd r l cb1 ?b1" "host_conn be rqd r l cb2 ?b2"
    "host_conn ae qd l r ca2 ?a2" "host_conn be rqd r l cb3 ?b3" using c(1,2) by (blast intro: host_conn_set)+
  have wf: "tcp_segment_wf (data_segment (?A t0) l r bmac h d)" "tcp_segment_wf (data_segment (?B t1) r l amac g [])"
    using x(15,16) arp(2,4) d(3) link by (auto simp: linked_def intro!: data_segment_wf)
  have f1: "\<exists>f1. tcp_frame (host_ext ae) (data_segment (?A t0) l r bmac h d) = Ok f1 \<and> inet_do_receive (at_time t0 be) f1 b = Some (Ok (?b1, [], Ok ()))"
    using host_receives [of "at_time t0 be" "?A t0" l r bmac h d b cb cb1 "[]"] wf(1) x(3,4,15) host_conn_block [OF c(2)] E link by (auto simp: linked_def)
  have f2: "\<exists>f2. tcp_frame (host_ext be) (data_segment (?B t1) r l amac g []) = Ok f2 \<and> inet_do_receive (at_time t1 ae) f2 ?a1 = Some (Ok (?a2, [], Ok ()))"
    using host_receives [of "at_time t1 ae" "?B t1" r l amac g "[]" ?a1 ca1 ca2 "[]"] wf(2) x(8,9,16) host_conn_block [OF hosts(1)] E link by (auto simp: linked_def)
  have "exchange ae be (l, r) qd rqd (t0, t1, d) (a, b) (?a2, ?b3)"
    using host_pushes [of "at_time t0 ae" qd l r ca a d ca1, OF _ x(1,2) d(1)] c(1) f1 f2 host_pops [of "at_time t0 be" rqd r l cb1 ?b1, OF _ x(5)] hosts(2)
      host_acknowledges [OF hosts(3), of "at_time t1 be" cb3] x(6,7)
    unfolding exchange_def by (simp del: future_operation_poll.simps) blast
  moreover have "session good m delay ae be (l, r) qd rqd (?a2, ?b3)"
    unfolding session_def blocks_ready_def using hosts(4,5) c x(10-13) arp ready_back [OF c(3,9) x(10,12,14,13)]
    by (intro exI [of _ ca2] exI [of _ cb3]) (simp add: resolves_def cb_rest_def read_from_def)
  ultimately show ?thesis by blast
qed

lemma conversation_session:
  assumes "extern (host_ext ae)" "linked F ae be (l, r)"
  shows "session good m delay ae be (l, r) qd rqd s \<Longrightarrow> \<forall>x \<in> set xs. admissible m delay x \<Longrightarrow>
     \<exists>s'. conversation ae be (l, r) qd rqd xs s s' \<and> session good m delay ae be (l, r) qd rqd s'"
proof (induction xs arbitrary: s)
  case (Cons x xs)
  obtain forth t0 t1 d a b where x: "x = (forth, t0, t1, d)" "s = (a, b)" by (metis prod_cases4 surj_pair)
  have E: "extern (host_ext be)" "linked F be ae (r, l)" using assms linked_swap [OF assms(2)] by (simp_all add: linked_def)
  have "\<exists>u. (if forth then exchange ae be (l, r) qd rqd (t0, t1, d) s u else exchange be ae (r, l) rqd qd (t0, t1, d) (prod.swap s) (prod.swap u)) \<and>
      session good m delay ae be (l, r) qd rqd u"
  proof (cases forth)
    case True
    with exchange_session [OF assms, of m delay qd rqd a b d t0 t1] Cons.prems x show ?thesis by (auto simp: admissible_def)
  next
    case False
    from session_swap [OF Cons.prems(1)] x have "session good (prod.swap m) (prod.swap delay) be ae (r, l) rqd qd (b, a)" by simp
    with exchange_session [OF E, of "prod.swap m" "prod.swap delay" rqd qd b a d t0 t1] False Cons.prems x obtain u where
      "exchange be ae (r, l) rqd qd (t0, t1, d) (b, a) u" "session good (prod.swap m) (prod.swap delay) be ae (r, l) rqd qd u" by (auto simp: admissible_def)
    with session_swap [of good "prod.swap m" "prod.swap delay" be ae "(r, l)" rqd qd u] False x show ?thesis
      by (intro exI [of _ "prod.swap u"]) simp
  qed
  then obtain u where
    "if forth then exchange ae be (l, r) qd rqd (t0, t1, d) s u else exchange be ae (r, l) rqd qd (t0, t1, d) (prod.swap s) (prod.swap u)"
    "session good m delay ae be (l, r) qd rqd u" by blast
  moreover from Cons.IH [OF this(2)] Cons.prems(2) obtain s' where
    "conversation ae be (l, r) qd rqd xs u s'" "session good m delay ae be (l, r) qd rqd s'" by (simp del: split_paired_Ex) blast
  ultimately show ?case unfolding x(1) conversation.simps swap_simp by blast
qed (simp del: split_paired_Ex)

end

end
