(* ===== verification/Tcp_Teardown.thy ===== *)
theory Tcp_Teardown
  imports Tcp_Transfer
begin

text \<open>
  The end of a connection: the FIN of the side that closes first, its acknowledgement, and the same from the other side.  As for
  the data segments, each lemma takes a control block from before to after, and the hosts follow with their frames.
\<close>

section \<open>FIN segments\<close>

abbreviation fin_header :: "socket_addr \<Rightarrow> socket_addr \<Rightarrow> seq_number \<Rightarrow> seq_number \<Rightarrow> u16 \<Rightarrow> tcp_header" where
  "fin_header l r q a w \<equiv> (conn_header l r q a w)\<lparr>tcp_fin := True\<rparr>"

lemma cb_close_sends_fin:
  assumes "window_fits cb" "\<not> cb_user_is_done_sending cb" "unsent_queue (cb_sender cb) = []" "te_cc env = none_ops"
    and "send_next (cb_sender cb) = send_unacked (cb_sender cb)" "rto_estimate (te_fl env) (cb_rto cb) = Ok rto"
    and "te_arp env (fst (cb_remote cb)) = Some mac" "0 < send_window (cb_sender cb)"
  shows "\<exists>t. cb_close env cb = Ok (cb\<lparr>
     cb_sender := (cb_sender cb)\<lparr>send_next := send_next (cb_sender cb) + 1, unsent_seq_no := unsent_seq_no (cb_sender cb) + 1,
       unacked_queue := unacked_queue (cb_sender cb) @ [\<lparr>us_bytes = [], us_initial_tx = Some (te_now env)\<rparr>]\<rparr>,
     cb_state := state_after_fin (cb_state cb), cb_ack_deadline := None, cb_retransmit_deadline := t, cb_user_is_done_sending := True,
     cb_tx := cb_tx cb @ [data_segment env (cb_local cb) (cb_remote cb) mac
        (fin_header (cb_local cb) (cb_remote cb) (send_next (cb_sender cb)) (receive_next (cb_receiver cb)) (wire_window cb)) []]\<rparr>, Ok ())"
proof -
  obtain h where h: "cb_tcp_header cb = Ok h" "\<not> tcp_fin h"
    "\<And>q. h\<lparr>tcp_seq_num := q\<rparr> = conn_header (cb_local cb) (cb_remote cb) q (receive_next (cb_receiver cb)) (wire_window cb)"
    using assms(1) by (rule cb_tcp_header_fits) blast
  with assms show ?thesis
    by (intro exI [of _ "if cb_retransmit_deadline cb = None then Some (te_now env + rto) else cb_retransmit_deadline cb"])
      (simp add: cb_close_def cb_send_def send_immediate_def seq_sub_def seq_add_def cb_emit_def data_segment_def push_unacked_segment_def Let_def;
       cases cb; simp)
qed

lemma cb_accept_fin:
  assumes "tcp_seq_num h = receive_next (cb_receiver cb)" "\<not> tcp_syn h" "tcp_fin h"
    and "0 < get_receive_window_size cb" "get_receive_window_size cb < 2 ^ 31"
  shows "cb_accept E h [] cb = Acceptable h [] (tcp_seq_num h) (tcp_seq_num h) 1"
proof -
  have "\<not> seq_ge (receive_next (cb_receiver cb)) (receive_next (cb_receiver cb) + get_receive_window_size cb)"
    using seq_at_ge [of 0 "unat (get_receive_window_size cb)" "receive_next (cb_receiver cb)"] assms(4,5)
    by (simp add: seq_at_def word_less_nat_alt)
  with assms show ?thesis by (simp add: cb_accept_def cut_front_def cut_end_def seq_add_def Let_def)
qed

lemma cb_receive_fin:
  assumes h: "tcp_seq_num h = receive_next (cb_receiver cb)" "tcp_ack h" "\<not> tcp_rst h" "\<not> tcp_syn h" "tcp_fin h"
      "\<not> seq_lt (send_unacked (cb_sender cb)) (tcp_ack_num h)"
    and cb: "window_fits cb" "0 < get_receive_window_size cb" "state_after_peer_fin (cb_state cb) = Ok st"
    and env: "rto_estimate (te_fl env) (cb_rto cb) = Ok rto" "te_arp env (fst (cb_remote cb)) = Some mac"
  shows "\<exists>w. cb_receive env h [] (cb :: 'f conn_block) = Some (Ok (cb\<lparr>cb_receiver := (cb_receiver cb)\<lparr>receive_next := receive_next (cb_receiver cb) + 1\<rparr>,
     cb_state := st, cb_ack_deadline := None, cb_tx := cb_tx cb @ [data_segment env (cb_local cb) (cb_remote cb) mac
       (conn_header (cb_local cb) (cb_remote cb) (send_next (cb_sender cb)) (receive_next (cb_receiver cb) + 1) w) []]\<rparr>)) \<and>
     window_fits (cb\<lparr>cb_receiver := (cb_receiver cb)\<lparr>receive_next := receive_next (cb_receiver cb) + 1\<rparr>\<rparr>)"
proof -
  let ?cb = "cb\<lparr>cb_receiver := (cb_receiver cb)\<lparr>receive_next := receive_next (cb_receiver cb) + 1\<rparr>, cb_state := st\<rparr>"
  have w: "get_receive_window_size ?cb = get_receive_window_size cb - 1"
    by (simp add: get_receive_window_size_def seq_sub_def)
  then have fits: "window_fits ?cb"
    using cb(1,2) by (auto simp: window_fits_def word_le_nat_alt word_less_nat_alt unat_sub_if')
  obtain g where g: "cb_tcp_header ?cb = Ok g" "\<not> tcp_fin g"
    "\<And>q. g\<lparr>tcp_seq_num := q\<rparr> = conn_header (cb_local ?cb) (cb_remote ?cb) q (receive_next (cb_receiver ?cb)) (wire_window ?cb)"
    using fits by (rule cb_tcp_header_fits) blast
  have "cb_receive_in_order env h [] cb = cb_send_ack env ?cb"
    using h(5) cb(3) by (simp add: cb_receive_in_order_def seq_add_def Let_def)
  moreover have "cb_process_ack env h cb = Some (Ok (cb, True))"
    using cb_process_ack_nothing_new [OF env(1)] h(6) by auto
  ultimately have "cb_receive env h [] cb = Some (cb_send_ack env ?cb)"
    using cb_accept_fin [OF h(1,4,5) cb(2), of "te_ext env"] cb(1) h by (simp add: cb_receive_def window_fits_def Let_def)
  then have "cb_receive env h [] cb = Some (Ok (?cb\<lparr>cb_ack_deadline := None, cb_tx := cb_tx cb @ [data_segment env (cb_local cb) (cb_remote cb) mac
       (conn_header (cb_local cb) (cb_remote cb) (send_next (cb_sender cb)) (receive_next (cb_receiver cb) + 1) (wire_window ?cb)) []]\<rparr>))"
    using g env(2) by (simp add: cb_send_ack_def cb_emit_def data_segment_def Let_def)
  moreover have "window_fits (cb\<lparr>cb_receiver := (cb_receiver cb)\<lparr>receive_next := receive_next (cb_receiver cb) + 1\<rparr>\<rparr>)"
    using fits by (simp add: window_fits_def get_receive_window_size_def)
  ultimately show ?thesis by auto
qed

lemma cb_receive_fin_acked:
  assumes h: "tcp_seq_num h = receive_next (cb_receiver cb)" "tcp_ack h" "\<not> tcp_rst h" "\<not> tcp_syn h" "\<not> tcp_fin h"
    and q: "unacked_queue (cb_sender cb) = [\<lparr>us_bytes = [], us_initial_tx = Some t\<rparr>]"
      "send_next (cb_sender cb) = send_unacked (cb_sender cb) + 1" "tcp_ack_num h = send_next (cb_sender cb)"
    and rto: "rto_estimate (te_fl env) (cb_rto cb) = Ok rto" "rto_add_sample (te_fl env) (te_now env - t) (cb_rto cb) = Ok c"
  shows "cb_receive env h [] (cb :: 'f conn_block) = Some (Ok (cb\<lparr>
     cb_sender := update_send_window h ((cb_sender cb)\<lparr>unacked_queue := [], send_unacked := tcp_ack_num h\<rparr>),
     cb_rto := c, cb_retransmit_deadline := None, cb_state := state_after_ack_of_all (cb_state cb)\<rparr>))"
proof (rule cb_receive_ack_of_all [OF h _ q(3) _ rto(1)])
  show "seq_lt (send_unacked (cb_sender cb)) (send_next (cb_sender cb))"
    using seq_lt_offsets [of 0 1 "send_unacked (cb_sender cb)"] q(2) by simp
  show "remove_acked (te_ext env) (te_fl env) (te_now env) (unat (seq_sub (send_next (cb_sender cb)) (send_unacked (cb_sender cb))))
      (unacked_queue (cb_sender cb)) (cb_rto cb) = Some (Ok ([], c))"
    using q(1,2) rto(2) by (simp add: seq_sub_def remove_acked.simps [of "te_ext env" "te_fl env" "te_now env" "Suc 0"] remove_acked_zero)
qed

section \<open>One side closes\<close>

text \<open>
  The side \<open>a\<close> can close: everything it sent is acknowledged, and neither the window of \<open>b\<close> as \<open>a\<close> knows it nor the window itself is shut.
  Both ends are open, or \<open>b\<close> has closed before.
\<close>

definition closing_ready :: "'f conn_block \<Rightarrow> 'f conn_block \<Rightarrow> bool" where
  "closing_ready a b \<longleftrightarrow> cb_local a = cb_remote b \<and> cb_remote a = cb_local b \<and>
     (cb_state a, cb_state b) \<in> {(Established, Established), (CloseWait, FinWait2)} \<and> \<not> cb_user_is_done_sending a \<and>
     unsent_queue (cb_sender a) = [] \<and> unacked_queue (cb_sender a) = [] \<and>
     send_next (cb_sender a) = receive_next (cb_receiver b) \<and> send_unacked (cb_sender a) = receive_next (cb_receiver b) \<and>
     send_next (cb_sender b) = receive_next (cb_receiver a) \<and> send_unacked (cb_sender b) = receive_next (cb_receiver a) \<and>
     0 < send_window (cb_sender a) \<and> 0 < get_receive_window_size b \<and> window_fits a \<and> window_fits b"

lemma closing_readyD:
  assumes "closing_ready a b"
  shows "cb_remote b = cb_local a" "cb_local b = cb_remote a" "(cb_state a, cb_state b) \<in> {(Established, Established), (CloseWait, FinWait2)}"
    "\<not> cb_user_is_done_sending a" "unsent_queue (cb_sender a) = []" "unacked_queue (cb_sender a) = []"
    "send_next (cb_sender a) = send_unacked (cb_sender a)" "receive_next (cb_receiver b) = send_unacked (cb_sender a)"
    "receive_next (cb_receiver a) = send_unacked (cb_sender b)" "send_next (cb_sender b) = send_unacked (cb_sender b)"
    "0 < send_window (cb_sender a)" "0 < get_receive_window_size b" "window_fits a" "window_fits b"
  using assms unfolding closing_ready_def by auto

lemma ready_closing:
  assumes "ready m a b" "0 < m"
  shows "closing_ready a b"
proof -
  note r = readyD [OF assms(1)]
  have "0 < send_window (cb_sender a)" using r(20) assms(2) by (simp add: word_less_nat_alt)
  moreover from this have "0 < get_receive_window_size b" using r(21) by (simp add: idle_window [OF r(1)])
  ultimately show ?thesis unfolding closing_ready_def using r(3,4,6-12,15,16,18,19) by (intro conjI) simp_all
qed

text \<open>The states after the close of one side and the acknowledgement of its FIN.\<close>

definition state_closed :: "tcp_state \<Rightarrow> tcp_state" where
  "state_closed s = state_after_ack_of_all (state_after_fin s)"

section \<open>On two hosts\<close>

text \<open>The close of a socket: its descriptor and its socket are gone, its control block is not.\<close>

definition closed_conn :: "('f, 'c, 't) host_env \<Rightarrow> qdesc \<Rightarrow> conn_key \<Rightarrow> 'f conn_block \<Rightarrow> ('f, 'c, 't) inet_stack \<Rightarrow> ('f, 'c, 't) inet_stack" where
  "closed_conn env qd k cb s =
     (set_tcp ((tcp_of s)\<lparr>tp_sockets := AList.delete qd (tp_sockets (tcp_of s)), tp_established := AList.update k cb (tp_established (tcp_of s))\<rparr>) s)
       \<lparr>st_file_table := ft_free (he_files env) qd (st_file_table s)\<rparr>"

lemma host_closes:
  assumes "host_conn env qd l r cb s" "cb_close (oe_tcp (host_open env (st_arp s))) cb = Ok (cb', Ok ())" "cb_tx cb' = cb_tx cb @ out"
  shows "inet_close env qd s = Ok (closed_conn env qd (l, r) cb' s, map TcpPacket out, Ok ())"
  using assms emitted_append [OF assms(3)]
  by (simp add: host_conn_def inet_close_def tcp_do_close_def closed_conn_def set_tcp_def Let_def)

lemma closed_conn_simps [simp]:
  "st_arp (closed_conn env qd k cb s) = st_arp s" "map_of (tp_established (tcp_of (closed_conn env qd k cb s))) k = Some cb"
  "map_of (tp_sockets (tcp_of (closed_conn env qd k cb s))) qd = None"
  by (simp_all add: closed_conn_def set_tcp_def update_conv' delete_conv')

lemma set_conn_simps [simp]:
  "map_of (tp_established (tcp_of (set_conn k cb s))) k = Some cb" "tp_sockets (tcp_of (set_conn k cb s)) = tp_sockets (tcp_of s)"
  "st_file_table (set_conn k cb s) = st_file_table s"
  by (simp_all add: set_conn_def set_tcp_def update_conv')

text \<open>One side closes at the time \<open>t\<close>: its FIN goes as a frame to the other side, which answers at once, and the answer comes back.\<close>

definition closes ::
    "('f, 'c, 't) host_env \<Rightarrow> ('f, 'c, 't) host_env \<Rightarrow> qdesc \<Rightarrow> nat \<Rightarrow>
     ('f, 'c, 't) inet_stack \<times> ('f, 'c, 't) inet_stack \<Rightarrow> ('f, 'c, 't) inet_stack \<times> ('f, 'c, 't) inet_stack \<Rightarrow> bool" where
  "closes ae be qd t s s' \<longleftrightarrow> (case (s, s') of ((a, b), (a', b')) \<Rightarrow>
     \<exists>a1 fin ack f1 f2.
       inet_close (at_time t ae) qd a = Ok (a1, [TcpPacket fin], Ok ()) \<and>
       tcp_frame (host_ext ae) fin = Ok f1 \<and> inet_do_receive (at_time t be) f1 b = Some (Ok (b', [TcpPacket ack], Ok ())) \<and>
       tcp_frame (host_ext be) ack = Ok f2 \<and> inet_do_receive (at_time t ae) f2 a1 = Some (Ok (a', [], Ok ())))"

text \<open>The states of the two control blocks of a connection.\<close>

definition conn_states :: "conn_key \<Rightarrow> ('f, 'c, 't) inet_stack \<times> ('f, 'c, 't) inet_stack \<Rightarrow> tcp_state option \<times> tcp_state option" where
  "conn_states k s = (map_option cb_state (map_of (tp_established (tcp_of (fst s))) k),
     map_option cb_state (map_of (tp_established (tcp_of (snd s))) (prod.swap k)))"

lemma fin_header_norm [simp]: "tcp_norm (fin_header l r q a w) = fin_header l r q a w"
  by (simp add: tcp_norm_def tcp_iter_options_def conn_header_def tcp_header_new_def MAX_TCP_OPTIONS_def)

lemma fin_segment_wf:
  assumes "length mac = 6" "length (rt_local_link_addr (te_rt env)) = 6"
  shows "tcp_segment_wf (data_segment env l r mac (fin_header l r q a w) [])"
proof -
  have "tcp_wf (fin_header l r q a w)" by (rule no_options_wf) simp_all
  moreover have "tcp_compute_size (fin_header l r q a w) = 20" by (simp add: tcp_compute_size_bounds(3))
  ultimately show ?thesis using assms
    by (simp add: data_segment_def tcp_segment_wf_def eth_wf_def ethernet2_new_def ipv4_wf_def ipv4_new_def)
qed

context rto_total
begin

lemma close_blocks:
  assumes c: "closing_ready ca cb" "cb_local ca = l" "cb_remote ca = r" "good (cb_rto ca)" "good (cb_rto cb)"
    and env: "te_cc A = none_ops" "te_fl A = F" "te_fl B = F" "te_arp A (fst r) = Some bmac" "te_arp B (fst l) = Some amac"
  obtains h g ca1 ca2 cb1 where
    "cb_close A ca = Ok (ca1, Ok ())" "cb_tx ca1 = cb_tx ca @ [data_segment A l r bmac h []]"
    "cb_receive B h [] cb = Some (Ok cb1)" "cb_tx cb1 = cb_tx cb @ [data_segment B r l amac g []]"
    "cb_receive A g [] ca1 = Some (Ok ca2)" "cb_tx ca2 = cb_tx ca1"
    "cb_state ca2 = state_closed (cb_state ca)" "state_after_peer_fin (cb_state cb) = Ok (cb_state cb1)"
    "unacked_queue (cb_sender ca2) = []" "send_unacked (cb_sender ca2) = receive_next (cb_receiver cb1)"
    "cb_state ca = Established \<Longrightarrow> closing_ready cb ca \<Longrightarrow> closing_ready cb1 ca2"
    "good (cb_rto ca2)" "good (cb_rto cb1)" "cb_local cb1 = r" "cb_remote cb1 = l"
    "\<exists>q x w. h = fin_header l r q x w" "\<exists>q x w. g = conn_header r l q x w"
proof -
  note r = closing_readyD [OF c(1)]
  obtain rto c' where rto: "rto_estimate F (cb_rto ca) = Ok rto" "rto_add_sample F 0 (cb_rto ca) = Ok c'" "good c'"
    using estimate [OF c(4)] sample [OF c(4)] by blast
  obtain rto' where rto': "rto_estimate F (cb_rto cb) = Ok rto'" using estimate [OF c(5)] by blast
  let ?n = "send_unacked (cb_sender ca)" and ?k = "send_unacked (cb_sender cb)"
  let ?h = "fin_header l r ?n ?k (wire_window ca)"
  from cb_close_sends_fin [OF r(13,4,5) env(1) r(7), of rto bmac] r(6,7,9,11) rto(1) env(2,4) c(2,3) obtain t where
    a1: "cb_close A ca = Ok (ca\<lparr>cb_sender := (cb_sender ca)\<lparr>send_next := ?n + 1, unsent_seq_no := unsent_seq_no (cb_sender ca) + 1,
           unacked_queue := [\<lparr>us_bytes = [], us_initial_tx = Some (te_now A)\<rparr>]\<rparr>,
         cb_state := state_after_fin (cb_state ca), cb_ack_deadline := None, cb_retransmit_deadline := t, cb_user_is_done_sending := True,
         cb_tx := cb_tx ca @ [data_segment A l r bmac ?h []]\<rparr>, Ok ())" (is "_ = Ok (?ca1, _)")
    by auto
  obtain st where st: "state_after_peer_fin (cb_state cb) = Ok st" using r(3) by (auto simp: state_after_peer_fin_def)
  have nolt: "\<not> seq_lt ?k ?k" by (simp add: seq_lt_dist)
  from cb_receive_fin [of ?h cb st B rto' amac] r(8,10,12,14) nolt st rto' env(3,5) r(1,2) c(2,3) obtain w where
    b1: "cb_receive B ?h [] cb = Some (Ok (cb\<lparr>cb_receiver := (cb_receiver cb)\<lparr>receive_next := ?n + 1\<rparr>,
       cb_state := st, cb_ack_deadline := None, cb_tx := cb_tx cb @ [data_segment B r l amac (conn_header r l ?k (?n + 1) w) []]\<rparr>))" (is "_ = Some (Ok ?cb1)")
    and fits: "window_fits (cb\<lparr>cb_receiver := (cb_receiver cb)\<lparr>receive_next := ?n + 1\<rparr>\<rparr>)" by auto
  let ?g = "conn_header r l ?k (?n + 1) w"
  have a2: "cb_receive A ?g [] ?ca1 = Some (Ok (?ca1\<lparr>
     cb_sender := update_send_window ?g ((cb_sender ?ca1)\<lparr>unacked_queue := [], send_unacked := ?n + 1\<rparr>),
     cb_rto := c', cb_retransmit_deadline := None, cb_state := state_closed (cb_state ca)\<rparr>))" (is "_ = Some (Ok ?ca2)")
    using cb_receive_fin_acked [of ?g ?ca1 "te_now A" A rto c'] r(9) rto(1,2) env(2) by (simp add: state_closed_def)
  have again: "closing_ready ?cb1 ?ca2" if "cb_state ca = Established" "closing_ready cb ca"
  proof -
    have s: "cb_state cb = Established" "st = CloseWait" "state_closed (cb_state ca) = FinWait2" using r(3) st that(1)
      by (auto simp: state_after_peer_fin_def state_closed_def state_after_fin_def state_after_ack_of_all_def)
    have "window_fits ?cb1" "window_fits ?ca2" using fits r(13) by (simp_all add: window_fits_def get_receive_window_size_def)
    moreover have "get_receive_window_size ?ca2 = get_receive_window_size ca" by (simp add: get_receive_window_size_def)
    ultimately show ?thesis using closing_readyD [OF that(2)] s unfolding closing_ready_def
      by (simp add: update_send_window_def)
  qed
  have "\<exists>q x w. ?h = fin_header l r q x w" "\<exists>q x w. ?g = conn_header r l q x w" by blast+
  with again show thesis
    by (intro that [OF a1 _ b1 _ a2]) (use st rto(3) c(2,3,5) r(1,2) in \<open>simp_all add: update_send_window_def\<close>)
qed

lemma host_close:
  assumes E: "extern (host_ext ae)" and link: "linked F ae be (l, r)"
    and c: "host_conn ae qd l r ca a" "map_of (tp_established (tcp_of b)) (r, l) = Some cb" "closing_ready ca cb" "cb_local ca = l" "cb_remote ca = r"
      "good (cb_rto ca)" "good (cb_rto cb)"
    and arp: "resolves (st_arp a) (fst r)" "resolves (st_arp b) (fst l)"
  obtains ca1 ca' cb' where "closes ae be qd t (a, b) (set_conn (l, r) ca' (closed_conn ae qd (l, r) ca1 a), set_conn (r, l) cb' b)"
    "cb_state ca' = state_closed (cb_state ca)" "state_after_peer_fin (cb_state cb) = Ok (cb_state cb')"
    "cb_state ca = Established \<and> closing_ready cb ca \<longrightarrow> closing_ready cb' ca'" "good (cb_rto ca')" "good (cb_rto cb')" "cb_local cb' = r" "cb_remote cb' = l"
proof -
  let ?A = "oe_tcp (host_open (at_time t ae) (st_arp a))" and ?B = "oe_tcp (host_open (at_time t be) (st_arp b))"
  obtain amac bmac where mac: "arp_try_query (st_arp a) (fst r) = Some bmac" "length bmac = 6" "arp_try_query (st_arp b) (fst l) = Some amac" "length amac = 6"
    using arp by (auto simp: resolves_def)
  obtain h g ca1 ca2 cb1 where
    x: "cb_close ?A ca = Ok (ca1, Ok ())" "cb_tx ca1 = cb_tx ca @ [data_segment ?A l r bmac h []]"
      "cb_receive ?B h [] cb = Some (Ok cb1)" "cb_tx cb1 = cb_tx cb @ [data_segment ?B r l amac g []]"
      "cb_receive ?A g [] ca1 = Some (Ok ca2)" "cb_tx ca2 = cb_tx ca1"
    and st: "cb_state ca2 = state_closed (cb_state ca)" "state_after_peer_fin (cb_state cb) = Ok (cb_state cb1)"
      "unacked_queue (cb_sender ca2) = []" "send_unacked (cb_sender ca2) = receive_next (cb_receiver cb1)"
      "cb_state ca = Established \<Longrightarrow> closing_ready cb ca \<Longrightarrow> closing_ready cb1 ca2"
      "good (cb_rto ca2)" "good (cb_rto cb1)" "cb_local cb1 = r" "cb_remote cb1 = l"
    and hd: "\<exists>q x w. h = fin_header l r q x w" "\<exists>q x w. g = conn_header r l q x w"
    by (rule close_blocks [OF c(3-7), of ?A ?B bmac amac]) (use link mac in \<open>simp_all add: linked_def\<close>)
  let ?a1 = "closed_conn ae qd (l, r) ca1 a"
  have wf: "tcp_segment_wf (data_segment ?A l r bmac h [])" "tcp_segment_wf (data_segment ?B r l amac g [])"
    using hd mac(2,4) link by (auto simp: linked_def intro!: fin_segment_wf data_segment_wf)
  have close: "inet_close (at_time t ae) qd a = Ok (?a1, [TcpPacket (data_segment ?A l r bmac h [])], Ok ())"
    using host_closes [of "at_time t ae" qd l r ca a ca1, OF _ x(1,2)] c(1) by (simp add: closed_conn_def)
  have f1: "\<exists>f1. tcp_frame (host_ext ae) (data_segment ?A l r bmac h []) = Ok f1 \<and>
      inet_do_receive (at_time t be) f1 b = Some (Ok (set_conn (r, l) cb1 b, [TcpPacket (data_segment ?B r l amac g [])], Ok ()))"
    using host_receives [of "at_time t be" ?A l r bmac h "[]" b cb cb1 "[data_segment ?B r l amac g []]"] wf(1) x(3,4) c(2) hd(1) E link by (auto simp: linked_def)
  have f2: "\<exists>f2. tcp_frame (host_ext be) (data_segment ?B r l amac g []) = Ok f2 \<and>
      inet_do_receive (at_time t ae) f2 ?a1 = Some (Ok (set_conn (l, r) ca2 ?a1, [], Ok ()))"
    using host_receives [of "at_time t ae" ?B r l amac g "[]" ?a1 ca1 ca2 "[]"] wf(2) x(5,6) hd(2) E link by (auto simp: linked_def)
  have "closes ae be qd t (a, b) (set_conn (l, r) ca2 ?a1, set_conn (r, l) cb1 b)"
    unfolding closes_def using close f1 f2 by (simp del: split_paired_Ex) blast
  then show thesis using that st(1,2,5-9) by blast
qed

text \<open>Both sides close, one after the other.\<close>

lemma session_closes:
  assumes E: "extern (host_ext ae)" and link: "linked F ae be (l, r)" and files: "io_queue_table (he_files ae)" "io_queue_table (he_files be)"
    and ses: "session good m delay ae be (l, r) qd rqd s" "0 < fst m" "0 < snd m"
  shows "\<exists>s1 s2. closes ae be qd t s s1 \<and> conn_states (l, r) s1 = (Some FinWait2, Some CloseWait) \<and>
     closes be ae rqd t' (prod.swap s1) (prod.swap s2) \<and> conn_states (l, r) s2 = (Some TimeWait, Some tcp_state.Closed) \<and>
     ft_get (he_files ae) (st_file_table (fst s2)) qd = None \<and> ft_get (he_files be) (st_file_table (snd s2)) rqd = None"
proof -
  obtain a b where s: "s = (a, b)" by fastforce
  from ses(1) obtain ca cb where
    c: "host_conn ae qd l r ca a" "host_conn be rqd r l cb b" "ready (fst m) ca cb" "ready (snd m) cb ca" "cb_local ca = l" "cb_remote ca = r"
      "good (cb_rto ca)" "good (cb_rto cb)" and arp: "resolves (st_arp a) (fst r)" "resolves (st_arp b) (fst l)"
    by (auto simp: s session_def blocks_ready_def)
  have est: "cb_state ca = Established" "cb_state cb = Established" by (rule readyD(9,10) [OF c(3)])+
  note cl = ready_closing [OF c(3) ses(2)] ready_closing [OF c(4) ses(3)]
  obtain ca1 ca' cb' where
    x: "closes ae be qd t (a, b) (set_conn (l, r) ca' (closed_conn ae qd (l, r) ca1 a), set_conn (r, l) cb' b)" (is "closes ae be qd t _ (?a', ?b')")
      "cb_state ca' = state_closed (cb_state ca)" "state_after_peer_fin (cb_state cb) = Ok (cb_state cb')"
      "cb_state ca = Established \<and> closing_ready cb ca \<longrightarrow> closing_ready cb' ca'" "good (cb_rto ca')" "good (cb_rto cb')" "cb_local cb' = r" "cb_remote cb' = l"
    by (rule host_close [OF E link c(1) host_conn_block [OF c(2)] cl(1) c(5-8) arp, of t])
  have E': "extern (host_ext be)" "linked F be ae (r, l)" using E link linked_swap [OF link] by (simp_all add: linked_def)
  have b': "host_conn be rqd r l cb' ?b'" by (rule host_conn_set [OF c(2)])
  obtain cb1 cb'' ca'' where
    y: "closes be ae rqd t' (?b', ?a') (set_conn (r, l) cb'' (closed_conn be rqd (r, l) cb1 ?b'), set_conn (l, r) ca'' ?a')"
      "cb_state cb'' = state_closed (cb_state cb')" "state_after_peer_fin (cb_state ca') = Ok (cb_state ca'')"
    by (rule host_close [OF E' b' _ x(4) [rule_format, OF conjI [OF est(1) cl(2)]] x(7,8,6,5), of ?a' t']) (use arp in simp_all)
  have st: "cb_state ca' = FinWait2" "cb_state cb' = CloseWait" "cb_state cb'' = tcp_state.Closed" "cb_state ca'' = TimeWait"
    using x(2,3) y(2,3) est by (simp_all add: state_closed_def state_after_fin_def state_after_ack_of_all_def state_after_peer_fin_def)
  show ?thesis
    by (intro exI [of _ "(?a', ?b')"] exI [of _ "(set_conn (l, r) ca'' ?a', set_conn (r, l) cb'' (closed_conn be rqd (r, l) cb1 ?b'))"])
      (simp add: s x(1) y(1) st conn_states_def, simp add: closed_conn_def io_queue_table.free_get [OF files(1)] io_queue_table.free_get [OF files(2)])
qed

end

end
