(* ===== verification/Tcp_Lifecycle.thy ===== *)
theory Tcp_Lifecycle
  imports Tcp_Teardown
begin

text \<open>
  From the handshake to the close.  The control blocks that a handshake leaves on the two hosts are ready for data in both directions, so that
  a connection can be followed through its life.
\<close>

section \<open>The windows after a handshake\<close>

text \<open>What a host announces before the window scale takes effect: the window of its configuration, shifted as a 16-bit number.\<close>

definition usable_window :: "('f, 'c, 't) host_env \<Rightarrow> nat" where
  "usable_window env = unat (push_bit (unat (cfg_window_scale (oe_cfg (he_open env)))) (cfg_receive_window_size (oe_cfg (he_open env))))"

lemma push_drop_push: "push_bit k (drop_bit k (push_bit k (x :: u32))) = push_bit k x"
  by (rule bit_word_eqI) (auto simp: bit_simps)

lemma push_drop_push_16: "push_bit k (drop_bit k (ucast (push_bit k (x :: u16)) :: u32)) = ucast (push_bit k x)"
  by (rule bit_word_eqI) (auto simp: bit_simps)

lemma unat_ucast_16 [simp]: "unat (ucast (w :: u16) :: u32) = unat w"
  using unsigned_less [of w, where 'a = nat] by (simp add: unsigned_ucast_eq take_bit_nat_eq_self)

lemma drop_push_16: "k \<le> 14 \<Longrightarrow> drop_bit k (push_bit k (ucast (w :: u16)) :: u32) = ucast w"
  by (rule bit_word_eqI) (auto simp: bit_simps dest: bit_imp_le_length)

lemma push_16_less: "k \<le> 14 \<Longrightarrow> push_bit k (ucast (w :: u16)) < (2 ^ 31 :: u32)"
proof -
  assume k: "k \<le> 14"
  have "unat w * 2 ^ k < 2 ^ 16 * 2 ^ 14"
    using unsigned_less [of w, where 'a = nat] power_increasing [OF k, of "2 :: nat"] by (intro mult_less_le_imp_less) simp_all
  moreover have "unat (push_bit k (ucast w :: u32)) = take_bit LENGTH(32) (push_bit k (unat (ucast w :: u32)))" by (rule unsigned_push_bit_eq)
  ultimately show ?thesis by (simp add: word_less_nat_alt take_bit_eq_mod push_bit_eq_mult)
qed

lemma unat_16: "unat (w :: u16) < 65536"
  using unsigned_less [of w, where 'a = nat] by simp

lemma drop_ucast_16: "unat (drop_bit k (ucast (w :: u16) :: u32)) < 65536"
proof -
  have "unat (drop_bit k (ucast w :: u32)) = drop_bit k (unat w)"
    using unat_16 [of w] by (simp add: unsigned_drop_bit_eq take_bit_nat_eq_self)
  moreover have "drop_bit k (unat w) \<le> unat w" by (simp add: drop_bit_eq_div)
  ultimately show ?thesis using unat_16 [of w] by linarith
qed

lemma handshake_block_simps:
  "cb_local (client_block ce se l r i j) = l" "cb_remote (client_block ce se l r i j) = r"
  "cb_ack_delay_timeout (client_block ce se l r i j) = cfg_ack_delay_timeout (oe_cfg (he_open ce))"
  "cb_ack_delay_timeout (server_block ce se r l j i) = cfg_ack_delay_timeout (oe_cfg (he_open se))"
  "cb_rto (client_block ce se l r i j) = rto_new (te_fl (oe_tcp (he_open ce)))" "cb_rto (server_block ce se r l j i) = rto_new (te_fl (oe_tcp (he_open se)))"
  by (simp_all add: client_block_def server_block_def opened_def control_block_new_def)

lemma handshake_windows:
  fixes l r i j
  assumes "cfg_window_scale (oe_cfg (he_open ce)) \<le> 14" "cfg_window_scale (oe_cfg (he_open se)) \<le> 14"
  shows "ready (usable_window se) (client_block ce se l r i j) (server_block ce se r l j i)"
    "ready (usable_window ce) (server_block ce se r l j i) (client_block ce se l r i j)"
proof -
  let ?ca = "client_block ce se l r i j" and ?cb = "server_block ce se r l j i"
  let ?k = "unat (cfg_window_scale (oe_cfg (he_open ce)))" and ?n = "unat (cfg_window_scale (oe_cfg (he_open se)))"
  let ?v = "cfg_receive_window_size (oe_cfg (he_open ce))" and ?w = "cfg_receive_window_size (oe_cfg (he_open se))"
  have k: "?k \<le> 14" "?n \<le> 14" using assms by (simp_all add: word_le_14)
  have scale: "unat (ucast (w :: u8) :: u32) mod 32 = unat w" if "unat w \<le> 14" for w
    using that unsigned_less [of w, where 'a = nat] by (simp add: unsigned_ucast_eq take_bit_nat_eq_self)
  have a: "cb_receive_buffer_size ?ca = ucast (push_bit ?k ?v)" "unat (cb_window_scale ?ca) mod 32 = ?k" "get_receive_window_size ?ca = cb_receive_buffer_size ?ca"
      "unat (send_window (cb_sender ?ca)) = usable_window se" "\<not> cb_user_is_done_sending ?ca" "cb_ack_deadline ?ca = None"
    using scale [OF k(1)] by (simp_all add: client_block_def opened_def control_block_new_def sender_new_def receiver_new_def get_receive_window_size_def
      seq_sub_def usable_window_def)
  have b: "cb_receive_buffer_size ?cb = push_bit ?n (ucast ?w)" "unat (cb_window_scale ?cb) mod 32 = ?n" "get_receive_window_size ?cb = cb_receive_buffer_size ?cb"
      "unat (send_window (cb_sender ?cb)) = usable_window ce" "\<not> cb_user_is_done_sending ?cb" "cb_ack_deadline ?cb = None"
    using scale [OF k(2)] by (simp_all add: server_block_def opened_def control_block_new_def sender_new_def receiver_new_def get_receive_window_size_def
      seq_sub_def usable_window_def)
  have fits: "window_fits ?ca" "window_fits ?cb" unfolding window_fits_def a(1-3) b(1-3)
    using drop_ucast_16 [of ?k "push_bit ?k ?v"] unat_16 [of "push_bit ?k ?v"] unat_16 [of ?w] drop_push_16 [OF k(2)] push_16_less [OF k(2)]
    by (simp_all add: word_less_nat_alt)
  have "usable_window se \<le> unat (push_bit ?n (ucast ?w :: u32))"
    using push_bit_truncates [of ?n ?w] k(2) by (simp add: usable_window_def word_le_nat_alt)
  then show "ready (usable_window se) ?ca ?cb" "ready (usable_window ce) ?cb ?ca"
    unfolding ready_def using handshake_blocks_agree [OF assms] fits a b
    by (simp_all add: push_drop_push push_drop_push_16 usable_window_def)
qed

section \<open>The handshake as a step\<close>

text \<open>
  An application of the server waits in \<^verbatim>\<open>accept\<close>, an application of the client connects, and SYN, SYN+ACK and ACK go as frames between the hosts;
  then the polls of both operations are ready.  The link addresses are the answers of the address resolution.
\<close>

definition handshake ::
    "('f, 'c, 't) host_env \<Rightarrow> ('f, 'c, 't) host_env \<Rightarrow> conn_key \<Rightarrow> qdesc \<times> qdesc \<times> qdesc \<Rightarrow> mac_address \<times> mac_address \<Rightarrow>
     ('f, 'c, 't) inet_stack \<times> ('f, 'c, 't) inet_stack \<Rightarrow> ('f, 'c, 't) inet_stack \<times> ('f, 'c, 't) inet_stack \<Rightarrow> bool" where
  "handshake ce se k qds macs s s' \<longleftrightarrow> (case (k, qds, macs, s, s') of ((l, r), (qd, lqd, new_qd), (smac, cmac), (a, b), (a', b')) \<Rightarrow>
     \<exists>a1 a2 a3 a4 b0 b1 b2 b3 b4 syn synack ack f1 f2 f3.
       inet_accept se lqd b = (b0, Ok (FoTcp (TcpAccept lqd new_qd None))) \<and>
       inet_connect ce qd r a = (a1, Ok (FoTcp (TcpConnect qd None))) \<and>
       host_connecting_task ce (l, r) HsPolled a1 = Ok (a2, []) \<and>
       host_connecting_task ce (l, r) (HsResolved (Ok smac)) a2 = Ok (a3, [syn]) \<and>
       tcp_frame (host_ext ce) syn = Ok f1 \<and> inet_do_receive se f1 b0 = Some (Ok (b1, [], Ok ())) \<and>
       host_passive_task se r l HsPolled b1 = Ok (b2, []) \<and>
       host_passive_task se r l (HsResolved (Ok cmac)) b2 = Ok (b3, [synack]) \<and>
       tcp_frame (host_ext se) synack = Ok f2 \<and> inet_do_receive ce f2 a3 = Some (Ok (a4, [TcpPacket ack], Ok ())) \<and>
       tcp_frame (host_ext ce) ack = Ok f3 \<and> inet_do_receive se f3 b3 = Some (Ok (b4, [], Ok ())) \<and>
       future_operation_poll ce (FoTcp (TcpConnect qd None)) a4 = Ok (a', FoTcp (TcpConnect qd (Some (Ok ()))), True) \<and>
       future_operation_poll se (FoTcp (TcpAccept lqd new_qd None)) b4 = Ok (b', FoTcp (TcpAccept lqd new_qd (Some (Ok new_qd))), True))"

text \<open>What the two hosts need for a handshake, beyond being linked.\<close>

definition can_connect ::
    "('f, 'c, 't) host_env \<Rightarrow> ('f, 'c, 't) host_env \<Rightarrow> conn_key \<Rightarrow> qdesc \<times> qdesc \<times> qdesc \<Rightarrow> mac_address \<times> mac_address \<Rightarrow>
     ('f, 'c, 't) inet_stack \<times> ('f, 'c, 't) inet_stack \<Rightarrow> bool" where
  "can_connect ce se k qds macs s \<longleftrightarrow> (case (k, qds, macs, s) of ((l, r), (qd, lqd, new_qd), (smac, cmac), (a, b)) \<Rightarrow>
     arp_try_query (st_arp a) (fst r) = Some smac \<and> length smac = 6 \<and> arp_try_query (st_arp b) (fst l) = Some cmac \<and> length cmac = 6 \<and>
     cfg_window_scale (oe_cfg (he_open ce)) \<le> 14 \<and> cfg_window_scale (oe_cfg (he_open se)) \<le> 14 \<and>
     cfg_handshake_retries (oe_cfg (he_open ce)) \<noteq> 0 \<and> cfg_handshake_retries (oe_cfg (he_open se)) \<noteq> 0 \<and>
     cfg_rx_checksum_offload (oe_cfg (he_open ce)) = cfg_rx_checksum_offload (oe_cfg (he_open se)) \<and>
     ft_get (he_files ce) (st_file_table a) qd = Some TcpSocket \<and> map_of (tp_sockets (tcp_of a)) qd = Some (Inactive (Some l)) \<and>
     map_of (tp_connecting (tcp_of a)) (l, r) = None \<and> map_of (tp_established (tcp_of a)) (l, r) = None \<and>
     ft_get (he_files se) (st_file_table b) lqd = Some TcpSocket \<and> snd (ft_alloc (he_files se) TcpSocket (st_file_table b)) = new_qd \<and>
     map_of (tp_sockets (tcp_of b)) new_qd = None \<and> tcp_peer_ok (tcp_of b) \<and> map_of (tp_sockets (tcp_of b)) lqd = Some (Listening r) \<and>
     map_of (tp_connecting (tcp_of b)) (r, l) = None \<and> map_of (tp_established (tcp_of b)) (r, l) = None \<and>
     (\<exists>p. map_of (tp_passive (tcp_of b)) r = Some p \<and> \<not> pending p l \<and> rs_ready (ps_ready p) = [] \<and> length (ps_inflight p) < ps_max_backlog p))"

lemma handshake_session:
  assumes E: "extern (host_ext ce)" and link: "linked F ce se (l, r)" and files: "io_queue_table (he_files se)" and good: "good (rto_new F)"
    and can: "can_connect ce se (l, r) (qd, lqd, new_qd) (smac, cmac) s"
  shows "\<exists>s'. handshake ce se (l, r) (qd, lqd, new_qd) (smac, cmac) s s' \<and>
     session good (usable_window se, usable_window ce)
       (cfg_ack_delay_timeout (oe_cfg (he_open se)), cfg_ack_delay_timeout (oe_cfg (he_open ce))) ce se (l, r) qd new_qd s'"
proof -
  obtain a b where s: "s = (a, b)" by fastforce
  note can = can [unfolded can_connect_def s prod.case]
  obtain tab where tab: "ft_alloc (he_files se) TcpSocket (st_file_table b) = (tab, new_qd)" using can by (metis prod.collapse)
  let ?b = "b\<lparr>st_file_table := tab\<rparr>"
  from can obtain p where
    p: "map_of (tp_passive (tcp_of b)) r = Some p" "\<not> pending p l" "rs_ready (ps_ready p) = []" "length (ps_inflight p) < ps_max_backlog p" by blast
  have accept: "inet_accept se lqd b = (?b, Ok (FoTcp (TcpAccept lqd new_qd None)))" using can tab by (simp add: inet_accept_def)
  have new: "ft_get (he_files se) tab new_qd = Some TcpSocket" using io_queue_table.alloc_get [OF files tab] by simp
  have ext: "host_ext se = host_ext ce" using link by (simp add: linked_def)
  from handshake_completes [of "host_ext ce" ce se l r a smac cmac qd ?b lqd p new_qd] E ext can p link
  obtain p1 p2 p3 p4 q1 q2 q3 q4 syn synack ack f1 f2 f3 ta tb i j where
    h: "inet_connect ce qd r a = (set_tcp p1 a, Ok (FoTcp (TcpConnect qd None)))"
      "host_connecting_task ce (l, r) HsPolled (set_tcp p1 a) = Ok (set_tcp p2 a, [])"
      "host_connecting_task ce (l, r) (HsResolved (Ok smac)) (set_tcp p2 a) = Ok (set_tcp p3 a, [syn])"
      "tcp_frame (host_ext ce) syn = Ok f1" "inet_do_receive se f1 ?b = Some (Ok (set_tcp q1 ?b, [], Ok ()))"
      "host_passive_task se r l HsPolled (set_tcp q1 ?b) = Ok (set_tcp q2 ?b, [])"
      "host_passive_task se r l (HsResolved (Ok cmac)) (set_tcp q2 ?b) = Ok (set_tcp q3 ?b, [synack])"
      "tcp_frame (host_ext ce) synack = Ok f2" "inet_do_receive ce f2 (set_tcp p3 a) = Some (Ok (set_tcp p4 a, [TcpPacket ack], Ok ()))"
      "tcp_frame (host_ext ce) ack = Ok f3" "inet_do_receive se f3 (set_tcp q3 ?b) = Some (Ok (set_tcp q4 ?b, [], Ok ()))"
      "tcp_poll_connect_finished qd (tcp_of (set_tcp p4 a)) = Ok (ta, Some (Ok ()))"
      "tcp_poll_accept lqd new_qd (tcp_of (set_tcp q4 ?b)) = Ok (tb, Some (Ok new_qd))"
    and t: "map_of (tp_sockets ta) qd = Some (SockEstablished l r)" "map_of (tp_sockets tb) new_qd = Some (SockEstablished r l)"
      "map_of (tp_established ta) (l, r) = Some (client_block ce se l r i j)" "map_of (tp_established tb) (r, l) = Some (server_block ce se r l j i)"
    by (simp add: linked_def del: split_paired_Ex) blast
  have polls: "future_operation_poll ce (FoTcp (TcpConnect qd None)) (set_tcp p4 a) = Ok (set_tcp ta a, FoTcp (TcpConnect qd (Some (Ok ()))), True)"
    "future_operation_poll se (FoTcp (TcpAccept lqd new_qd None)) (set_tcp q4 ?b) = Ok (set_tcp tb ?b, FoTcp (TcpAccept lqd new_qd (Some (Ok new_qd))), True)"
    using h(12,13) by simp_all
  have "handshake ce se (l, r) (qd, lqd, new_qd) (smac, cmac) (a, b) (set_tcp ta a, set_tcp tb ?b)"
    unfolding handshake_def prod.case using accept h(1-11) polls ext by metis
  moreover have "blocks_ready good (usable_window se, usable_window ce)
      (cfg_ack_delay_timeout (oe_cfg (he_open se)), cfg_ack_delay_timeout (oe_cfg (he_open ce))) (l, r) (client_block ce se l r i j) (server_block ce se r l j i)"
    using handshake_windows(1) [of ce se l r i j] handshake_windows(2) [of ce se r l j i] can good link
    by (simp add: blocks_ready_def linked_def handshake_block_simps)
  then have "session good (usable_window se, usable_window ce)
      (cfg_ack_delay_timeout (oe_cfg (he_open se)), cfg_ack_delay_timeout (oe_cfg (he_open ce))) ce se (l, r) qd new_qd (set_tcp ta a, set_tcp tb ?b)"
    unfolding session_def using t can new
    by (intro exI [of _ "client_block ce se l r i j"] exI [of _ "server_block ce se r l j i"]) (simp add: host_conn_def resolves_def)
  ultimately show ?thesis using s by blast
qed

end
