(* ===== verification/Run_Properties.thy ===== *)
theory Run_Properties
  imports Stack_Steps Stack_Properties Tcp_Lifecycle
begin

text \<open>
  What holds while a stack runs: the types of its descriptors in every reachable state, with operations scheduled in any
  order, and the calls \<^verbatim>\<open>wait2\<close> and \<^verbatim>\<open>wait_any2\<close> that run the stack until an operation completes.
\<close>

section \<open>Descriptors\<close>

text \<open>C7: Descriptors are typed.  In every state that a stack can reach from its start, by the calls of the application, polls of
  scheduled operations and their results, frames and background tasks in any order: the table of descriptors gives every TCP and UDP socket its own type,
  a descriptor that a pending accept has reserved is a TCP descriptor without a socket and is reserved once; the invariants
  of both peers hold; no poll of a pending operation panics; and a new socket is always granted, with a descriptor not in use.\<close>

theorem stack_reachable_typed:
  assumes "io_queue_table (he_files env)" "slot_chan (he_chan env) items cap" "\<And>xs. mset (shuffle xs) = mset xs"
    and "inet_stack_new env shuffle nonce t now ttl init disable retries off = Ok s0" "ft_get (he_files env) t = Map.empty"
    and "stack_reach env (s0, []) (s, ops)"
  shows "typed (ft_get (he_files env) (st_file_table s)) (tcp_qds (tcp_of s)) (udp_qds (udp_of s)) (concat (map op_reserved ops)) \<and>
     tcp_peer_ok (tcp_of s) \<and> udp_ok items cap (udp_of s) \<and>
     (\<forall>f \<in> set ops. \<not> op_done f \<longrightarrow> (\<exists>s' f' ready. future_operation_poll env f s = Ok (s', f', ready))) \<and>
     (\<forall>ty \<in> {SOCK_STREAM, SOCK_DGRAM}. \<exists>s' qd. inet_socket env AF_INET ty s = (s', Ok qd) \<and> ft_get (he_files env) (st_file_table s) qd = None)"
proof -
  from assms(4) have s0: "tcp_of s0 = tcp_peer_new shuffle nonce"
    "udp_of s0 = udp_peer_new (he_chan env) shuffle (rt_local_link_addr (host_rt env)) (rt_local_ipv4_addr (host_rt env)) off" "st_file_table s0 = t"
    by (auto simp: inet_stack_new_def ipv4_peer_new_def res_bind_Ok_iff)
  have "sys_typed env (s0, [])"
    by (simp add: s0 sys_typed_def typed_def tcp_qds_def udp_qds_def tcp_peer_new_def udp_peer_new_def)
  from io_queue_table.stack_reach_typed [OF assms(1,6) this] have
    r: "sys_typed env (s, ops)" "tcp_reach (tcp_of s0) (tcp_of s)" "udp_reach (host_ext env) (he_chan env) (udp_of s0) (udp_of s)" by simp_all
  have tcp: "tcp_peer_ok (tcp_of s)" using tcp_reach_ok r(2) tcp_peer_ok_new [OF assms(3)] s0(1) by metis
  have udp: "udp_ok items cap (udp_of s)"
    using slot_chan.udp_reach_ok [OF assms(2) r(3)] slot_chan.udp_ok_new [OF assms(2,3)] s0(2) by metis
  have sock: "\<exists>s' qd. inet_socket env AF_INET ty s = (s', Ok qd) \<and> ft_get (he_files env) (st_file_table s) qd = None"
    if "ty \<in> {SOCK_STREAM, SOCK_DGRAM}" for ty
    by (rule io_queue_table.inet_socket_granted [OF assms(1) r(1) that refl])
  show ?thesis
    using r(1) tcp udp sock future_operation_poll_ok [OF tcp r(1)] by (simp add: sys_typed_def)
qed

theorem stack_reachable_typed_witness:
  "\<exists>s0 s qd. inet_stack_new (sample_host_env [2, 0, 0, 0, 0, 1] 0x0A000001) id 0 [] 0 600 [] False 5 False = Ok s0 \<and>
     inet_socket (sample_host_env [2, 0, 0, 0, 0, 1] 0x0A000001) AF_INET SOCK_STREAM s0 = (s, Ok qd) \<and> tcp_peer_ok (tcp_of s)"
proof -
  let ?env = "sample_host_env [2, 0, 0, 0, 0, 1] 0x0A000001"
  obtain s0 where s0: "inet_stack_new ?env id 0 [] 0 600 [] False 5 False = Ok s0"
    by (simp add: inet_stack_new_def arp_peer_new_def arp_cache_new_def ttl_new_def)
  note typed = stack_reachable_typed [OF _ _ _ s0, of lc_items lc_size]
  have files: "io_queue_table (he_files ?env)" "slot_chan (he_chan ?env) lc_items lc_size" "ft_get (he_files ?env) [] = Map.empty"
    using files.io_queue_table_axioms doc_slots.slot_chan_axioms by (simp_all add: sample_host_env_def documented_files_def)
  from typed [OF files(1,2) _ files(3) stack_start] obtain s qd where
    s: "inet_socket ?env AF_INET SOCK_STREAM s0 = (s, Ok qd)" by auto
  then have "stack_reach ?env (s0, []) (s, [])" by (blast intro: stack_start stack_next on_socket)
  from typed [OF files(1,2) _ files(3) this] s0 s show ?thesis by auto
qed

section \<open>Waiting for an operation\<close>

text \<open>C17: \<^verbatim>\<open>wait2\<close> returns exactly when its operation completes.  For a token of the scheduler, if background rounds lead to a state in which
  the operation has completed, \<^verbatim>\<open>wait2\<close> runs the stack to the first such state, takes the operation there and returns its result;
  and it returns in no other way.  A token that the scheduler does not know is refused, and nothing runs.\<close>

theorem wait2_exact:
  assumes "ro_get_handle R qt (snd w) = Some h"
  shows "(\<forall>n w'. completes_in R env h n w w' \<longrightarrow>
       inet_wait2 R env qt w = Some (res_bind (inet_take R env h w') (\<lambda>(w, qd, r). Ok (w, Ok (qd, r))))) \<and>
     (\<forall>v r. inet_wait2 R env qt w = Some (Ok (v, r)) \<longrightarrow>
       (\<exists>n w' qd x. completes_in R env h n w w' \<and> inet_take R env h w' = Ok (v, qd, x) \<and> r = Ok (qd, x))) \<and>
     (\<forall>qt'. ro_get_handle R qt' (snd w) = None \<longrightarrow> inet_wait2 R env qt' w = Some (Ok (w, Err (Fail EINVAL ''invalid queue token''))))"
proof (intro conjI allI impI)
  fix n w' assume "completes_in R env h n w w'"
  with assms show "inet_wait2 R env qt w = Some (res_bind (inet_take R env h w') (\<lambda>(w, qd, r). Ok (w, Ok (qd, r))))"
    by (cases "inet_take R env h w'") (auto simp: inet_wait2_def inet_wait_loop_returns)
next
  fix v r assume "inet_wait2 R env qt w = Some (Ok (v, r))"
  with assms show "\<exists>n w' qd x. completes_in R env h n w w' \<and> inet_take R env h w' = Ok (v, qd, x) \<and> r = Ok (qd, x)"
    by (fastforce simp: inet_wait2_def run_bind_Ok_iff dest: inet_wait_loop_only)
qed (simp add: inet_wait2_def)


text \<open>A runtime with one operation, scheduled under every token, and no network.\<close>

definition sample_runtime ::
    "('f, 'c, 't) host_env \<Rightarrow> (('f, 'c, 't) inet_stack, future_operation, unit) runtime_ops" where
  "sample_runtime env = \<lparr>
     ro_poll = (\<lambda>(s, f). Some (if op_done f then Ok (s, f) else res_bind (future_operation_poll env f s) (\<lambda>(s, f, ready). Ok (s, f)))),
     ro_receive = (\<lambda>f. (f, [])), ro_transmit = (\<lambda>out f. f), ro_advance_clock = (\<lambda>f. f),
     ro_get_handle = (\<lambda>qt f. if qt = 0 then None else Some ()), ro_has_completed = (\<lambda>h. op_done), ro_take_key = (\<lambda>h f. f),
     ro_take = (\<lambda>h f. (f, f))\<rparr>"

lemma sample_runtime_round:
  "st_ts_iters s = 0 \<Longrightarrow> set_tcp (tcp_of s) s = s \<Longrightarrow> inet_poll_bg_work (sample_runtime env) env (s, FoTcp (TcpPush 4 None None)) =
     Some (Ok (s\<lparr>st_ts_iters := 1\<rparr>, FoTcp (TcpPush 4 None (Some (Ok ())))))"
  by (simp add: inet_poll_bg_work_def sample_runtime_def MAX_RECV_ITERS_def TIMER_RESOLUTION_def push_future_poll_def numeral_2_eq_2)

lemma sample_runtime_until:
  assumes "P (FoTcp (TcpPush 4 None (Some (Ok ()))))"
  shows "rounds_until (sample_runtime env) env P 0 (sample_stack a b c, FoTcp (TcpPush 4 None None))
     ((sample_stack a b c)\<lparr>st_ts_iters := 1\<rparr>, FoTcp (TcpPush 4 None (Some (Ok ()))))"
  using assms by (simp add: rounds_until_0 sample_runtime_round sample_stack_def set_tcp_def)

theorem wait2_exact_witness:
  "\<exists>w. inet_wait2 (sample_runtime (sample_host_env [2, 0, 0, 0, 0, 1] 0x0A000001)) (sample_host_env [2, 0, 0, 0, 0, 1] 0x0A000001) 7
     (sample_stack [] [] [], FoTcp (TcpPush 4 None None)) = Some (Ok (w, Ok (4, ResPush)))"
proof -
  let ?env = "sample_host_env [2, 0, 0, 0, 0, 1] 0x0A000001"
  let ?R = "sample_runtime ?env"
  have "ro_get_handle ?R 7 (snd (sample_stack [] [] [] :: (rat, slot list_chan, (qdesc \<times> qtype) list) inet_stack, FoTcp (TcpPush 4 None None))) = Some ()"
    by (simp add: sample_runtime_def)
  from wait2_exact [OF this, THEN conjunct1, rule_format, OF sample_runtime_until [of "ro_has_completed ?R ()"]]
  show ?thesis by (auto simp: sample_runtime_def inet_take_def inet_take_operation_def)
qed

text \<open>C18: \<^verbatim>\<open>wait_any2\<close> returns exactly when one of its tokens decides, that is, its operation has completed or the scheduler does not know
  it.  It runs the stack to the first state in which some token decides and answers for the first such token of the list, with its index;
  it returns in no other way, so that with no token at all it never does.\<close>

theorem wait_any2_exact:
  assumes "keeps_operations R"
  shows "(\<forall>n w' xs qt ys. rounds_until R env (\<lambda>rt. \<exists>q \<in> set (xs @ qt # ys). decides R rt q) n w w' \<longrightarrow>
       (\<forall>q \<in> set xs. \<not> decides R (snd w') q) \<longrightarrow> decides R (snd w') qt \<longrightarrow>
       inet_wait_any2 R env (xs @ qt # ys) w = Some (any_result R env (length xs) qt w')) \<and>
     (\<forall>qts y. inet_wait_any2 R env qts w = Some (Ok y) \<longrightarrow>
       (\<exists>n w' xs qt ys. qts = xs @ qt # ys \<and> rounds_until R env (\<lambda>rt. \<exists>q \<in> set qts. decides R rt q) n w w' \<and>
         (\<forall>q \<in> set xs. \<not> decides R (snd w') q) \<and> decides R (snd w') qt \<and> any_result R env (length xs) qt w' = Ok y)) \<and>
     (\<forall>y. inet_wait_any2 R env [] w \<noteq> Some (Ok y))"
proof (intro conjI allI impI)
  fix n w' xs qt ys
  assume "rounds_until R env (\<lambda>rt. \<exists>q \<in> set (xs @ qt # ys). decides R rt q) n w w'"
    "\<forall>q \<in> set xs. \<not> decides R (snd w') q" "decides R (snd w') qt"
  then show "inet_wait_any2 R env (xs @ qt # ys) w = Some (any_result R env (length xs) qt w')" by (rule wait_any2_returns [OF assms])
next
  fix y show "inet_wait_any2 R env [] w \<noteq> Some (Ok y)" using wait_any2_only [OF assms, of env "[]" w y] by auto
qed (rule wait_any2_only [OF assms])

theorem wait_any2_exact_witness:
  "\<exists>w. inet_wait_any2 (sample_runtime (sample_host_env [2, 0, 0, 0, 0, 1] 0x0A000001)) (sample_host_env [2, 0, 0, 0, 0, 1] 0x0A000001) [7, 9]
     (sample_stack [] [] [], FoTcp (TcpPush 4 None None)) = Some (Ok (w, Ok (0, 4, ResPush)))"
proof -
  let ?env = "sample_host_env [2, 0, 0, 0, 0, 1] 0x0A000001"
  let ?R = "sample_runtime ?env"
  have "keeps_operations ?R" by (simp add: keeps_operations_def sample_runtime_def)
  note any = wait_any2_exact [OF this, THEN conjunct1, rule_format, of ?env "[]" 7 "[9]"]
  have d: "decides ?R (FoTcp (TcpPush 4 None (Some (Ok ())))) 7" by (simp add: decides_def sample_runtime_def)
  then have "rounds_until ?R ?env (\<lambda>rt. \<exists>q \<in> set ([] @ 7 # [9]). decides ?R rt q) 0 (sample_stack [] [] [], FoTcp (TcpPush 4 None None))
     ((sample_stack [] [] [])\<lparr>st_ts_iters := 1\<rparr>, FoTcp (TcpPush 4 None (Some (Ok ()))))"
    by (intro sample_runtime_until) simp
  from any [OF this] d show ?thesis by (auto simp: any_result_def sample_runtime_def inet_take_def inet_take_operation_def)
qed


section \<open>A connection between two hosts\<close>

text \<open>C4: Data arrives, in both directions.  On an open connection between two hosts, on a network that loses nothing, any sequence of buffers from either
  side, each within the window and the size of a datagram, goes from application to application: every push sends one segment at once, its
  frame passes the parsers and the dispatch of the other host, the pop of the other side returns exactly the buffer, the delayed
  acknowledgement goes back as a frame, and then nothing is outstanding and both control blocks agree again, so the next buffer follows.\<close>

theorem tcp_transfer_end_to_end:
  assumes "extern (host_ext ae)" "rto_total F good" "linked F ae be (l, r)" "session good m delay ae be (l, r) qd rqd s"
    and "\<forall>x \<in> set xs. admissible m delay x"
  shows "\<exists>s'. conversation ae be (l, r) qd rqd xs s s' \<and> session good m delay ae be (l, r) qd rqd s'"
  by (rule rto_total.conversation_session [OF assms(2,1,3-5)])

definition sample_end :: "socket_addr \<Rightarrow> socket_addr \<Rightarrow> seq_number \<Rightarrow> seq_number \<Rightarrow> rat conn_block" where
  "sample_end l r i j = control_block_new exact_flops l r j 5 65535 0 i 65535 0 1450 ()"

definition sample_peer :: "qdesc \<Rightarrow> socket_addr \<Rightarrow> socket_addr \<Rightarrow> mac_address \<Rightarrow> rat conn_block \<Rightarrow> (rat, slot list_chan, (qdesc \<times> qtype) list) inet_stack" where
  "sample_peer qd l r mac cb = set_conn (l, r) cb (sample_stack [(fst r, mac)] [(qd, SockEstablished l r)] [])"

abbreviation sample_hosts :: "(rat, slot list_chan, (qdesc \<times> qtype) list) inet_stack \<times> (rat, slot list_chan, (qdesc \<times> qtype) list) inet_stack" where
  "sample_hosts \<equiv>
     (sample_peer 4 (0x0A000001, 80) (0x0A000002, 443) [2, 0, 0, 0, 0, 2] (sample_end (0x0A000001, 80) (0x0A000002, 443) 1000 500),
      sample_peer 3 (0x0A000002, 443) (0x0A000001, 80) [2, 0, 0, 0, 0, 1] (sample_end (0x0A000002, 443) (0x0A000001, 80) 500 1000))"

lemma sample_ready: "ready 1000 (sample_end l r i j) (sample_end r l j i)"
  by (simp add: sample_end_def ready_def ends_agree_def control_block_new_def sender_new_def
      receiver_new_def window_fits_def get_receive_window_size_def seq_sub_def)

lemma sample_session:
  "session exact_good (1000, 1000) (5, 5) (sample_host_env [2, 0, 0, 0, 0, 1] 0x0A000001) (sample_host_env [2, 0, 0, 0, 0, 2] 0x0A000002)
     ((0x0A000001, 80), (0x0A000002, 443)) 4 3 sample_hosts"
proof -
  have "blocks_ready exact_good (1000, 1000) (5, 5) (l, r) (sample_end l r i j) (sample_end r l j i)" for l r i j
    using sample_ready by (simp add: blocks_ready_def) (simp add: sample_end_def control_block_new_def exact_good_def rto_new_def exact_ops)
  then show ?thesis unfolding session_def
    by (intro exI [of _ "sample_end (0x0A000001, 80) (0x0A000002, 443) 1000 500"] exI [of _ "sample_end (0x0A000002, 443) (0x0A000001, 80) 500 1000"])
      (simp add: sample_peer_def host_conn_def set_conn_def sample_stack_eval resolves_def)
qed

lemma sample_linked:
  "linked exact_flops (sample_host_env [2, 0, 0, 0, 0, 1] 0x0A000001) (sample_host_env [2, 0, 0, 0, 0, 2] 0x0A000002) ((0x0A000001, 80), (0x0A000002, 443))"
  by (simp add: linked_def sample_stack_eval)

lemma sample_extern: "extern (host_ext (sample_host_env mac ip))"
  using extern_documented by (simp add: sample_stack_eval)

theorem tcp_transfer_end_to_end_witness:
  "\<exists>s'. conversation (sample_host_env [2, 0, 0, 0, 0, 1] 0x0A000001) (sample_host_env [2, 0, 0, 0, 0, 2] 0x0A000002)
     ((0x0A000001, 80), (0x0A000002, 443)) 4 3 [(True, 10, 20, [1, 2, 3]), (False, 30, 40, [4]), (True, 50, 60, [5])] sample_hosts s'"
proof -
  have "\<forall>x \<in> set [(True, 10, 20, [1, 2, 3]), (False, 30, 40, [4]), (True, 50, 60, [5])]. admissible (1000, 1000) (5, 5) x"
    by (simp add: admissible_def)
  from tcp_transfer_end_to_end [OF sample_extern exact_rto.rto_total_axioms sample_linked sample_session this] show ?thesis by blast
qed

text \<open>C1: The life of a connection.  An application of one host waits in accept and an application of another connects to it; then any admissible buffers go
  back and forth; then the side that connected closes, and then the other.  Every step succeeds, every segment going as a frame through both stacks: after the
  handshake the connection is open in both directions, each buffer is popped as it was pushed, the first close leads to FIN-WAIT-2 and CLOSE-WAIT and the
  second to TIME-WAIT and CLOSED, and both descriptors are free again.\<close>

theorem tcp_connection_lifecycle:
  assumes "extern (host_ext ce)" "rto_total F good" "good (rto_new F)" "linked F ce se (l, r)"
    and "io_queue_table (he_files ce)" "io_queue_table (he_files se)" "0 < usable_window ce" "0 < usable_window se"
    and "can_connect ce se (l, r) (qd, lqd, new_qd) (smac, cmac) s"
    and "\<forall>x \<in> set xs. admissible (usable_window se, usable_window ce)
           (cfg_ack_delay_timeout (oe_cfg (he_open se)), cfg_ack_delay_timeout (oe_cfg (he_open ce))) x"
  shows "\<exists>s1 s2 s3 s4. handshake ce se (l, r) (qd, lqd, new_qd) (smac, cmac) s s1 \<and>
     conversation ce se (l, r) qd new_qd xs s1 s2 \<and>
     closes ce se qd t s2 s3 \<and> conn_states (l, r) s3 = (Some FinWait2, Some CloseWait) \<and>
     closes se ce new_qd t' (prod.swap s3) (prod.swap s4) \<and> conn_states (l, r) s4 = (Some TimeWait, Some tcp_state.Closed) \<and>
     ft_get (he_files ce) (st_file_table (fst s4)) qd = None \<and> ft_get (he_files se) (st_file_table (snd s4)) new_qd = None"
proof -
  from handshake_session [OF assms(1,4,6), of good qd lqd new_qd smac cmac s] assms(3,9) obtain s1 where
    s1: "handshake ce se (l, r) (qd, lqd, new_qd) (smac, cmac) s s1"
      "session good (usable_window se, usable_window ce)
         (cfg_ack_delay_timeout (oe_cfg (he_open se)), cfg_ack_delay_timeout (oe_cfg (he_open ce))) ce se (l, r) qd new_qd s1" by blast
  from rto_total.conversation_session [OF assms(2,1,4) s1(2) assms(10)] obtain s2 where
    s2: "conversation ce se (l, r) qd new_qd xs s1 s2"
      "session good (usable_window se, usable_window ce)
         (cfg_ack_delay_timeout (oe_cfg (he_open se)), cfg_ack_delay_timeout (oe_cfg (he_open ce))) ce se (l, r) qd new_qd s2" by blast
  from rto_total.session_closes [OF assms(2,1,4-6) s2(2), of t t'] assms(7,8) s1(1) s2(1) show ?thesis by (simp del: split_paired_Ex) blast
qed

abbreviation sample_waiting_server where
  "sample_waiting_server \<equiv> sample_stack [(0x0A000001, [2, 0, 0, 0, 0, 1])] [(3, Listening (0x0A000002, 443))]
     [((0x0A000002, 443), passive_new (0x0A000002, 443) 2 0)]"

theorem tcp_connection_lifecycle_witness:
  "\<exists>s1 s2 s3 s4. handshake (sample_host_env [2, 0, 0, 0, 0, 1] 0x0A000001) (sample_host_env [2, 0, 0, 0, 0, 2] 0x0A000002)
       ((0x0A000001, 80), (0x0A000002, 443)) (4, 3, 4) ([2, 0, 0, 0, 0, 2], [2, 0, 0, 0, 0, 1]) (sample_client, sample_waiting_server) s1 \<and>
     conversation (sample_host_env [2, 0, 0, 0, 0, 1] 0x0A000001) (sample_host_env [2, 0, 0, 0, 0, 2] 0x0A000002)
       ((0x0A000001, 80), (0x0A000002, 443)) 4 4 [(True, 10, 20, [1, 2, 3]), (False, 30, 40, [4])] s1 s2 \<and>
     closes (sample_host_env [2, 0, 0, 0, 0, 1] 0x0A000001) (sample_host_env [2, 0, 0, 0, 0, 2] 0x0A000002) 4 50 s2 s3 \<and>
     closes (sample_host_env [2, 0, 0, 0, 0, 2] 0x0A000002) (sample_host_env [2, 0, 0, 0, 0, 1] 0x0A000001) 4 60 (prod.swap s3) (prod.swap s4) \<and>
     conn_states ((0x0A000001, 80), (0x0A000002, 443)) s4 = (Some TimeWait, Some tcp_state.Closed)"
proof -
  let ?c = "sample_host_env [2, 0, 0, 0, 0, 1] 0x0A000001" and ?s = "sample_host_env [2, 0, 0, 0, 0, 2] 0x0A000002"
  have win: "usable_window (sample_host_env mac ip) = 65408" for mac ip
    by (simp add: usable_window_def sample_host_env_def)
  have files: "io_queue_table (he_files (sample_host_env mac ip))" for mac ip
    using files.io_queue_table_axioms by (simp add: sample_host_env_def)
  have "tcp_peer_ok (tcp_of sample_waiting_server)" using sample_server_ok by (simp add: sample_stack_def)
  then have can: "can_connect ?c ?s ((0x0A000001, 80), (0x0A000002, 443)) (4, 3, 4) ([2, 0, 0, 0, 0, 2], [2, 0, 0, 0, 0, 1]) (sample_client, sample_waiting_server)"
    by (simp add: can_connect_def sample_stack_eval)
  have good: "exact_good (rto_new exact_flops)" by (simp add: exact_good_def rto_new_def exact_ops)
  have "\<forall>x \<in> set [(True, 10, 20, [1, 2, 3]), (False, 30, 40, [4])]. admissible (usable_window ?s, usable_window ?c)
      (cfg_ack_delay_timeout (oe_cfg (he_open ?s)), cfg_ack_delay_timeout (oe_cfg (he_open ?c))) x"
    by (simp add: admissible_def win) (simp add: sample_host_env_def)
  from tcp_connection_lifecycle [OF sample_extern exact_rto.rto_total_axioms good sample_linked files files _ _ can this, of 50 60] win
  show ?thesis by (simp del: split_paired_Ex) blast
qed

end
