(* ===== verification/Tcp_Closing.thy ===== *)
theory Tcp_Closing
  imports Tcp_Tables Tcp_States
begin

text \<open>
  What the TCP peer does with a connection that is over.  Every step of the peer acts on an established connection by one of the operations of
  the connection or leaves it alone; none takes it out of the table.  After the end of the peer's stream the receive queue stays as it is.
\<close>

section \<open>Operations on one connection\<close>

inductive conn_op :: "('f, 'cc) control_block \<Rightarrow> ('f, 'cc) control_block \<Rightarrow> bool" where
  op_send: "cb_send env d cb = Ok (cb', r) \<Longrightarrow> conn_op cb cb'"
| op_close: "cb_close env cb = Ok (cb', r) \<Longrightarrow> conn_op cb cb'"
| op_read: "cb_poll_recv cb = (cb', x) \<Longrightarrow> conn_op cb cb'"
| op_receive: "cb_receive env h d cb = Some (Ok cb') \<Longrightarrow> conn_op cb cb'"
| op_task: "conn_task env cb cb' \<Longrightarrow> conn_op cb cb'"

definition conn_kept :: "conn_key \<Rightarrow> 'f tcp_peer \<Rightarrow> 'f tcp_peer \<Rightarrow> bool" where
  "conn_kept k p p' \<longleftrightarrow> (\<forall>cb. map_of (tp_established p) k = Some cb \<longrightarrow>
     (\<exists>cb'. map_of (tp_established p') k = Some cb' \<and> (cb' = cb \<or> conn_op cb cb')))"

lemma conn_kept_same: "tp_established p' = tp_established p \<Longrightarrow> conn_kept k p p'"
  by (simp add: conn_kept_def)

lemma conn_kept_update:
  "map_of (tp_established p) k' = Some cb \<Longrightarrow> conn_op cb cb' \<Longrightarrow> tp_established p' = AList.update k' cb' (tp_established p) \<Longrightarrow> conn_kept k p p'"
  by (auto simp: conn_kept_def update_conv')

lemma conn_kept_add:
  "map_of (tp_established p) k' = None \<Longrightarrow> tp_established p' = AList.update k' cb (tp_established p) \<Longrightarrow> conn_kept k p p'"
  by (auto simp: conn_kept_def update_conv')

lemmas conn_keptI = conn_kept_same conn_kept_update conn_kept_add

lemma tcp_dispatch_kept:
  assumes "tcp_dispatch env ip h d p = Some (Ok (p', out, r))"
  shows "conn_kept k p p'"
proof (cases "map_of (tp_established p) ((ip_dst_addr ip, tcp_dst_port h), (ip_src_addr ip, tcp_src_port h))")
  case (Some cb)
  with assms show ?thesis
    by (auto simp: tcp_dispatch_def Let_def split: if_splits option.splits res.splits intro: conn_kept_same intro!: conn_kept_update [OF Some op_receive])
next
  case None
  with assms show ?thesis
    by (intro conn_kept_same) (auto simp: tcp_dispatch_def Let_def res_bind_Ok_iff split: if_splits option.splits prod.splits)
qed

lemma tcp_poll_accept_kept:
  assumes "tcp_poll_accept qd new_qd p = Ok (p', x)"
  shows "conn_kept k p p'"
proof (cases "\<exists>l s. map_of (tp_sockets p) qd = Some (Listening l) \<and> map_of (tp_passive p) l = Some s")
  case True
  then obtain l s where ls: "map_of (tp_sockets p) qd = Some (Listening l)" "map_of (tp_passive p) l = Some s" by blast
  with assms obtain s' y where y: "passive_poll_accept s = Ok (s', y)" by (auto simp: tcp_poll_accept_def res_bind_Ok_iff)
  consider "y = None" | cb where "y = Some (Ok cb)" | e where "y = Some (Err e)" | m where "y = Some (Panic m)"
    by (metis option.exhaust res.exhaust)
  then show ?thesis
    by cases (use assms ls y in \<open>auto simp: tcp_poll_accept_def Let_def split: if_splits intro: conn_kept_same conn_kept_add\<close>)
next
  case False
  with assms show ?thesis by (intro conn_kept_same) (auto simp: tcp_poll_accept_def split: option.splits socket.splits)
qed

lemma tcp_step_kept: "tcp_step p p' \<Longrightarrow> conn_kept k p p'"
proof (induction rule: tcp_step.induct)
  case (step_socket qd p p' r)
  then show ?case by (intro conn_kept_same) (auto simp: tcp_do_socket_def split: if_splits option.splits)
next
  case (step_bind qd addr p p' r)
  then show ?case
    by (intro conn_kept_same) (auto simp: tcp_bind_def tcp_bind_port_def Let_def split: if_splits option.splits socket.splits prod.splits res.splits)
next
  case (step_listen nonce qd backlog p p' r)
  then show ?case by (intro conn_kept_same) (auto simp: tcp_listen_def Let_def split: if_splits option.splits socket.splits)
next
  case (step_accept qd new_qd p p' x)
  then show ?case by (blast intro: tcp_poll_accept_kept)
next
  case (step_connect env qd remote p p' r)
  then show ?case by (intro conn_kept_same) (auto simp: tcp_connect_def tcp_connect_local_def Let_def split: if_splits option.splits socket.splits prod.splits res.splits)
next
  case (step_connected qd p p' x)
  then show ?case
    by (auto simp: tcp_poll_connect_finished_def Let_def split: option.splits socket.splits res.splits if_splits prod.splits
        intro: conn_kept_same conn_kept_add)
next
  case (step_recv qd p p' y)
  then show ?case
    by (auto simp: tcp_poll_recv_def split: option.splits socket.splits prod.splits intro: conn_kept_same conn_kept_update op_read)
next
  case (step_send env qd buf p p' out r)
  then show ?case
    by (auto simp: tcp_send_def res_bind_Ok_iff split: res.splits dest!: tcp_lookup_Ok intro: conn_kept_same)
      (rule conn_kept_update [OF _ op_send], assumption+, simp)
next
  case (step_close env qd p p' out r)
  then show ?case
    by (auto simp: tcp_do_close_def Let_def res_bind_Ok_iff split: option.splits socket.splits intro: conn_kept_same conn_kept_update op_close)
next
  case (step_segment env ip buf p p' out r)
  then show ?case by (auto simp: tcp_receive_def split: res.splits intro: tcp_dispatch_kept conn_kept_same)
next
  case (step_connecting env k ev p p' out)
  then show ?case by (intro conn_kept_same) (auto simp: tcp_connecting_task_def res_bind_Ok_iff split: option.splits)
next
  case (step_passive env l remote ev p p' out)
  then show ?case by (intro conn_kept_same) (auto simp: tcp_passive_task_def res_bind_Ok_iff split: option.splits)
next
  case (step_background p k cb env cb')
  then show ?case by (intro conn_kept_update [OF _ op_task]) simp_all
qed

lemma tcp_reach_kept:
  assumes "tcp_reach p p'" "map_of (tp_established p) k = Some cb"
  shows "\<exists>cb'. map_of (tp_established p') k = Some cb' \<and> conn_op\<^sup>*\<^sup>* cb cb'"
  using assms
proof (induction rule: tcp_reach.induct)
  case (tcp_next q q')
  with tcp_step_kept [OF tcp_next.hyps(2), of k] show ?case unfolding conn_kept_def by (metis rtranclp.rtrancl_into_rtrancl)
qed blast

section \<open>After the end of the stream\<close>

definition stream_over :: "('f, 'cc) control_block \<Rightarrow> bool" where
  "stream_over cb \<longleftrightarrow> \<not> receives_data (cb_state cb) \<and> recv_queue (cb_receiver cb) = []"

lemma conn_task_state:
  "conn_task env cb cb' \<Longrightarrow> cb_state cb' \<in> {cb_state cb, state_after_fin (cb_state cb)}"
proof (induction rule: conn_task.induct)
  case (1 cb cb' st)
  then show ?case by (simp add: bg_sender_top_state)
next
  case (2 "next" mac cb cb' st)
  then show ?case by (simp add: bg_sender_probe_state)
next
  case (3 "next" buf mac t cb cb' st)
  then show ?case
    by (auto simp: bg_sender_probe_timeout_def bg_probe_header_def Let_def res_bind_Ok_iff cb_emit_def dest!: cb_tcp_header_fin split: if_splits)
next
  case (4 "next" win sent cwnd mac cb cb' st)
  then show ?case by (rule bg_sender_send_state)
next
  case (5 cb cb' rt)
  then show ?case
    by (auto simp: retransmitter_top_def retransmit_start_def pop_unacked_segment_def res_bind_Ok_iff Let_def
        split: list.splits retransmit_cause.splits if_splits)
next
  case (6 cb)
  show ?case by (simp add: retransmitter_timer_def split: option.split)
next
  case (7 u mac cb cb' rt)
  then show ?case by (auto simp: retransmit_finish_def Let_def res_bind_Ok_iff cb_emit_def dest!: cb_tcp_header_fin split: if_splits)
next
  case (8 cb cb')
  then show ?case by (auto simp: acknowledger_timer_def dest!: cb_send_ack_view split: option.splits if_splits)
qed

lemma state_after_fin_over: "\<not> receives_data s \<Longrightarrow> \<not> receives_data (state_after_fin s)"
  by (auto simp: receives_data_def state_after_fin_def split: tcp_state.splits)

lemma cb_receive_over:
  assumes rcv: "cb_receive env h d cb = Some (Ok cb')" and over: "\<not> receives_data (cb_state cb)"
  shows "recv_queue (cb_receiver cb') = recv_queue (cb_receiver cb) \<and> \<not> receives_data (cb_state cb')"
proof
  show "\<not> receives_data (cb_state cb')"
    using cb_receive_moves [OF rcv] over by (auto simp: peer_moves_def receives_data_def split: tcp_state.splits)
  show "recv_queue (cb_receiver cb') = recv_queue (cb_receiver cb)"
  proof (cases "cb_accept (te_ext env) h d cb")
    case Unacceptable
    with rcv show ?thesis by (auto simp: cb_receive_def rcv_view_def dest!: cb_send_ack_view split: if_splits)
  next
    case (Acceptable h1 d1 ss se sl)
    show ?thesis
    proof (cases "tcp_rst h1 \<or> tcp_syn h1 \<or> \<not> tcp_ack h1")
      case True
      with rcv Acceptable show ?thesis by (auto simp: cb_receive_def split: if_splits)
    next
      case False
      with rcv Acceptable obtain cb1 g where ack: "cb_process_ack env h1 cb = Some (Ok (cb1, g))"
        and rest: "cb' = cb1 \<or> cb_receive_out_of_order env h1 d1 ss se sl cb1 = Ok cb' \<or> cb_receive_in_order env h1 d1 cb1 = Ok cb'"
        by (auto simp: cb_receive_def Let_def split: option.splits res.splits if_splits)
      from cb_process_ack_view [OF ack] over have v: "rcv_view cb1 = rcv_view cb" "\<not> receives_data (cb_state cb1)" by simp_all
      from rest v(2) have "recv_queue (cb_receiver cb') = recv_queue (cb_receiver cb1)"
        by (auto simp: cb_receive_out_of_order_def cb_receive_in_order_def Let_def res_bind_Ok_iff rcv_view_def dest!: cb_send_ack_view split: if_splits)
      with v(1) show ?thesis by (simp add: rcv_view_def)
    qed
  qed
qed

lemma sending_over:
  assumes "cb_input cb' = cb_input cb" "cb_state cb' \<in> {cb_state cb, state_after_fin (cb_state cb)}" "stream_over cb"
  shows "stream_over cb'"
  using assms state_after_fin_over [of "cb_state cb"] by (auto simp: stream_over_def cb_input_def)

lemma conn_op_over: "conn_op cb cb' \<Longrightarrow> stream_over cb \<Longrightarrow> stream_over cb'"
proof (induction rule: conn_op.induct)
  case (op_send env d cb cb' r)
  then show ?case using sending_over [OF cb_send_input cb_send_state] by blast
next
  case (op_close env cb cb' r)
  then show ?case using sending_over [OF cb_close_input cb_close_state] by blast
next
  case (op_read cb cb' x)
  then show ?case by (auto simp: stream_over_def cb_poll_recv_def)
next
  case (op_receive env h d cb cb')
  then show ?case using cb_receive_over [of env h d cb cb'] by (simp add: stream_over_def)
next
  case (op_task env cb cb')
  then show ?case using sending_over [OF conn_task_input conn_task_state] by blast
qed

lemma conn_ops_over: "conn_op\<^sup>*\<^sup>* cb cb' \<Longrightarrow> stream_over cb \<Longrightarrow> stream_over cb'"
  by (induction rule: rtranclp_induct) (auto intro: conn_op_over)

end
