(* ===== verification/Close_Properties.thy ===== *)
theory Close_Properties
  imports Run_Properties Tcp_Closing
begin

text \<open>
  Where the end of a connection goes wrong: the reader is not told, the control block stays for ever, and what arrives for it can stop the process.
\<close>

section \<open>The reader\<close>

text \<open>C39: The end of the stream is never signalled.  When the peer has closed and everything it sent has been read, a pop on the socket never completes,
  whatever the application calls, the network sends and the background tasks do; the connection itself is never removed from the table either.\<close>

theorem eof_never_signalled:
  assumes "map_of (tp_established p) (l, r) = Some cb" "\<not> receives_data (cb_state cb)" "recv_queue (cb_receiver cb) = []" "tcp_reach p p'"
  shows "(\<exists>cb'. map_of (tp_established p') (l, r) = Some cb' \<and> recv_queue (cb_receiver cb') = []) \<and>
     (\<forall>fd. map_of (tp_sockets p') fd = Some (SockEstablished l r) \<longrightarrow> snd (tcp_poll_recv fd p') = None)"
proof -
  from tcp_reach_kept [OF assms(4,1)] obtain cb' where cb': "map_of (tp_established p') (l, r) = Some cb'" "conn_op\<^sup>*\<^sup>* cb cb'" by blast
  have "recv_queue (cb_receiver cb') = []" using conn_ops_over [OF cb'(2)] assms(2,3) by (simp add: stream_over_def)
  with cb'(1) show ?thesis by (auto simp: tcp_poll_recv_def cb_poll_recv_def)
qed

theorem eof_never_signalled_witness:
  "snd (tcp_poll_recv 3 (tcp_of (set_conn ((0x0A000002, 443), (0x0A000001, 80))
     ((sample_end (0x0A000002, 443) (0x0A000001, 80) 500 1000)\<lparr>cb_state := CloseWait\<rparr>) (snd sample_hosts)))) = None"
proof -
  let ?cb = "(sample_end (0x0A000002, 443) (0x0A000001, 80) 500 1000)\<lparr>cb_state := CloseWait\<rparr>"
  let ?p = "tcp_of (set_conn ((0x0A000002, 443), (0x0A000001, 80)) ?cb (snd sample_hosts))"
  have "map_of (tp_established ?p) ((0x0A000002, 443), (0x0A000001, 80)) = Some ?cb" by simp
  moreover have "\<not> receives_data (cb_state ?cb)" "recv_queue (cb_receiver ?cb) = []"
    by (simp_all add: receives_data_def sample_end_def control_block_new_def receiver_new_def)
  moreover have "map_of (tp_sockets ?p) 3 = Some (SockEstablished (0x0A000002, 443) (0x0A000001, 80))"
    by (simp add: sample_peer_def sample_stack_def)
  ultimately show ?thesis using eof_never_signalled [OF _ _ _ tcp_start] by blast
qed

section \<open>Resets\<close>

abbreviation rst_header :: "socket_addr \<Rightarrow> socket_addr \<Rightarrow> seq_number \<Rightarrow> seq_number \<Rightarrow> u16 \<Rightarrow> tcp_header" where
  "rst_header l r q a w \<equiv> (conn_header l r q a w)\<lparr>tcp_rst := True\<rparr>"

lemma cb_receive_reset:
  assumes "tcp_rst h" "\<not> tcp_syn h" "\<not> tcp_fin h" "tcp_seq_num h = receive_next (cb_receiver cb)"
  shows "cb_receive env h [] cb =
    Some (if cb_state cb = tcp_state.Closed then Panic ''Bad TCP state'' else Ok (cb\<lparr>cb_state := tcp_state.Closed\<rparr>))"
  using assms cb_accept_bare_ack [OF assms(4,2,3), of "te_ext env"] by (simp add: cb_receive_def)

lemma rst_segment_wf:
  assumes "length mac = 6" "length (rt_local_link_addr (te_rt env)) = 6"
  shows "tcp_segment_wf (data_segment env l r mac (rst_header l r q a w) [])"
proof -
  have "tcp_wf (rst_header l r q a w)" by (rule no_options_wf) simp_all
  moreover have "tcp_compute_size (rst_header l r q a w) = 20" by (simp add: tcp_compute_size_bounds(3))
  ultimately show ?thesis using assms
    by (simp add: data_segment_def tcp_segment_wf_def eth_wf_def ethernet2_new_def ipv4_wf_def ipv4_new_def)
qed

lemma rst_header_norm: "tcp_norm (rst_header l r q a w) = rst_header l r q a w"
  by (simp add: tcp_norm_def tcp_iter_options_def conn_header_def tcp_header_new_def MAX_TCP_OPTIONS_def)

text \<open>C38: A second reset stops the process.  A reset with the expected sequence number closes a connection, but the closed control block stays in the table; when
  the same frame arrives again, or any reset arrives on a connection that has been closed in order, the receive path runs into the panic for a
  bad state.\<close>

theorem second_reset_panics:
  assumes "extern (host_ext env)" "te_tx_offload e \<longrightarrow> cfg_rx_checksum_offload (oe_cfg (he_open env))" "rt_local_ipv4_addr (host_rt env) = fst l" "unicast (fst r)"
    and "length mac = 6" "length (rt_local_link_addr (te_rt e)) = 6" "map_of (tp_established (tcp_of s)) (l, r) = Some cb"
  shows "\<exists>fr. tcp_frame (host_ext env) (data_segment e r l mac (rst_header r l (receive_next (cb_receiver cb)) a w) []) = Ok fr \<and>
     (if cb_state cb = tcp_state.Closed then inet_do_receive env fr s = Some (Panic ''Bad TCP state'')
      else \<exists>s'. inet_do_receive env fr s = Some (Ok (s', [], Ok ())) \<and> inet_do_receive env fr s' = Some (Panic ''Bad TCP state''))"
proof -
  let ?h = "rst_header r l (receive_next (cb_receiver cb)) a w" and ?cb = "cb\<lparr>cb_state := tcp_state.Closed\<rparr>"
  have "tcp_src_port ?h = snd r" "tcp_dst_port ?h = snd l" by simp_all
  from host_dispatches [OF assms(1) rst_segment_wf [OF assms(5,6)] rst_header_norm assms(2-4) this] obtain fr where
    fr: "tcp_frame (host_ext env) (data_segment e r l mac ?h []) = Ok fr"
      "\<And>s cb cb' m. map_of (tp_established (tcp_of s)) (l, r) = Some cb \<Longrightarrow> cb_receive (oe_tcp (host_open env (st_arp s))) ?h [] cb = Some (Ok cb') \<Longrightarrow>
         inet_do_receive env fr s = Some (Ok (set_conn (l, r) cb' s, map TcpPacket (emitted cb cb'), Ok ()))"
      "\<And>s cb cb' m. map_of (tp_established (tcp_of s)) (l, r) = Some cb \<Longrightarrow> cb_receive (oe_tcp (host_open env (st_arp s))) ?h [] cb = Some (Panic m) \<Longrightarrow>
         inet_do_receive env fr s = Some (Panic m)" by auto
  have "inet_do_receive env fr (set_conn (l, r) ?cb s) = Some (Panic ''Bad TCP state'')"
    using fr(3) [of "set_conn (l, r) ?cb s" ?cb] cb_receive_reset [of ?h ?cb] by simp
  moreover have "emitted cb ?cb = []" by (simp add: emitted_def)
  ultimately show ?thesis
    using fr(1) fr(2) [OF assms(7), of ?cb] fr(3) [OF assms(7)] cb_receive_reset [of ?h cb] by (intro exI [of _ fr]) auto
qed

theorem second_reset_panics_witness:
  "\<exists>fr s'. inet_do_receive (sample_host_env [2, 0, 0, 0, 0, 1] 0x0A000001) fr (fst sample_hosts) = Some (Ok (s', [], Ok ())) \<and>
     inet_do_receive (sample_host_env [2, 0, 0, 0, 0, 1] 0x0A000001) fr s' = Some (Panic ''Bad TCP state'')"
proof -
  let ?env = "sample_host_env [2, 0, 0, 0, 0, 1] 0x0A000001" and ?e = "oe_tcp (he_open (sample_host_env [2, 0, 0, 0, 0, 2] 0x0A000002))"
  let ?cb = "sample_end (0x0A000001, 80) (0x0A000002, 443) 1000 500" and ?l = "(0x0A000001, 80)" and ?r = "(0x0A000002, 443)"
  have cb: "map_of (tp_established (tcp_of (fst sample_hosts))) (?l, ?r) = Some ?cb" by (simp add: sample_peer_def)
  have "te_tx_offload ?e \<longrightarrow> cfg_rx_checksum_offload (oe_cfg (he_open ?env))" "rt_local_ipv4_addr (host_rt ?env) = fst ?l" "unicast (fst ?r)"
    "length [2, 0, 0, 0, 0, 1 :: 8 word] = 6" "length (rt_local_link_addr (te_rt ?e)) = 6"
    by (simp_all add: sample_stack_eval)
  from second_reset_panics [OF sample_extern this cb, of 0 0] show ?thesis
    by (auto simp: sample_end_def control_block_new_def)
qed

end
