(* ===== verification/Tcp_Tasks.thy ===== *)
theory Tcp_Tasks
  imports Tcp_Tables
begin

text \<open>
  \<^verbatim>\<open>src/src/protocols/tcp/established/background/mod.rs\<close>: the background coroutine of a connection runs its acknowledger, its
  retransmitter and its sender side by side and ends when the first of them fails.  A step of it is one of the three going on from
  where it waits: a timer that has expired, a watched value that has changed, or an answer of the address resolution.
\<close>

datatype background = BgRunning bg_retransmitter bg_sender | BgEnded fail

datatype bg_event =
    AckTimer
  | RtxWake | RtxTimer | RtxResolved "mac_address res"
  | SndWake | SndResolved "mac_address res" | SndTimer

definition background_new :: background where
  "background_new = BgRunning RtTop BsTop"

text \<open>The answer of the address resolution is awaited with \<^verbatim>\<open>?\<close>: a failure ends the task that asked, and with it all three.\<close>

definition resolved ::
    "mac_address res \<Rightarrow> ('f, 'cc) control_block \<Rightarrow> (mac_address \<Rightarrow> (background \<times> ('f, 'cc) control_block) res) \<Rightarrow>
     (background \<times> ('f, 'cc) control_block) res" where
  "resolved x cb f = (case x of Ok mac \<Rightarrow> f mac | Err e \<Rightarrow> Ok (BgEnded e, cb) | Panic m \<Rightarrow> Panic m)"

fun background_step ::
    "('f, 'cc) tcp_env \<Rightarrow> bg_event \<Rightarrow> background \<times> ('f, 'cc) control_block \<Rightarrow> (background \<times> ('f, 'cc) control_block) res" where
  "background_step env ev (BgEnded e, cb) = Ok (BgEnded e, cb)"
| "background_step env AckTimer (BgRunning r s, cb) =
     res_bind (acknowledger_timer env cb) (\<lambda>cb. Ok (BgRunning r s, cb))"
| "background_step env RtxWake (BgRunning RtTop s, cb) =
     res_bind (retransmitter_top env cb) (\<lambda>(cb, r). Ok (BgRunning r s, cb))"
| "background_step env RtxTimer (BgRunning RtTop s, cb) = Ok (BgRunning RtTop s, retransmitter_timer env cb)"
| "background_step env (RtxResolved x) (BgRunning (RtArp u) s, cb) =
     resolved x cb (\<lambda>mac. res_bind (retransmit_finish env u mac cb) (\<lambda>(cb, r). Ok (BgRunning r s, cb)))"
| "background_step env SndWake (BgRunning r BsTop, cb) =
     res_bind (bg_sender_top env cb) (\<lambda>(cb, s). Ok (BgRunning r s, cb))"
| "background_step env SndWake (BgRunning r (BsProbing nxt buf mac t), cb) =
     res_bind (bg_sender_top env cb) (\<lambda>(cb, s). Ok (BgRunning r s, cb))"
| "background_step env (SndResolved x) (BgRunning r (BsProbeArp nxt), cb) =
     resolved x cb (\<lambda>mac. res_bind (bg_sender_probe env nxt mac cb) (\<lambda>(cb, s). Ok (BgRunning r s, cb)))"
| "background_step env (SndResolved x) (BgRunning r (BsSendArp nxt win sent cwnd), cb) =
     resolved x cb (\<lambda>mac. res_bind (bg_sender_send env nxt win sent cwnd mac cb) (\<lambda>(cb, s). Ok (BgRunning r s, cb)))"
| "background_step env SndTimer (BgRunning r (BsProbing nxt buf mac t), cb) =
     res_bind (bg_sender_probe_timeout env nxt buf mac t cb) (\<lambda>(cb, s). Ok (BgRunning r s, cb))"
| "background_step env ev (bg, cb) = Ok (bg, cb)"

text \<open>Every step of the coroutine is a step of a task of the connection, as the reachable states of the peer have it.\<close>

lemma background_step_task:
  "background_step env ev (bg, cb) = Ok (bg', cb') \<Longrightarrow> cb' = cb \<or> conn_task env cb cb'"
  by (cases "(env, ev, (bg, cb))" rule: background_step.cases)
    (auto simp: resolved_def res_bind_Ok_iff intro: conn_task.intros split: res.splits)

lemma background_step_peer:
  assumes "background_step env ev (bg, cb) = Ok (bg', cb')" "map_of (tp_established p) k = Some cb"
  shows "tcp_step\<^sup>=\<^sup>= p (p\<lparr>tp_established := AList.update k cb' (tp_established p)\<rparr>) \<or> cb' = cb"
  using background_step_task [OF assms(1)] step_background [OF assms(2)] by auto

section \<open>Runs\<close>

fun background_run ::
    "(('f, 'cc) tcp_env \<times> bg_event) list \<Rightarrow> background \<times> ('f, 'cc) control_block \<Rightarrow> (background \<times> ('f, 'cc) control_block) res" where
  "background_run [] x = Ok x"
| "background_run ((env, ev) # evs) x = res_bind (background_step env ev x) (background_run evs)"

lemma background_ended: "background_run evs (BgEnded e, cb) = Ok (BgEnded e, cb)"
  by (induction evs) auto

text \<open>
  One failed resolution while the sender waits for it ends the coroutine: from then on the connection sends neither what is queued nor a
  delayed acknowledgement, at any time and however often its timers would fire.
\<close>

lemma failed_resolution_ends_background:
  assumes "s = BsProbeArp nxt \<or> s = BsSendArp nxt win sent cwnd"
  shows "background_run ((env, SndResolved (Err e)) # evs) (BgRunning r s, cb) = Ok (BgEnded e, cb)"
  using assms by (auto simp: resolved_def background_ended)

end
