(* ===== verification/Spec2Isabelle.thy ===== *)
theory Spec2Isabelle
  imports Wire_Properties Net_Properties Tcp_Properties Send_Properties Stack_Properties Run_Properties Close_Properties Tcp_Tasks
begin

text \<open>
  A model of the network stack \<^verbatim>\<open>inetstack\<close> (Rust, under \<^verbatim>\<open>src/src/\<close>) with the theorems that make it correct.

  \<^bold>\<open>The program.\<close>  A host has one \<^verbatim>\<open>InetStack\<close> (\<^verbatim>\<open>lib.rs\<close>).  A frame from the network is parsed by the Ethernet
  layer and handed to the ARP peer or the IPv4 peer (\<^verbatim>\<open>protocols/peer.rs\<close>), which parses the IPv4 header and dispatches to
  the ICMPv4, UDP or TCP peer.  The application opens sockets under queue descriptors and gets operations that a scheduler polls.
  Background tasks send queued datagrams, answer pings, repeat SYNs, and send, retransmit and acknowledge
  for each TCP connection.  ARP resolves link addresses for all of them.

  \<^bold>\<open>How code becomes definitions.\<close>  A struct is a record, an enum a datatype, a machine integer a word, a hash map an association
  list (\<^verbatim>\<open>HOL-Library.AList\<close>), \<^verbatim>\<open>Instant\<close> and \<^verbatim>\<open>Duration\<close> naturals (nanoseconds).  An operation takes the state and
  returns the new one.  \<open>res\<close> (theory \<^verbatim>\<open>Prelude\<close>) has the values \<open>Ok\<close>, \<open>Err\<close> (a \<^verbatim>\<open>Fail\<close>) and \<open>Panic\<close> (an assertion, an
  \<^verbatim>\<open>expect\<close>, an index out of range); where the source both updates the state and returns a \<^verbatim>\<open>Result\<close>, the outer \<open>res\<close> is
  the panic and the inner one the \<^verbatim>\<open>Result\<close>.  A loop that may not end is a \<open>partial_function (option)\<close>, \<open>None\<close> being that it does not return.
  Arithmetic wraps as in a release build, and a \<^verbatim>\<open>debug_assert\<close> is not executed.  What is given to
  \<^verbatim>\<open>rt.transmit\<close> is a list of segments, or the log \<open>cb_tx\<close> of a connection.  An async function is cut at its
  suspension points: a datatype of the places where it waits and one definition per resumption, so that every interleaving of its pieces with
  the other operations is a sequence of steps.

  \<^bold>\<open>Code outside the repository.\<close>  It is a parameter with its documented behaviour as a locale: \<open>extern\<close> (byte order and slices,
  theory \<^verbatim>\<open>Extern\<close>), \<open>mpsc\<close> and \<open>slot_chan\<close> (the channel behind the UDP queues, \<^verbatim>\<open>Shared_Queue\<close>, \<^verbatim>\<open>Udp_Peer\<close>), \<open>float_bounds\<close>
  and \<open>rto_total\<close> (floating point, \<^verbatim>\<open>Rto\<close>, \<^verbatim>\<open>Tcp_Transfer\<close>), \<open>io_queue_table\<close> (queue descriptors, \<^verbatim>\<open>Inet_Stack\<close>).  The object \<^verbatim>\<open>rt\<close>
  with its scheduler, network and clock is the record \<open>runtime_ops\<close> of its methods (\<^verbatim>\<open>Inet_Runtime\<close>).  Random shuffles and nonces, the CRC of the sequence
  number generator and the options of the runtime are arguments.  Every locale is interpreted: those of external code on an executable
  version of the documented behaviour, which the witnesses use, and those between components (\<open>link_table\<close>, \<open>port_pool\<close>,
  \<open>congestion_control\<close>, \<open>option_accessor\<close>, \<open>forward_simulation\<close>) on the definitions of the model.

  \<^bold>\<open>The theories.\<close>
  \<^item> \<^verbatim>\<open>Prelude\<close>, \<^verbatim>\<open>Extern\<close>, \<^verbatim>\<open>Checksum\<close>: results, byte slices, external readers and writers, one's complement sums.
  \<^item> \<^verbatim>\<open>Ethernet2\<close>, \<^verbatim>\<open>Ipv4_Header\<close>, \<^verbatim>\<open>Arp_Packet\<close>, \<^verbatim>\<open>Icmpv4_Header\<close>, \<^verbatim>\<open>Udp_Header\<close>, \<^verbatim>\<open>Tcp_Segment\<close>, \<^verbatim>\<open>Seq_Number\<close>: the headers,
    their parsers, serialisers and checksums (\<^verbatim>\<open>protocols/*/datagram\<close>, \<^verbatim>\<open>frame.rs\<close>, \<^verbatim>\<open>segment.rs\<close>, \<^verbatim>\<open>sequence_number.rs\<close>).
    \<^verbatim>\<open>Wire_Properties\<close>: round trips of whole frames, no parser panics, what the checksums detect, the order of sequence numbers.
  \<^item> \<^verbatim>\<open>Cc_Options\<close>: the options of the stack and of congestion control (\<^verbatim>\<open>options.rs\<close>, \<^verbatim>\<open>congestion_control/options.rs\<close>).
  \<^item> \<^verbatim>\<open>Ttl_Cache\<close>, \<^verbatim>\<open>Arp_Cache\<close>, \<^verbatim>\<open>Arp_Peer\<close>, \<^verbatim>\<open>Ephemeral_Ports\<close>, \<^verbatim>\<open>Shared_Queue\<close>, \<^verbatim>\<open>Socket_Table\<close>, \<^verbatim>\<open>Udp_Peer\<close>
    (\<^verbatim>\<open>collections/hashttlcache\<close>, \<^verbatim>\<open>protocols/arp\<close>, \<^verbatim>\<open>protocols/ip/ephemeral.rs\<close>, \<^verbatim>\<open>protocols/udp\<close>).  \<^verbatim>\<open>Net_Properties\<close>: RFC 826, the life
    of an ARP query, the invariant of the UDP peer over all reachable states, a datagram from application to application.
  \<^item> \<^verbatim>\<open>Rto\<close>, \<^verbatim>\<open>Congestion\<close>, \<^verbatim>\<open>Tcp_Ctrlblk\<close>, \<^verbatim>\<open>Tcp_Receive\<close>, \<^verbatim>\<open>Tcp_Background\<close> (\<^verbatim>\<open>tcp/established\<close>): a connection.
    \<^verbatim>\<open>Tcp_Sender\<close>, \<^verbatim>\<open>Tcp_States\<close>, \<^verbatim>\<open>Tcp_Stream\<close> hold the invariants of the send queues, of the state machine and of the received stream, by rule
    induction over the steps of a connection, and \<^verbatim>\<open>Tcp_Properties\<close> the theorems: what is read is a prefix of what was sent, the queues
    account for every sequence number, receive ends on every segment but one, and the cases where the code goes wrong.
    \<^verbatim>\<open>Tcp_Send_Spec\<close> is the abstract stream of the sending side and the simulation of it by the steps of a connection; \<^verbatim>\<open>Send_Properties\<close> has
    the refinement, that nothing is sent twice, not even what was lost, and when the sender stalls.  \<^verbatim>\<open>Tcp_Tasks\<close>
    (\<^verbatim>\<open>established/background/mod.rs\<close>) is the coroutine that runs the three background tasks of a connection.
  \<^item> \<^verbatim>\<open>Tcp_Open\<close> (\<^verbatim>\<open>tcp/isn_generator.rs\<close>, \<^verbatim>\<open>active_open.rs\<close>, \<^verbatim>\<open>passive_open.rs\<close>), \<^verbatim>\<open>Tcp_Peer\<close> (\<^verbatim>\<open>tcp/peer.rs\<close>, \<^verbatim>\<open>established/mod.rs\<close>),
    \<^verbatim>\<open>Icmpv4_Peer\<close> (\<^verbatim>\<open>icmpv4/peer.rs\<close>), \<^verbatim>\<open>Inet_Stack\<close> (\<^verbatim>\<open>lib.rs\<close>, \<^verbatim>\<open>protocols/peer.rs\<close>, the operations and their results).
    \<^verbatim>\<open>Tcp_Handshake\<close> has the lemmas on both sides of a handshake and the bound on the backlog, \<^verbatim>\<open>Tcp_Tables\<close> the invariant of the four
    tables of the TCP peer and that every operation, segment and task keeps it, \<^verbatim>\<open>Stack_Lemmas\<close> what a host does with a frame and the stages
    of a connection, and \<^verbatim>\<open>Stack_Properties\<close> the theorems: a connection and a ping between two hosts, frame by frame; the
    tables in every reachable state; any frame on a listening host; unanswered and refused connection attempts.
  \<^item> \<^verbatim>\<open>Inet_Runtime\<close> (\<^verbatim>\<open>lib.rs\<close>: \<^verbatim>\<open>poll_bg_work\<close>, \<^verbatim>\<open>wait2\<close>, \<^verbatim>\<open>wait_any2\<close>; the polls of \<^verbatim>\<open>tcp/operations.rs\<close>,
    \<^verbatim>\<open>udp/futures/operation.rs\<close> and \<^verbatim>\<open>futures/operation/mod.rs\<close>) runs the stack.  \<^verbatim>\<open>Stack_Steps\<close> has the steps of a whole stack with its
    scheduled operations and the typing of descriptors that each of them keeps.  \<^verbatim>\<open>Tcp_Transfer\<close> has the exchange of a data segment and its
    acknowledgement between two hosts and the state of the two ends that every exchange, in either direction, keeps; \<^verbatim>\<open>Tcp_Teardown\<close> the exchange of
    a FIN and its acknowledgement, for the side that closes first and the side that closes last; \<^verbatim>\<open>Tcp_Lifecycle\<close> that the handshake of
    \<^verbatim>\<open>Stack_Lemmas\<close> leads to such a state.  \<^verbatim>\<open>Run_Properties\<close> has the theorems: typed descriptors in every reachable state, when the waits return,
    data in both directions over a connection, and the whole life of a connection from connect and accept to both closes.
  \<^item> \<^verbatim>\<open>Tcp_Closing\<close> follows one entry of the table of connections through every step of the TCP peer, and \<^verbatim>\<open>Close_Properties\<close> has
    what goes wrong at the end of a connection: the reader is never told, and a reset on a closed connection stops the process.

  \<^bold>\<open>Bounds and fuel.\<close>  No definition uses fuel.  The receive loop of a background round runs \<open>MAX_RECV_ITERS\<close> times, the retries of
  ARP and of the handshake are those of the options, and each is a structural recursion or a countdown in the state.  The non-structural
  loops are shown to end (the removal of acknowledged data outside the one forged acknowledgement, the draining of a
  queue of capacity two or more, the out-of-order store by a measure), and the waits return exactly when an operation completes.

  \<^bold>\<open>Not modelled.\<close>  The scheduler, the timers and the memory of the crate \<^verbatim>\<open>runtime\<close>, which is not in the repository; the configurations of
  that crate, which are type parameters or arguments; \<^verbatim>\<open>Debug\<close> instances, logging and profiling; methods that only pass a call on;
  \<^verbatim>\<open>get_future\<close> of an operation, which is a \<^verbatim>\<open>todo!()\<close>; tests and test helpers.
\<close>

end
